(* ===== verification/Prelude.thy ===== *)
theory Prelude
  imports Complex_Main "HOL-Library.Finite_Map" "HOL-Library.Word"
    "HOL-Library.List_Lexorder" "HOL-Library.Char_ord"
begin

section \<open>Prelude: Go's data, and the lemmas the components share\<close>

text \<open>
  How the model reads the Go the components are written in.
  \<^item> \<open>string\<close> and the named string types are HOL strings (lists of bytes), compared bytewise as
    Go compares them; \<open>[]byte\<close> is a list of 8-bit words.
  \<^item> \<open>int\<close> is \<open>int\<close>, \<open>uint16\<close>/\<open>uint32\<close>/\<open>uint64\<close> are words of that width, a conversion to
    \<open>int32\<close> wraps (\<open>to_int32\<close>).
  \<^item> \<open>float64\<close> is \<open>real\<close>: the finite values with exact arithmetic. Rounding, infinities and NaN
    are outside the model.
  \<^item> \<open>time.Time\<close> and \<open>time.Duration\<close> are nanoseconds (\<open>int\<close>); the zero time is 0 and
    \<open>Time.Sub\<close> saturates at the ends of \<open>int64\<close>, as the Go library documents.
  \<^item> a \<open>map\<close> is a finite map. The order in which \<open>range\<close> visits its keys is not specified by Go,
    so every such loop takes an \<open>order\<close>: a function that lists a finite set of keys. Nothing but
    \<open>is_order\<close> (every key once) is ever assumed of it, so the theorems hold for every order.
  \<^item> a buffered channel is the list of its elements, oldest first, and its capacity.
  \<^item> an \<open>error\<close> is a value of the type \<open>error\<close> of the theory \<open>Types\<close>.
\<close>

type_synonym byte = "8 word"
type_synonym bytes = "byte list"
type_synonym float64 = real
type_synonym Time = int
type_synonym Duration = int
type_synonym order = "string set \<Rightarrow> string list"

named_theorems go_simps \<open>unfolding rules of the Go library functions the model uses\<close>

subsection \<open>Time\<close>

abbreviation (input) Millisecond :: Duration where "Millisecond \<equiv> 1000000"
abbreviation (input) Second :: Duration where "Second \<equiv> 1000000000"
abbreviation (input) zero_time :: Time where "zero_time \<equiv> 0"

definition sat64 :: "int \<Rightarrow> int" where
  "sat64 d = max (- (2 ^ 63)) (min (2 ^ 63 - 1) d)"

definition time_Sub :: "Time \<Rightarrow> Time \<Rightarrow> Duration" where
  "time_Sub t u = sat64 (t - u)"

definition time_Add :: "Time \<Rightarrow> Duration \<Rightarrow> Time" where
  [go_simps]: "time_Add t d = t + d"

definition time_After :: "Time \<Rightarrow> Time \<Rightarrow> bool" where
  [go_simps]: "time_After t u \<longleftrightarrow> u < t"

definition dur_Seconds :: "Duration \<Rightarrow> float64" where
  [go_simps]: "dur_Seconds d = real_of_int d / 1000000000"

lemma time_Sub_exact [simp]: "\<bar>t - u\<bar> < 2 ^ 63 \<Longrightarrow> time_Sub t u = t - u"
  by (auto simp: time_Sub_def sat64_def)

lemma time_Sub_gt_iff: "- (2 ^ 63) \<le> w \<Longrightarrow> w < 2 ^ 63 - 1 \<Longrightarrow> w < time_Sub t u \<longleftrightarrow> w < t - u"
  by (auto simp: time_Sub_def sat64_def)

lemma time_Sub_mono: "t \<le> t' \<Longrightarrow> time_Sub t u \<le> time_Sub t' u"
  by (auto simp: time_Sub_def sat64_def)

lemma time_Sub_nonneg: "u \<le> t \<Longrightarrow> 0 \<le> time_Sub t u"
  by (auto simp: time_Sub_def sat64_def)

subsection \<open>Integers of a fixed width\<close>

definition to_int32 :: "int \<Rightarrow> int" where
  "to_int32 i = (i + 2 ^ 31) mod 2 ^ 32 - 2 ^ 31"

lemma to_int32_id [simp]: "- (2 ^ 31) \<le> i \<Longrightarrow> i < 2 ^ 31 \<Longrightarrow> to_int32 i = i"
  by (simp add: to_int32_def)

lemma to_int32_bounds: "- (2 ^ 31) \<le> to_int32 i \<and> to_int32 i < 2 ^ 31"
  by (simp add: to_int32_def)

subsection \<open>Decimal numbers: what \<open>fmt.Sprintf\<close> prints for a percent-d\<close>

definition digit_char :: "nat \<Rightarrow> char" where
  "digit_char d = char_of (48 + d)"

fun nat_to_string :: "nat \<Rightarrow> string" where
  "nat_to_string n = (if n < 10 then [digit_char n] else nat_to_string (n div 10) @ [digit_char (n mod 10)])"

declare nat_to_string.simps [simp del]

definition itoa :: "int \<Rightarrow> string" where
  "itoa i = (if i < 0 then CHR ''-'' # nat_to_string (nat (- i)) else nat_to_string (nat i))"

lemma of_char_digit [simp]: "d < 10 \<Longrightarrow> of_char (digit_char d) = (48 + d :: nat)"
  by (simp add: digit_char_def)

lemma digit_char_inj: "d < 10 \<Longrightarrow> e < 10 \<Longrightarrow> digit_char d = digit_char e \<Longrightarrow> d = e"
proof -
  assume "d < 10" "e < 10" "digit_char d = digit_char e"
  then have "(of_char (digit_char d) :: nat) = of_char (digit_char e)" by simp
  with \<open>d < 10\<close> \<open>e < 10\<close> show "d = e" by simp
qed

lemma nat_to_string_nonempty [simp]: "nat_to_string n \<noteq> []" "[] \<noteq> nat_to_string n"
  by (subst nat_to_string.simps, simp)+

lemma nat_to_string_digits: "c \<in> set (nat_to_string n) \<Longrightarrow> \<exists>d<10. c = digit_char d"
proof (induction n rule: nat_to_string.induct)
  case (1 n)
  show ?case
  proof (cases "n < 10")
    case True
    with "1.prems" show ?thesis by (auto simp: nat_to_string.simps [of n])
  next
    case False
    then have "c \<in> set (nat_to_string (n div 10)) \<or> c = digit_char (n mod 10)"
      using "1.prems" by (auto simp: nat_to_string.simps [of n])
    moreover have "n mod 10 < 10" by simp
    ultimately show ?thesis using "1.IH" [OF False] by blast
  qed
qed

lemma nat_to_string_inj: "nat_to_string m = nat_to_string n \<Longrightarrow> m = n"
proof (induction m arbitrary: n rule: nat_to_string.induct)
  case (1 m)
  show ?case
  proof (cases "m < 10 \<or> n < 10")
    case True
    with "1.prems" have "m < 10" "n < 10"
      by (auto simp: nat_to_string.simps [of m] nat_to_string.simps [of n] split: if_splits)
    with "1.prems" show ?thesis
      by (simp add: nat_to_string.simps [of m] nat_to_string.simps [of n] digit_char_inj)
  next
    case False
    with "1.prems" have "nat_to_string (m div 10) = nat_to_string (n div 10)"
      and "digit_char (m mod 10) = digit_char (n mod 10)"
      by (auto simp: nat_to_string.simps [of m] nat_to_string.simps [of n])
    with "1.IH" False have "m div 10 = n div 10" "m mod 10 = n mod 10"
      by (auto intro: digit_char_inj)
    then show ?thesis by (metis div_mult_mod_eq)
  qed
qed

lemma digit_char_neq_code:
  assumes "d < 10" and "of_char c \<notin> {48::nat..57}"
  shows "digit_char d \<noteq> c"
proof
  assume "digit_char d = c"
  then have "of_char c = 48 + d" using assms(1) of_char_digit by blast
  with assms show False by simp
qed

lemma digit_char_neq [simp]:
  assumes "d < 10"
  shows "CHR ''-'' \<noteq> digit_char d" "CHR '':'' \<noteq> digit_char d" "CHR ''z'' \<noteq> digit_char d"
  using assms by (simp_all add: digit_char_neq_code [THEN not_sym])

lemma itoa_nonempty [simp]: "itoa i \<noteq> []"
  by (simp add: itoa_def)

lemma itoa_chars: "CHR '':'' \<notin> set (itoa i)" "CHR ''z'' \<notin> set (itoa i)"
  by (auto simp: itoa_def dest!: nat_to_string_digits)

lemma hd_nat_to_string: "hd (nat_to_string n) \<noteq> CHR ''-''"
proof -
  have "hd (nat_to_string n) \<in> set (nat_to_string n)" by simp
  then obtain d where "d < 10" "hd (nat_to_string n) = digit_char d"
    by (blast dest: nat_to_string_digits)
  then show ?thesis using digit_char_neq(1) [of d] by metis
qed

lemma itoa_inj: "itoa i = itoa j \<Longrightarrow> i = j"
proof -
  assume eq: "itoa i = itoa j"
  have neg: "CHR ''-'' # nat_to_string m \<noteq> nat_to_string n" for m n
    using hd_nat_to_string [of n] by (metis list.sel(1))
  show "i = j"
    using eq neg neg [symmetric]
    by (auto simp: itoa_def dest!: nat_to_string_inj split: if_splits)
qed

lemma itoa_eq_iff [simp]: "itoa i = itoa j \<longleftrightarrow> i = j"
  by (auto dest: itoa_inj)

lemma takeWhile_sep: "c \<notin> set ys \<Longrightarrow> takeWhile (\<lambda>x. x \<noteq> c) (ys @ c # xs) = ys"
  by (induction ys) auto

lemma append_sep_inj:
  assumes "xs @ c # ys = xs' @ c # ys'" "c \<notin> set ys" "c \<notin> set ys'"
  shows "xs = xs' \<and> ys = ys'"
proof -
  have "rev ys @ c # rev xs = rev ys' @ c # rev xs'"
    using arg_cong [OF assms(1), of rev] by simp
  then have "rev ys = rev ys'"
    using assms(2,3) takeWhile_sep [of c "rev ys"] takeWhile_sep [of c "rev ys'"]
    by (metis set_rev)
  with assms(1) show ?thesis by simp
qed

subsection \<open>Iteration over a map\<close>

definition is_order :: "order \<Rightarrow> bool" where
  "is_order ord \<longleftrightarrow> (\<forall>S. finite S \<longrightarrow> distinct (ord S) \<and> set (ord S) = S)"

lemma is_orderD [simp]: "is_order ord \<Longrightarrow> finite S \<Longrightarrow> set (ord S) = S"
  by (simp add: is_order_def)

lemma is_order_distinct [simp]: "is_order ord \<Longrightarrow> finite S \<Longrightarrow> distinct (ord S)"
  by (simp add: is_order_def)

lemma is_order_sorted: "is_order sorted_list_of_set"
  by (simp add: is_order_def)

lemma fold_invariant_set:
  assumes "P s" and "\<And>x s. x \<in> set xs \<Longrightarrow> P s \<Longrightarrow> P (f x s)"
  shows "P (fold f xs s)"
  using assms by (induction xs arbitrary: s) auto

lemma fold_preserves:
  assumes "\<And>x s. x \<in> set xs \<Longrightarrow> g (f x s) = g s"
  shows "g (fold f xs s) = g s"
  using assms by (induction xs arbitrary: s) auto

lemma set_map_filter: "set (List.map_filter f xs) = {y. \<exists>x \<in> set xs. f x = Some y}"
  by (induction xs) (auto simp: List.map_filter_simps split: option.splits)

subsection \<open>Maps\<close>

definition fm_get :: "'v \<Rightarrow> ('k, 'v) fmap \<Rightarrow> 'k \<Rightarrow> 'v" where
  \<comment> \<open>reading a key a Go map may lack: the zero value of its type\<close>
  "fm_get z m k = (case fmlookup m k of None \<Rightarrow> z | Some v \<Rightarrow> v)"

definition fm_has :: "('k, 'v) fmap \<Rightarrow> 'k \<Rightarrow> bool" where
  "fm_has m k \<longleftrightarrow> fmlookup m k \<noteq> None"

definition fm_len :: "('k, 'v) fmap \<Rightarrow> int" where
  "fm_len m = int (card (fmdom' m))"

lemma fm_get_upd [simp]: "fm_get z (fmupd k v m) k' = (if k = k' then v else fm_get z m k')"
  by (simp add: fm_get_def)

lemma fm_get_drop [simp]: "fm_get z (fmdrop k m) k' = (if k = k' then z else fm_get z m k')"
  by (simp add: fm_get_def)

lemma fm_get_empty [simp]: "fm_get z fmempty k = z"
  by (simp add: fm_get_def)

lemma fm_get_Some [simp]: "fmlookup m k = Some v \<Longrightarrow> fm_get z m k = v"
  by (simp add: fm_get_def)

lemma fm_has_simps [simp]:
  "\<not> fm_has fmempty k"
  "fm_has (fmupd k v m) k' \<longleftrightarrow> k = k' \<or> fm_has m k'"
  "fm_has (fmdrop k m) k' \<longleftrightarrow> k \<noteq> k' \<and> fm_has m k'"
  by (auto simp: fm_has_def)

lemma fm_has_dom: "fm_has m k \<longleftrightarrow> k \<in> fmdom' m"
  by (auto simp: fm_has_def fmlookup_dom'_iff)

lemma fmupd_fmdrop: "fmupd k v (fmdrop k m) = fmupd k v m"
  by (rule fmap_ext) simp

lemma fold_fmupd_lookup:
  "fmlookup (fold (\<lambda>k. fmupd k (f k)) xs m) j = (if j \<in> set xs then Some (f j) else fmlookup m j)"
  by (induction xs arbitrary: m) auto

lemma fold_copy:
  assumes "is_order ord"
  shows "fold (\<lambda>i. fmupd i (fm_get z ps i)) (ord (fmdom' ps)) fmempty = ps"
proof (rule fmap_ext)
  fix j
  show "fmlookup (fold (\<lambda>i. fmupd i (fm_get z ps i)) (ord (fmdom' ps)) fmempty) j = fmlookup ps j"
    unfolding fold_fmupd_lookup using assms
    by (auto simp: fm_get_def fmlookup_dom'_iff split: option.split)
qed

lemma fm_len_empty [simp]: "fm_len fmempty = 0"
  by (simp add: fm_len_def)

lemma fm_len_nonneg [simp]: "0 \<le> fm_len m"
  by (simp add: fm_len_def)

lemma fm_len_upd: "fm_len (fmupd k v m) = (if fm_has m k then fm_len m else fm_len m + 1)"
  by (simp add: fm_len_def fm_has_dom card_insert_if)

lemma fm_len_drop: "fm_len (fmdrop k m) = (if fm_has m k then fm_len m - 1 else fm_len m)"
proof (cases "fm_has m k")
  case True
  then have "k \<in> fmdom' m" by (simp add: fm_has_dom)
  moreover from this have "0 < card (fmdom' m)" by (auto simp: card_gt_0_iff)
  ultimately show ?thesis using True
    by (simp add: fm_len_def card_Diff_singleton of_nat_diff)
next
  case False
  then show ?thesis by (simp add: fm_has_dom fmdrop_idle')
qed

subsection \<open>Buffered channels\<close>

definition chan_full :: "nat \<Rightarrow> 'a list \<Rightarrow> bool" where
  [go_simps]: "chan_full cap q \<longleftrightarrow> cap \<le> length q"

definition chan_send :: "'a \<Rightarrow> 'a list \<Rightarrow> 'a list" where
  [go_simps]: "chan_send x q = q @ [x]"

lemma chan_send_bound: "\<not> chan_full cap q \<Longrightarrow> length (chan_send x q) \<le> cap"
  by (simp add: go_simps)

end
