(* ===== verification/Types.thy ===== *)
theory Types
  imports Prelude
begin

section \<open>Shared types: \<open>internal/types\<close>\<close>

text \<open>
  The identifiers, vectors, status enumerations and sentinel errors every service uses
  (\<open>internal/types/types.go\<close>, \<open>internal/types/id.go\<close>). The Go enumerations are named \<open>int\<close>s,
  so a value outside the declared constants exists and the \<open>default\<close> branches of the \<open>String\<close>
  methods are reachable; the model keeps them integers for that reason.
\<close>

subsection \<open>Errors\<close>

text \<open>
  The sentinel errors of \<open>types.go\<close>, of \<open>room/node.go\<close> and of \<open>storage/game\<close>, the sentinel of the
  database driver the repositories test for, an error that only has a text, a gRPC status with its
  code, and the wrapping done by \<open>fmt.Errorf\<close> with a percent-w: the text before the wrapped error,
  the error, the text after it.
\<close>

datatype error =
    ErrNotFound
  | ErrConflict
  | ErrInvalidArg
  | ErrNotOwned
  | ErrNotEmpty
  | ErrNoCapacity
  | ErrNoSnapshot
  | ErrNoRows
  | ErrText string
  | ErrStatus int string
  | Errorf string error string

fun errors_Is :: "error \<Rightarrow> error \<Rightarrow> bool" where
  \<comment> \<open>the library's \<open>errors.Is\<close>: the error or one it wraps\<close>
  "errors_Is (Errorf p e q) t \<longleftrightarrow> Errorf p e q = t \<or> errors_Is e t"
| "errors_Is e t \<longleftrightarrow> e = t"

fun error_Error :: "error \<Rightarrow> string" where
  "error_Error ErrNotFound = ''not found''"
| "error_Error ErrConflict = ''conflict''"
| "error_Error ErrInvalidArg = ''invalid argument''"
| "error_Error ErrNotOwned = ''not owned''"
| "error_Error ErrNotEmpty = ''not empty''"
| "error_Error ErrNoCapacity = ''no runtime node with capacity''"
| "error_Error ErrNoSnapshot = ''no snapshot''"
| "error_Error ErrNoRows = ''no rows in result set''"
| "error_Error (ErrText s) = s"
| "error_Error (ErrStatus c s) = s"
| "error_Error (Errorf p e q) = p @ error_Error e @ q"

subsection \<open>Identifiers and vectors\<close>

type_synonym EntityID = string
type_synonym ZoneID = string
type_synonym RuntimeID = string
type_synonym ServerID = string
type_synonym PlayerID = string
type_synonym OwnerID = string

definition NewOwnerID :: "PlayerID \<Rightarrow> OwnerID" where
  "NewOwnerID p = p"

definition NewZoneID :: "RuntimeID \<Rightarrow> int \<Rightarrow> int \<Rightarrow> ZoneID" where
  "NewZoneID runtimeID gridX gridY = runtimeID @ '':'' @ itoa gridX @ '':'' @ itoa gridY"

record Vector3 =
  vX :: float64
  vY :: float64
  vZ :: float64

record Rotation =
  rX :: float64
  rY :: float64
  rZ :: float64
  rW :: float64

definition vzero :: Vector3 where
  \<comment> \<open>the zero value \<open>Vector3{}\<close>\<close>
  "vzero = \<lparr>vX = 0, vY = 0, vZ = 0\<rparr>"

definition rzero :: Rotation where
  "rzero = \<lparr>rX = 0, rY = 0, rZ = 0, rW = 0\<rparr>"

lemma vzero_simps [simp]: "vX vzero = 0" "vY vzero = 0" "vZ vzero = 0"
  by (simp_all add: vzero_def)

lemma Vector3_eqI: "vX a = vX b \<Longrightarrow> vY a = vY b \<Longrightarrow> vZ a = vZ b \<Longrightarrow> a = (b :: Vector3)"
  by simp

subsection \<open>Statuses\<close>

type_synonym RuntimeStatus = int
type_synonym ZoneStatus = int
type_synonym ServerStatus = int

abbreviation (input) RuntimeStatusCreating :: RuntimeStatus where "RuntimeStatusCreating \<equiv> 0"
abbreviation (input) RuntimeStatusActive :: RuntimeStatus where "RuntimeStatusActive \<equiv> 1"
abbreviation (input) RuntimeStatusDraining :: RuntimeStatus where "RuntimeStatusDraining \<equiv> 2"
abbreviation (input) RuntimeStatusDestroyed :: RuntimeStatus where "RuntimeStatusDestroyed \<equiv> 3"

definition RuntimeStatus_String :: "RuntimeStatus \<Rightarrow> string" where
  "RuntimeStatus_String s =
     (if s = RuntimeStatusCreating then ''creating''
      else if s = RuntimeStatusActive then ''active''
      else if s = RuntimeStatusDraining then ''draining''
      else if s = RuntimeStatusDestroyed then ''destroyed''
      else ''RuntimeStatus('' @ itoa s @ '')'')"

abbreviation (input) ZoneStatusUnowned :: ZoneStatus where "ZoneStatusUnowned \<equiv> 0"
abbreviation (input) ZoneStatusActive :: ZoneStatus where "ZoneStatusActive \<equiv> 1"
abbreviation (input) ZoneStatusTransferring :: ZoneStatus where "ZoneStatusTransferring \<equiv> 2"
abbreviation (input) ZoneStatusOrphan :: ZoneStatus where "ZoneStatusOrphan \<equiv> 3"

definition ZoneStatus_String :: "ZoneStatus \<Rightarrow> string" where
  "ZoneStatus_String s =
     (if s = ZoneStatusUnowned then ''unowned''
      else if s = ZoneStatusActive then ''active''
      else if s = ZoneStatusTransferring then ''transferring''
      else if s = ZoneStatusOrphan then ''orphan''
      else ''ZoneStatus('' @ itoa s @ '')'')"

definition ZoneStatus_Valid :: "ZoneStatus \<Rightarrow> bool" where
  "ZoneStatus_Valid s \<longleftrightarrow> ZoneStatusUnowned \<le> s \<and> s \<le> ZoneStatusOrphan"

definition zone_transitions :: "(ZoneStatus, ZoneStatus list) fmap" where
  "zone_transitions = fmap_of_list
     [(ZoneStatusUnowned, [ZoneStatusActive]),
      (ZoneStatusActive, [ZoneStatusTransferring, ZoneStatusUnowned]),
      (ZoneStatusTransferring, [ZoneStatusActive, ZoneStatusOrphan]),
      (ZoneStatusOrphan, [ZoneStatusActive, ZoneStatusUnowned])]"

definition ValidTransition :: "ZoneStatus \<Rightarrow> ZoneStatus \<Rightarrow> bool" where
  "ValidTransition s to =
     (case fmlookup zone_transitions s of
        None \<Rightarrow> False
      | Some next \<Rightarrow> list_ex (\<lambda>n. n = to) next)"

abbreviation (input) ServerStatusJoining :: ServerStatus where "ServerStatusJoining \<equiv> 0"
abbreviation (input) ServerStatusActive :: ServerStatus where "ServerStatusActive \<equiv> 1"
abbreviation (input) ServerStatusDraining :: ServerStatus where "ServerStatusDraining \<equiv> 2"
abbreviation (input) ServerStatusShutdown :: ServerStatus where "ServerStatusShutdown \<equiv> 3"

definition ServerStatus_String :: "ServerStatus \<Rightarrow> string" where
  "ServerStatus_String s =
     (if s = ServerStatusJoining then ''joining''
      else if s = ServerStatusActive then ''active''
      else if s = ServerStatusDraining then ''draining''
      else if s = ServerStatusShutdown then ''shutdown''
      else ''ServerStatus('' @ itoa s @ '')'')"

subsection \<open>Facts\<close>

lemma ValidTransition_iff:
  "ValidTransition s to \<longleftrightarrow>
     (s, to) \<in> {(0, 1), (1, 2), (1, 0), (2, 1), (2, 3), (3, 1), (3, 0)}"
  by (auto simp: ValidTransition_def zone_transitions_def fmlookup_of_list)

lemma ValidTransition_Valid:
  "ValidTransition s to \<Longrightarrow> ZoneStatus_Valid s \<and> ZoneStatus_Valid to"
  by (auto simp: ValidTransition_iff ZoneStatus_Valid_def)

lemma ZoneStatus_String_inj:
  "ZoneStatus_Valid s \<Longrightarrow> ZoneStatus_Valid t \<Longrightarrow> ZoneStatus_String s = ZoneStatus_String t \<longleftrightarrow> s = t"
  by (simp add: ZoneStatus_String_def ZoneStatus_Valid_def)

lemma NewZoneID_inj_aux:
  assumes "NewZoneID r x y = NewZoneID r' x' y'"
  shows "r = r' \<and> x = x' \<and> y = y'"
proof -
  have "(r @ '':'' @ itoa x) @ CHR '':'' # itoa y = (r' @ '':'' @ itoa x') @ CHR '':'' # itoa y'"
    using assms by (simp add: NewZoneID_def)
  from append_sep_inj [OF this itoa_chars(1) itoa_chars(1)]
  have 1: "r @ CHR '':'' # itoa x = r' @ CHR '':'' # itoa x'" and 2: "y = y'" by simp_all
  from append_sep_inj [OF 1 itoa_chars(1) itoa_chars(1)] 2 show ?thesis by simp
qed

text \<open>
  A zone id names one grid cell of one Space: \<open>NewZoneID\<close> gives two different ids for two
  different triples of Space id and grid coordinates, even when the Space id holds colons.
\<close>

theorem NewZoneID_inj:
  "NewZoneID r x y = NewZoneID r' x' y' \<longleftrightarrow> r = r' \<and> x = x' \<and> y = y'"
  using NewZoneID_inj_aux by blast

end
