(* ===== verification/Zone.thy ===== *)
theory Zone
  imports Types
begin

section \<open>Zones: \<open>internal/game/zone\<close>\<close>

text \<open>
  The zone record and its ownership life cycle (\<open>internal/game/zone/zone.go\<close>). A method that
  fails returns an error and leaves the zone as it was, so an operation is a function into
  \<open>error + Zone\<close>. \<open>zone_op\<close> collects the operations and \<open>zone_reach\<close> the zones they can make.
\<close>

type_synonym GridCoord = "int \<times> int"

record Zone =
  z_ID :: ZoneID
  z_RuntimeID :: RuntimeID
  z_Grid :: GridCoord
  z_Size :: float64
  z_Status :: ZoneStatus
  z_ServerID :: ServerID

definition zone_New :: "ZoneID \<Rightarrow> RuntimeID \<Rightarrow> int \<Rightarrow> int \<Rightarrow> float64 \<Rightarrow> Zone" where
  "zone_New zid runtimeID gridX gridY sz =
     \<lparr>z_ID = zid, z_RuntimeID = runtimeID, z_Grid = (gridX, gridY), z_Size = sz,
      z_Status = ZoneStatusUnowned, z_ServerID = ''''\<rparr>"

definition zone_err :: "string \<Rightarrow> error \<Rightarrow> Zone \<Rightarrow> error" where
  "zone_err verb e z =
     Errorf (verb @ '' zone '' @ z_ID z @ '': '') e ('' (current='' @ ZoneStatus_String (z_Status z) @ '')'')"

definition zone_Claim :: "ServerID \<Rightarrow> Zone \<Rightarrow> error + Zone" where
  "zone_Claim serverID z =
     (if \<not> ValidTransition (z_Status z) ZoneStatusActive
      then Inl (zone_err ''claim'' ErrConflict z)
      else Inr (z\<lparr>z_Status := ZoneStatusActive, z_ServerID := serverID\<rparr>))"

definition zone_Release :: "Zone \<Rightarrow> error + Zone" where
  "zone_Release z =
     (if z_Status z \<noteq> ZoneStatusActive \<and> z_Status z \<noteq> ZoneStatusOrphan
      then Inl (zone_err ''release'' ErrInvalidArg z)
      else Inr (z\<lparr>z_Status := ZoneStatusUnowned, z_ServerID := ''''\<rparr>))"

definition zone_BeginTransfer :: "Zone \<Rightarrow> error + Zone" where
  "zone_BeginTransfer z =
     (if \<not> ValidTransition (z_Status z) ZoneStatusTransferring
      then Inl (zone_err ''transfer'' ErrConflict z)
      else Inr (z\<lparr>z_Status := ZoneStatusTransferring\<rparr>))"

definition zone_CompleteTransfer :: "ServerID \<Rightarrow> Zone \<Rightarrow> error + Zone" where
  "zone_CompleteTransfer serverID z =
     (if z_Status z \<noteq> ZoneStatusTransferring
      then Inl (zone_err ''complete transfer'' ErrInvalidArg z)
      else Inr (z\<lparr>z_Status := ZoneStatusActive, z_ServerID := serverID\<rparr>))"

definition zone_MarkOrphan :: "Zone \<Rightarrow> Zone" where
  "zone_MarkOrphan z = z\<lparr>z_Status := ZoneStatusOrphan\<rparr>"

definition zone_IsOwnedBy :: "Zone \<Rightarrow> ServerID \<Rightarrow> bool" where
  "zone_IsOwnedBy z serverID \<longleftrightarrow> z_Status z = ZoneStatusActive \<and> z_ServerID z = serverID"

definition AdjacentZones :: "GridCoord \<Rightarrow> int \<Rightarrow> GridCoord list" where
  "AdjacentZones center radius =
     concat (map (\<lambda>x. map (\<lambda>y. (x, y)) [snd center - radius..snd center + radius])
                 [fst center - radius..fst center + radius])"

subsection \<open>The life cycle as a transition system\<close>

datatype zone_op =
    OpClaim ServerID
  | OpRelease
  | OpBeginTransfer
  | OpCompleteTransfer ServerID
  | OpMarkOrphan

fun zone_apply :: "zone_op \<Rightarrow> Zone \<Rightarrow> error + Zone" where
  "zone_apply (OpClaim s) z = zone_Claim s z"
| "zone_apply OpRelease z = zone_Release z"
| "zone_apply OpBeginTransfer z = zone_BeginTransfer z"
| "zone_apply (OpCompleteTransfer s) z = zone_CompleteTransfer s z"
| "zone_apply OpMarkOrphan z = Inr (zone_MarkOrphan z)"

inductive zone_reach :: "Zone \<Rightarrow> bool" where
  zone_init: "zone_reach (zone_New zid rid x y sz)"
| zone_step: "zone_reach z \<Longrightarrow> zone_apply op z = Inr z' \<Longrightarrow> zone_reach z'"

lemmas zone_defs = zone_Claim_def zone_Release_def zone_BeginTransfer_def
  zone_CompleteTransfer_def zone_MarkOrphan_def

lemma zone_apply_status:
  assumes "zone_apply op z = Inr z'"
  shows "ZoneStatus_Valid (z_Status z')"
    and "op \<noteq> OpMarkOrphan \<Longrightarrow> ValidTransition (z_Status z) (z_Status z')"
  using assms
  by (cases op; auto simp: zone_defs ValidTransition_iff ZoneStatus_Valid_def split: if_splits)+

lemma zone_apply_frame:
  assumes "zone_apply op z = Inr z'"
  shows "z_ID z' = z_ID z" "z_RuntimeID z' = z_RuntimeID z" "z_Grid z' = z_Grid z"
    "z_Size z' = z_Size z"
  using assms by (cases op; auto simp: zone_defs split: if_splits)+

lemma zone_apply_owner:
  assumes "zone_apply op z = Inr z'"
  shows "z_ServerID z' = (case op of OpClaim s \<Rightarrow> s | OpCompleteTransfer s \<Rightarrow> s
           | OpRelease \<Rightarrow> '''' | _ \<Rightarrow> z_ServerID z)"
  using assms by (cases op) (auto simp: zone_defs split: if_splits)

lemma zone_reach_inv_aux:
  "zone_reach z \<Longrightarrow> ZoneStatus_Valid (z_Status z) \<and> (z_Status z = ZoneStatusUnowned \<longrightarrow> z_ServerID z = '''')"
proof (induction rule: zone_reach.induct)
  case (zone_init zid rid x y sz)
  then show ?case by (simp add: zone_New_def ZoneStatus_Valid_def)
next
  case (zone_step z op z')
  then show ?case
    using zone_apply_status(1) [OF zone_step.hyps(2)]
    by (cases op) (auto simp: zone_defs split: if_splits)
qed

lemma AdjacentZones_length_aux: "length (AdjacentZones c r) = (nat (2 * r + 1))\<^sup>2"
  by (simp add: AdjacentZones_def length_concat comp_def sum_list_triv power2_eq_square
      algebra_simps)

lemma AdjacentZones_set_aux:
  "set (AdjacentZones c r) = {(x, y). \<bar>x - fst c\<bar> \<le> r \<and> \<bar>y - snd c\<bar> \<le> r}"
  by (auto simp: AdjacentZones_def image_iff abs_le_iff)

lemma distinct_product_list:
  "distinct xs \<Longrightarrow> distinct ys \<Longrightarrow> distinct (concat (map (\<lambda>x. map (Pair x) ys) xs))"
  by (induction xs) (auto simp: distinct_map inj_on_def)

lemma AdjacentZones_distinct_aux: "distinct (AdjacentZones c r)"
  unfolding AdjacentZones_def by (rule distinct_product_list) simp_all

subsection \<open>Properties\<close>

text \<open>
  C25. Whatever sequence of claims, releases, transfers and orphan marks a zone has gone through,
  an operation that succeeds leaves it with one of the four declared statuses, follows the
  \<open>ValidTransition\<close> table unless it is \<open>MarkOrphan\<close>, leaves identity, Space, grid cell and size
  alone, and a zone whose status is unowned names no server.
\<close>

theorem zone_lifecycle:
  assumes "zone_reach z" and "zone_apply op z = Inr z'"
  shows "ZoneStatus_Valid (z_Status z')
    \<and> (op \<noteq> OpMarkOrphan \<longrightarrow> ValidTransition (z_Status z) (z_Status z'))
    \<and> (z_Status z' = ZoneStatusUnowned \<longrightarrow> z_ServerID z' = '''')
    \<and> z_ID z' = z_ID z \<and> z_RuntimeID z' = z_RuntimeID z \<and> z_Grid z' = z_Grid z \<and> z_Size z' = z_Size z"
  using zone_apply_status [OF assms(2)] zone_apply_frame [OF assms(2)]
    zone_reach_inv_aux [OF zone_step [OF assms]] by blast

theorem zone_lifecycle_witness:
  "ValidTransition (z_Status (zone_New ''z1'' ''r1'' 0 0 100)) ZoneStatusActive"
proof -
  let ?z = "zone_New ''z1'' ''r1'' 0 0 100"
  let ?z' = "?z\<lparr>z_Status := ZoneStatusActive, z_ServerID := ''gs1''\<rparr>"
  have "zone_apply (OpClaim ''gs1'') ?z = Inr ?z'"
    by (simp add: zone_Claim_def zone_New_def ValidTransition_iff)
  from zone_lifecycle [OF zone_init this] show ?thesis by simp
qed

text \<open>
  A claim is exclusive: once a claim has succeeded the claiming server owns the zone and no
  other does, and every further claim, by any server, is refused with a conflict for as long as
  the zone is not released, orphaned or transferred.
\<close>

theorem zone_claim_exclusive:
  assumes "zone_Claim s z = Inr z'"
  shows "zone_IsOwnedBy z' s
    \<and> (\<forall>s'. \<exists>e. zone_Claim s' z' = Inl e \<and> errors_Is e ErrConflict)
    \<and> (\<forall>s'. zone_IsOwnedBy z' s' \<longrightarrow> s' = s)"
  using assms
  by (auto simp: zone_Claim_def zone_IsOwnedBy_def zone_err_def ValidTransition_iff split: if_splits)

theorem zone_claim_exclusive_witness:
  "\<exists>z'. zone_Claim ''gs1'' (zone_New ''z1'' ''r1'' 0 0 100) = Inr z' \<and> zone_IsOwnedBy z' ''gs1''"
proof -
  let ?z = "zone_New ''z1'' ''r1'' 0 0 100"
  have c: "zone_Claim ''gs1'' ?z = Inr (?z\<lparr>z_Status := ZoneStatusActive, z_ServerID := ''gs1''\<rparr>)"
    by (simp add: zone_Claim_def zone_New_def ValidTransition_iff)
  from zone_claim_exclusive [OF c] c show ?thesis by blast
qed

text \<open>
  \<open>AdjacentZones\<close> lists the square of grid cells at distance at most \<open>radius\<close> in each axis,
  each cell once: \<open>(2 * radius + 1)\<close> squared of them for a radius of at least 0, none below.
\<close>

theorem AdjacentZones_square:
  "distinct (AdjacentZones c r)
   \<and> set (AdjacentZones c r) = {(x, y). \<bar>x - fst c\<bar> \<le> r \<and> \<bar>y - snd c\<bar> \<le> r}
   \<and> length (AdjacentZones c r) = (nat (2 * r + 1))\<^sup>2"
  by (simp add: AdjacentZones_distinct_aux AdjacentZones_set_aux AdjacentZones_length_aux)

end
