(* ===== verification/AOI_Grid.thy ===== *)
theory AOI_Grid
  imports Types
begin

section \<open>The area-of-interest grid: \<open>internal/game/aoi\<close>\<close>

text \<open>
  The uniform grid of \<open>internal/game/aoi/aoi.go\<close>: entity ids in cells, and the last position of
  each id. The theory holds the operations, the invariant \<open>aoi_inv\<close> that ties cells and positions
  together, the interface \<open>spatial_index\<close> a client of the grid relies on, and its interpretation
  on the grid. The encoder of \<open>encoding/gob\<close> is the parameter \<open>gob_lib\<close>; \<open>gob_reads_back\<close> says of
  a value that decoding its encoding gives it back.
\<close>

type_synonym cellKey = "int \<times> int"

record AOI =
  a_cellSize :: float64
  a_radius :: float64
  a_cellRange :: int
  a_cells :: "(cellKey, EntityID list) fmap"
  a_positions :: "(EntityID, Vector3) fmap"

definition aoi_New :: "float64 \<Rightarrow> float64 \<Rightarrow> AOI" where
  "aoi_New cellSize radius =
     \<lparr>a_cellSize = cellSize, a_radius = radius, a_cellRange = \<lceil>radius / cellSize\<rceil>,
      a_cells = fmempty, a_positions = fmempty\<rparr>"

definition cellKeyFor :: "AOI \<Rightarrow> Vector3 \<Rightarrow> cellKey" where
  "cellKeyFor a pos = (\<lfloor>vX pos / a_cellSize a\<rfloor>, \<lfloor>vZ pos / a_cellSize a\<rfloor>)"

definition aoi_Enter :: "EntityID \<Rightarrow> Vector3 \<Rightarrow> AOI \<Rightarrow> AOI" where
  "aoi_Enter i pos a =
     (let key = cellKeyFor a pos in
      a\<lparr>a_cells := fmupd key (fm_get [] (a_cells a) key @ [i]) (a_cells a),
        a_positions := fmupd i pos (a_positions a)\<rparr>)"

definition cell_remove :: "cellKey \<Rightarrow> EntityID \<Rightarrow> (cellKey, EntityID list) fmap \<Rightarrow> (cellKey, EntityID list) fmap" where
  \<comment> \<open>the loop over \<open>ids\<close> of \<open>Leave\<close> and \<open>Move\<close>: cut the first element equal to the id and stop\<close>
  "cell_remove key i cells =
     (let ids = fm_get [] cells key in
      if i \<in> set ids then fmupd key (remove1 i ids) cells else cells)"

definition aoi_Leave :: "EntityID \<Rightarrow> AOI \<Rightarrow> AOI" where
  "aoi_Leave i a =
     (case fmlookup (a_positions a) i of
        None \<Rightarrow> a
      | Some pos \<Rightarrow>
          a\<lparr>a_cells := cell_remove (cellKeyFor a pos) i (a_cells a),
            a_positions := fmdrop i (a_positions a)\<rparr>)"

definition aoi_Move :: "EntityID \<Rightarrow> Vector3 \<Rightarrow> AOI \<Rightarrow> AOI" where
  "aoi_Move i newPos a =
     (case fmlookup (a_positions a) i of
        None \<Rightarrow> aoi_Enter i newPos a
      | Some oldPos \<Rightarrow>
          (let oldKey = cellKeyFor a oldPos; newKey = cellKeyFor a newPos in
           if oldKey = newKey then a\<lparr>a_positions := fmupd i newPos (a_positions a)\<rparr>
           else
             (let cells = cell_remove oldKey i (a_cells a) in
              a\<lparr>a_cells := fmupd newKey (fm_get [] cells newKey @ [i]) cells,
                a_positions := fmupd i newPos (a_positions a)\<rparr>)))"

definition query_visit :: "EntityID \<Rightarrow> EntityID set \<times> EntityID list \<Rightarrow> EntityID set \<times> EntityID list" where
  "query_visit i sr =
     (case sr of (seen, result) \<Rightarrow> if i \<in> seen then sr else (insert i seen, result @ [i]))"

definition query_window :: "AOI \<Rightarrow> Vector3 \<Rightarrow> cellKey list" where
  \<comment> \<open>the keys of the two nested loops, \<open>dx\<close> outside\<close>
  "query_window a pos =
     (let center = cellKeyFor a pos; R = a_cellRange a in
      concat (map (\<lambda>dx. map (\<lambda>dy. (fst center + dx, snd center + dy)) [- R..R]) [- R..R]))"

definition aoi_Query :: "AOI \<Rightarrow> Vector3 \<Rightarrow> EntityID list" where
  "aoi_Query a pos =
     sort (snd (fold (\<lambda>key sr. fold query_visit (fm_get [] (a_cells a) key) sr)
                     (query_window a pos) ({}, [])))"

definition EntitiesInRange :: "AOI \<Rightarrow> Vector3 \<Rightarrow> float64 \<Rightarrow> EntityID list" where
  "EntitiesInRange a center radius =
     (let radiusSq = radius * radius in
      filter (\<lambda>i. let pos = fm_get vzero (a_positions a) i;
                      dx = vX pos - vX center; dz = vZ pos - vZ center
                  in dx * dx + dz * dz \<le> radiusSq)
             (aoi_Query a center))"

definition CellCoord :: "AOI \<Rightarrow> Vector3 \<Rightarrow> int \<times> int" where
  "CellCoord a pos = (let ck = cellKeyFor a pos in (fst ck, snd ck))"

definition aoi_Count :: "AOI \<Rightarrow> int" where
  "aoi_Count a = fm_len (a_positions a)"

subsection \<open>Serialisation\<close>

record serializedAOI =
  s_CellSize :: float64
  s_Radius :: float64
  s_Positions :: "(EntityID, Vector3) fmap"

record gob_lib =
  gob_Encode :: "serializedAOI \<Rightarrow> bytes"
  gob_Decode :: "bytes \<Rightarrow> error + serializedAOI"

definition gob_reads_back :: "gob_lib \<Rightarrow> serializedAOI \<Rightarrow> bool" where
  "gob_reads_back g s \<longleftrightarrow> gob_Decode g (gob_Encode g s) = Inr s"

definition aoi_Serialize :: "gob_lib \<Rightarrow> order \<Rightarrow> AOI \<Rightarrow> bytes \<times> float64 \<times> float64" where
  "aoi_Serialize g ord a =
     (let pos = fold (\<lambda>i m. fmupd i (fm_get vzero (a_positions a) i) m)
                     (ord (fmdom' (a_positions a))) fmempty;
          s = \<lparr>s_CellSize = a_cellSize a, s_Radius = a_radius a, s_Positions = pos\<rparr>
      in (gob_Encode g s, a_cellSize a, a_radius a))"

definition aoi_Deserialize :: "gob_lib \<Rightarrow> order \<Rightarrow> float64 \<Rightarrow> float64 \<Rightarrow> bytes \<Rightarrow> AOI" where
  "aoi_Deserialize g ord cellSize radius data =
     (case gob_Decode g data of
        Inl _ \<Rightarrow> aoi_New cellSize radius
      | Inr s \<Rightarrow> fold (\<lambda>i a. aoi_Enter i (fm_get vzero (s_Positions s) i) a)
                       (ord (fmdom' (s_Positions s))) (aoi_New (s_CellSize s) (s_Radius s)))"

subsection \<open>The invariant\<close>

definition in_cell :: "AOI \<Rightarrow> cellKey \<Rightarrow> EntityID \<Rightarrow> nat" where
  "in_cell a k i = count_list (fm_get [] (a_cells a) k) i"

definition cell_count :: "AOI \<Rightarrow> cellKey \<Rightarrow> EntityID \<Rightarrow> nat" where
  \<comment> \<open>how often the id should be in the cell\<close>
  "cell_count a k i =
     (case fmlookup (a_positions a) i of
        None \<Rightarrow> 0
      | Some p \<Rightarrow> if cellKeyFor a p = k then 1 else 0)"

definition aoi_geo :: "AOI \<Rightarrow> bool" where
  "aoi_geo a \<longleftrightarrow> 0 < a_cellSize a \<and> a_cellRange a = \<lceil>a_radius a / a_cellSize a\<rceil>"

definition aoi_id_ok :: "AOI \<Rightarrow> EntityID \<Rightarrow> bool" where
  "aoi_id_ok a i \<longleftrightarrow> (\<forall>k. in_cell a k i = cell_count a k i)"

definition aoi_inv :: "AOI \<Rightarrow> bool" where
  "aoi_inv a \<longleftrightarrow> aoi_geo a \<and> (\<forall>i. aoi_id_ok a i)"

definition aoi_agree :: "AOI \<Rightarrow> AOI \<Rightarrow> EntityID \<Rightarrow> bool" where
  \<comment> \<open>two grids say the same of an id\<close>
  "aoi_agree a b i \<longleftrightarrow> fmlookup (a_positions a) i = fmlookup (a_positions b) i \<and> (\<forall>k. in_cell a k i = in_cell b k i)"

definition in_range :: "Vector3 \<Rightarrow> float64 \<Rightarrow> Vector3 \<Rightarrow> bool" where
  "in_range c r p \<longleftrightarrow> (vX p - vX c)\<^sup>2 + (vZ p - vZ c)\<^sup>2 \<le> r\<^sup>2"

lemma count_list_remove1:
  "count_list (remove1 i xs) j = (if i = j \<and> i \<in> set xs then count_list xs j - 1 else count_list xs j)"
  by (induction xs) (auto simp: count_list_0_iff)

lemma cell_remove_get:
  "fm_get [] (cell_remove k i cells) k' = (if k = k' then remove1 i (fm_get [] cells k) else fm_get [] cells k')"
  by (auto simp: cell_remove_def Let_def remove1_idem)

lemma aoi_frame [simp]:
  "a_cellSize (aoi_Enter i p a) = a_cellSize a" "a_radius (aoi_Enter i p a) = a_radius a"
  "a_cellRange (aoi_Enter i p a) = a_cellRange a"
  "a_cellSize (aoi_Leave i a) = a_cellSize a" "a_radius (aoi_Leave i a) = a_radius a"
  "a_cellRange (aoi_Leave i a) = a_cellRange a"
  "a_cellSize (aoi_Move i p a) = a_cellSize a" "a_radius (aoi_Move i p a) = a_radius a"
  "a_cellRange (aoi_Move i p a) = a_cellRange a"
  by (simp_all add: aoi_Enter_def aoi_Leave_def aoi_Move_def Let_def split: option.split)

lemma cellKeyFor_frame [simp]:
  "cellKeyFor (aoi_Enter i p a) = cellKeyFor a" "cellKeyFor (aoi_Leave i a) = cellKeyFor a"
  "cellKeyFor (aoi_Move i p a) = cellKeyFor a" "cellKeyFor (a\<lparr>a_positions := ps\<rparr>) = cellKeyFor a"
  "cellKeyFor (a\<lparr>a_cells := cs\<rparr>) = cellKeyFor a"
  by (simp_all add: fun_eq_iff cellKeyFor_def)

lemma aoi_positions_ops [simp]:
  "a_positions (aoi_Enter i p a) = fmupd i p (a_positions a)"
  "a_positions (aoi_Leave i a) = fmdrop i (a_positions a)"
  "a_positions (aoi_Move i p a) = fmupd i p (a_positions a)"
  by (auto simp: aoi_Enter_def aoi_Leave_def aoi_Move_def Let_def fmdrop_idle' fmlookup_dom'_iff
      split: option.split)

lemma in_cell_Enter:
  "in_cell (aoi_Enter i p a) k j = in_cell a k j + (if i = j \<and> cellKeyFor a p = k then 1 else 0)"
  by (simp add: in_cell_def aoi_Enter_def Let_def)

lemma aoi_geo_ops [simp]:
  "aoi_geo (aoi_Enter i p a) = aoi_geo a" "aoi_geo (aoi_Leave i a) = aoi_geo a"
  "aoi_geo (aoi_Move i p a) = aoi_geo a"
  by (simp_all add: aoi_geo_def)

lemma aoi_geo_New [simp]: "aoi_geo (aoi_New cs r) = (0 < cs)"
  by (simp add: aoi_geo_def aoi_New_def)

lemma aoi_New_simps [simp]:
  "a_positions (aoi_New cs r) = fmempty" "in_cell (aoi_New cs r) k i = 0" "a_radius (aoi_New cs r) = r"
  "a_cellSize (aoi_New cs r) = cs" "aoi_id_ok (aoi_New cs r) i"
  by (simp_all add: aoi_New_def in_cell_def aoi_id_ok_def cell_count_def)

lemma in_cell_Leave:
  assumes "fmlookup (a_positions a) i = Some p"
  shows "in_cell (aoi_Leave i a) k j = in_cell a k j - (if i = j \<and> cellKeyFor a p = k then 1 else 0)"
  using assms
  by (auto simp: in_cell_def aoi_Leave_def cell_remove_get count_list_remove1 count_list_0_iff)

lemma aoi_Leave_unknown: "fmlookup (a_positions a) i = None \<Longrightarrow> aoi_Leave i a = a"
  by (simp add: aoi_Leave_def)

lemma aoi_Move_unknown: "fmlookup (a_positions a) i = None \<Longrightarrow> aoi_Move i q a = aoi_Enter i q a"
  by (simp add: aoi_Move_def)

lemma aoi_Move_same:
  "fmlookup (a_positions a) i = Some p \<Longrightarrow> cellKeyFor a p = cellKeyFor a q
   \<Longrightarrow> aoi_Move i q a = a\<lparr>a_positions := fmupd i q (a_positions a)\<rparr>"
  by (simp add: aoi_Move_def)

lemma aoi_Move_known:
  \<comment> \<open>moving a known id to another cell is leaving and entering\<close>
  assumes "fmlookup (a_positions a) i = Some p" and "cellKeyFor a p \<noteq> cellKeyFor a q"
  shows "aoi_Move i q a = aoi_Enter i q (aoi_Leave i a)"
  using assms by (simp add: aoi_Move_def aoi_Enter_def aoi_Leave_def Let_def fmupd_fmdrop)

text \<open>The operations on one id leave what the grid says of the others alone.\<close>

lemma aoi_agree_Enter: "i \<noteq> j \<Longrightarrow> aoi_agree (aoi_Enter j p a) a i"
  by (simp add: aoi_agree_def in_cell_Enter)

lemma aoi_agree_Leave: "i \<noteq> j \<Longrightarrow> aoi_agree (aoi_Leave j a) a i"
  by (cases "fmlookup (a_positions a) j") (simp_all add: aoi_agree_def in_cell_Leave aoi_Leave_unknown)

lemma aoi_agree_Move: "i \<noteq> j \<Longrightarrow> aoi_agree (aoi_Move j q a) a i"
proof (cases "fmlookup (a_positions a) j")
  case (Some p)
  assume "i \<noteq> j"
  then show ?thesis
    by (cases "cellKeyFor a p = cellKeyFor a q")
      (simp_all add: aoi_agree_def aoi_Move_same [OF Some] in_cell_def [of "a\<lparr>a_positions := x\<rparr>" for x]
        in_cell_def [of a] aoi_Move_known [OF Some] in_cell_Enter in_cell_Leave [OF Some, unfolded in_cell_def [of a]])
qed (simp add: aoi_agree_Enter aoi_Move_unknown)

lemma aoi_agreeD:
  "aoi_agree a b i \<Longrightarrow> in_cell a k i = in_cell b k i"
  "aoi_agree a b i \<Longrightarrow> fmlookup (a_positions a) i = fmlookup (a_positions b) i"
  unfolding aoi_agree_def by blast+

lemma aoi_agree_trans: "aoi_agree a b i \<Longrightarrow> aoi_agree b c i \<Longrightarrow> aoi_agree a c i"
  by (simp add: aoi_agree_def)

lemma aoi_agree_refl [simp]: "aoi_agree a a i"
  by (simp add: aoi_agree_def)

lemma aoi_agree_ok: "aoi_agree a b i \<Longrightarrow> a_cellSize a = a_cellSize b \<Longrightarrow> aoi_id_ok a i = aoi_id_ok b i"
proof -
  assume "aoi_agree a b i" and size: "a_cellSize a = a_cellSize b"
  have key: "cellKeyFor a = cellKeyFor b" by (rule ext) (simp add: cellKeyFor_def size)
  from \<open>aoi_agree a b i\<close> show ?thesis
    unfolding aoi_id_ok_def cell_count_def key by (simp add: aoi_agree_def)
qed

text \<open>Each operation keeps its own id consistent.\<close>

lemma aoi_id_ok_Enter:
  "aoi_id_ok a i \<Longrightarrow> fmlookup (a_positions a) i = None \<Longrightarrow> aoi_id_ok (aoi_Enter i p a) i"
  unfolding aoi_id_ok_def cell_count_def by (simp add: in_cell_Enter)

lemma aoi_id_ok_Leave:
  assumes "aoi_id_ok a i"
  shows "aoi_id_ok (aoi_Leave i a) i"
proof (cases "fmlookup (a_positions a) i")
  case (Some p)
  with assms show ?thesis unfolding aoi_id_ok_def cell_count_def by (simp add: in_cell_Leave)
qed (simp add: aoi_Leave_unknown assms)

lemma aoi_id_ok_Move:
  assumes "aoi_id_ok a i"
  shows "aoi_id_ok (aoi_Move i q a) i"
proof (cases "fmlookup (a_positions a) i")
  case (Some p)
  show ?thesis
  proof (cases "cellKeyFor a p = cellKeyFor a q")
    case True
    have "in_cell (a\<lparr>a_positions := x\<rparr>) k i = in_cell a k i" for x k by (simp add: in_cell_def)
    with assms True Some show ?thesis
      unfolding aoi_Move_same [OF Some True] aoi_id_ok_def cell_count_def by simp
  next
    case False
    then show ?thesis
      unfolding aoi_Move_known [OF Some False] by (intro aoi_id_ok_Enter aoi_id_ok_Leave assms) simp
  qed
qed (simp add: aoi_Move_unknown aoi_id_ok_Enter assms)

lemma aoi_inv_New: "0 < cs \<Longrightarrow> aoi_inv (aoi_New cs r)"
  by (simp add: aoi_inv_def)

lemma aoi_inv_Enter:
  assumes "aoi_inv a" and "fmlookup (a_positions a) i = None"
  shows "aoi_inv (aoi_Enter i p a)"
proof -
  have "aoi_id_ok (aoi_Enter i p a) j" for j
    using assms aoi_id_ok_Enter aoi_agree_ok [OF aoi_agree_Enter, of j i p a]
    by (cases "j = i") (simp_all add: aoi_inv_def)
  with assms show ?thesis by (simp add: aoi_inv_def)
qed

lemma aoi_inv_Leave:
  assumes "aoi_inv a"
  shows "aoi_inv (aoi_Leave i a)"
proof -
  have "aoi_id_ok (aoi_Leave i a) j" for j
    using assms aoi_id_ok_Leave aoi_agree_ok [OF aoi_agree_Leave, of j i a]
    by (cases "j = i") (simp_all add: aoi_inv_def)
  with assms show ?thesis by (simp add: aoi_inv_def)
qed

lemma aoi_inv_Move:
  assumes "aoi_inv a"
  shows "aoi_inv (aoi_Move i q a)"
proof -
  have "aoi_id_ok (aoi_Move i q a) j" for j
    using assms aoi_id_ok_Move aoi_agree_ok [OF aoi_agree_Move, of j i q a]
    by (cases "j = i") (simp_all add: aoi_inv_def)
  with assms show ?thesis by (simp add: aoi_inv_def)
qed

subsection \<open>What a query returns\<close>

definition query_ok :: "EntityID set \<Rightarrow> EntityID set \<times> EntityID list \<Rightarrow> bool" where
  "query_ok S sr \<longleftrightarrow> fst sr = S \<and> set (snd sr) = S \<and> distinct (snd sr)"

lemma query_visit_fold:
  "query_ok S sr \<Longrightarrow> query_ok (S \<union> set ids) (fold query_visit ids sr)"
proof (induction ids arbitrary: S sr)
  case (Cons i ids)
  have "query_ok (insert i S) (query_visit i sr)"
    using Cons.prems by (cases sr) (simp add: query_ok_def query_visit_def insert_absorb)
  from Cons.IH [OF this] show ?case by simp
qed simp

lemma query_window_fold:
  "query_ok S sr \<Longrightarrow> query_ok (S \<union> (\<Union>k\<in>set ks. set (fm_get [] cells k)))
     (fold (\<lambda>key sr. fold query_visit (fm_get [] cells key) sr) ks sr)"
proof (induction ks arbitrary: S sr)
  case (Cons k ks)
  from Cons.IH [OF query_visit_fold [OF Cons.prems]] show ?case
    by (simp add: Un_assoc)
qed simp

lemma window_set:
  fixes u v R :: int
  shows "(x, y) \<in> set (concat (map (\<lambda>dx. map (\<lambda>dy. (u + dx, v + dy)) [- R..R]) [- R..R]))
    \<longleftrightarrow> \<bar>x - u\<bar> \<le> R \<and> \<bar>y - v\<bar> \<le> R" (is "?L \<longleftrightarrow> ?M")
proof
  assume ?L
  then obtain dx dy where "dx \<in> {- R..R}" "dy \<in> {- R..R}" "x = u + dx" "y = v + dy" by auto
  then show ?M by (simp add: abs_le_iff)
next
  assume ?M
  then have x: "x - u \<in> {- R..R}" and y: "y - v \<in> {- R..R}" by (simp_all add: abs_le_iff)
  have "(x, y) \<in> set (map (\<lambda>dy. (u + (x - u), v + dy)) [- R..R])"
    unfolding set_map set_upto by (rule image_eqI [OF _ y]) simp
  moreover have "map (\<lambda>dy. (u + (x - u), v + dy)) [- R..R]
      \<in> set (map (\<lambda>dx. map (\<lambda>dy. (u + dx, v + dy)) [- R..R]) [- R..R])"
    unfolding set_map set_upto by (rule imageI [OF x])
  ultimately show ?L unfolding set_concat by (rule UN_I [rotated])
qed

lemma set_query_window:
  "(x, y) \<in> set (query_window a c) \<longleftrightarrow> \<bar>x - fst (cellKeyFor a c)\<bar> \<le> a_cellRange a
      \<and> \<bar>y - snd (cellKeyFor a c)\<bar> \<le> a_cellRange a"
  unfolding query_window_def Let_def by (rule window_set)

lemma Query_props:
  "distinct (aoi_Query a c)" "sorted (aoi_Query a c)"
  "set (aoi_Query a c) = (\<Union>k\<in>set (query_window a c). set (fm_get [] (a_cells a) k))"
proof -
  have "query_ok {} ({}, [])" by (simp add: query_ok_def)
  from query_window_fold [OF this, where ks = "query_window a c" and cells = "a_cells a"]
  show "distinct (aoi_Query a c)" "sorted (aoi_Query a c)"
    "set (aoi_Query a c) = (\<Union>k\<in>set (query_window a c). set (fm_get [] (a_cells a) k))"
    by (auto simp: aoi_Query_def query_ok_def)
qed

lemma in_cell_iff: "i \<in> set (fm_get [] (a_cells a) k) \<longleftrightarrow> in_cell a k i \<noteq> 0"
  by (simp add: in_cell_def count_list_0_iff)

lemma Query_in_cell: "i \<in> set (aoi_Query a c) \<Longrightarrow> \<exists>k. in_cell a k i \<noteq> 0"
  by (auto simp: Query_props(3) in_cell_iff)

lemma EntitiesInRange_in_cell: "i \<in> set (EntitiesInRange a c r) \<Longrightarrow> \<exists>k. in_cell a k i \<noteq> 0"
  using Query_in_cell unfolding EntitiesInRange_def Let_def set_filter by blast

lemma Query_set:
  assumes "aoi_id_ok a i"
  shows "i \<in> set (aoi_Query a c) \<longleftrightarrow>
    (\<exists>p. fmlookup (a_positions a) i = Some p \<and> cellKeyFor a p \<in> set (query_window a c))"
proof -
  have "in_cell a k i \<noteq> 0 \<longleftrightarrow> (\<exists>p. fmlookup (a_positions a) i = Some p \<and> cellKeyFor a p = k)" for k
  proof -
    have "in_cell a k i = cell_count a k i" using assms unfolding aoi_id_ok_def by blast
    then show ?thesis by (simp add: cell_count_def split: option.split)
  qed
  then show ?thesis by (auto simp: Query_props(3) in_cell_iff)
qed

lemma floor_diff_bound:
  fixes u v w :: real
  assumes "\<bar>u - v\<bar> \<le> w"
  shows "\<bar>\<lfloor>u\<rfloor> - \<lfloor>v\<rfloor>\<bar> \<le> \<lceil>w\<rceil>"
proof -
  have "\<lfloor>x\<rfloor> \<le> \<lfloor>y\<rfloor> + \<lceil>w\<rceil>" if "x \<le> y + w" for x y :: real
  proof -
    have "x \<le> y + of_int \<lceil>w\<rceil>" using that le_of_int_ceiling [of w] by linarith
    from floor_mono [OF this] show ?thesis by simp
  qed
  from this [of u v] this [of v u] assms show ?thesis by linarith
qed

lemma in_range_window:
  assumes "aoi_geo a" "in_range c r p" "\<bar>r\<bar> \<le> a_radius a"
  shows "cellKeyFor a p \<in> set (query_window a c)"
proof -
  have cs: "0 < a_cellSize a" using assms(1) by (simp add: aoi_geo_def)
  have ax: "\<bar>\<lfloor>d / a_cellSize a\<rfloor> - \<lfloor>e / a_cellSize a\<rfloor>\<bar> \<le> a_cellRange a" if "(d - e)\<^sup>2 \<le> r\<^sup>2" for d e
  proof -
    have "\<bar>d - e\<bar> \<le> \<bar>r\<bar>" using that by (simp add: abs_le_square_iff)
    with assms(3) have "\<bar>d - e\<bar> \<le> a_radius a" by linarith
    then have "\<bar>d / a_cellSize a - e / a_cellSize a\<bar> \<le> a_radius a / a_cellSize a"
      using cs by (simp add: divide_right_mono flip: diff_divide_distrib)
    with assms(1) show ?thesis using floor_diff_bound by (simp add: aoi_geo_def)
  qed
  have "(vX p - vX c)\<^sup>2 \<le> r\<^sup>2" "(vZ p - vZ c)\<^sup>2 \<le> r\<^sup>2"
    using assms(2) zero_le_power2 [of "vZ p - vZ c"] zero_le_power2 [of "vX p - vX c"]
    unfolding in_range_def by linarith+
  from ax [OF this(1)] ax [OF this(2)] show ?thesis
    by (simp add: set_query_window cellKeyFor_def)
qed

lemma EntitiesInRange_id:
  assumes "aoi_geo a" "aoi_id_ok a i" "\<bar>r\<bar> \<le> a_radius a"
  shows "i \<in> set (EntitiesInRange a c r) \<longleftrightarrow>
    (\<exists>p. fmlookup (a_positions a) i = Some p \<and> in_range c r p)"
  using Query_set [OF assms(2)] in_range_window [OF assms(1) _ assms(3)]
  by (auto simp: EntitiesInRange_def Let_def in_range_def power2_eq_square)

lemma EntitiesInRange_sorted:
  "sorted (EntitiesInRange a c r)" "distinct (EntitiesInRange a c r)"
  using Query_props(1,2) [of a c] by (simp_all add: EntitiesInRange_def Let_def sorted_wrt_filter)

lemma EntitiesInRange_exact:
  assumes "aoi_inv a" "\<bar>r\<bar> \<le> a_radius a"
  shows "EntitiesInRange a c r =
    sorted_list_of_set {i. \<exists>p. fmlookup (a_positions a) i = Some p \<and> in_range c r p}"
proof -
  have "set (EntitiesInRange a c r) = {i. \<exists>p. fmlookup (a_positions a) i = Some p \<and> in_range c r p}"
    using assms EntitiesInRange_id [of a _ r c] by (auto simp: aoi_inv_def)
  then show ?thesis
    using sorted_list_of_set.idem_if_sorted_distinct [OF EntitiesInRange_sorted, of a c r] by simp
qed

subsection \<open>The interface of a spatial index\<close>

text \<open>
  What the game server relies on when it asks for the entities around a point: positions behave
  like a map, and a range query answers exactly the ids whose stored position is in range, sorted.
\<close>

locale spatial_index =
  fixes enter :: "EntityID \<Rightarrow> Vector3 \<Rightarrow> 's \<Rightarrow> 's"
    and leave :: "EntityID \<Rightarrow> 's \<Rightarrow> 's"
    and move :: "EntityID \<Rightarrow> Vector3 \<Rightarrow> 's \<Rightarrow> 's"
    and range_of :: "'s \<Rightarrow> Vector3 \<Rightarrow> float64 \<Rightarrow> EntityID list"
    and position :: "'s \<Rightarrow> (EntityID, Vector3) fmap"
    and reach :: "'s \<Rightarrow> float64"
    and inv :: "'s \<Rightarrow> bool"
  assumes enter_inv: "inv s \<Longrightarrow> fmlookup (position s) i = None \<Longrightarrow> inv (enter i p s)"
    and leave_inv: "inv s \<Longrightarrow> inv (leave i s)"
    and move_inv: "inv s \<Longrightarrow> inv (move i p s)"
    and enter_position: "position (enter i p s) = fmupd i p (position s)"
    and leave_position: "position (leave i s) = fmdrop i (position s)"
    and move_position: "position (move i p s) = fmupd i p (position s)"
    and reach_stable: "reach (enter i p s) = reach s" "reach (leave i s) = reach s"
      "reach (move i p s) = reach s"
    and range_exact: "inv s \<Longrightarrow> \<bar>r\<bar> \<le> reach s \<Longrightarrow> range_of s c r =
      sorted_list_of_set {i. \<exists>p. fmlookup (position s) i = Some p \<and> in_range c r p}"
begin

lemma range_finite: "finite {i. \<exists>p. fmlookup (position s) i = Some p \<and> in_range c r p}"
  by (rule finite_subset [OF _ finite_fmdom', of _ "position s"]) (auto simp: fmlookup_dom'_iff)

lemma range_member:
  assumes "inv s" "\<bar>r\<bar> \<le> reach s"
  shows "i \<in> set (range_of s c r) \<longleftrightarrow> (\<exists>p. fmlookup (position s) i = Some p \<and> in_range c r p)"
  by (simp add: range_exact [OF assms] range_finite)

lemma range_symmetric:
  assumes "inv s" "\<bar>r\<bar> \<le> reach s"
    and "fmlookup (position s) i = Some p" "fmlookup (position s) j = Some q"
  shows "i \<in> set (range_of s q r) \<longleftrightarrow> j \<in> set (range_of s p r)"
  using assms(3,4) by (simp add: range_member [OF assms(1,2)] in_range_def power2_commute)

lemma range_after_move:
  assumes "inv s" "\<bar>r\<bar> \<le> reach s"
  shows "set (range_of (move i p s) c r) =
    (if in_range c r p then insert i (set (range_of s c r)) else set (range_of s c r) - {i})"
  using range_member [OF move_inv [OF assms(1)], of r i p _ c] range_member [OF assms, of _ c] assms(2)
  by (auto simp: move_position reach_stable split: if_splits)

lemma range_after_leave:
  assumes "inv s" "\<bar>r\<bar> \<le> reach s"
  shows "set (range_of (leave i s) c r) = set (range_of s c r) - {i}"
  using range_member [OF leave_inv [OF assms(1)], of r i _ c] range_member [OF assms, of _ c] assms(2)
  by (auto simp: leave_position reach_stable split: if_splits)

end

interpretation grid: spatial_index aoi_Enter aoi_Leave aoi_Move EntitiesInRange a_positions a_radius aoi_inv
  by unfold_locales
    (simp_all add: aoi_inv_Enter aoi_inv_Leave aoi_inv_Move EntitiesInRange_exact)

subsection \<open>Round trip through the snapshot\<close>

lemma Enter_fold:
  assumes "aoi_inv a" "distinct xs" "set xs \<inter> fmdom' (a_positions a) = {}"
  shows "aoi_inv (fold (\<lambda>i a. aoi_Enter i (f i) a) xs a)"
  using assms
proof (induction xs arbitrary: a)
  case (Cons x xs)
  then have "fmlookup (a_positions a) x = None" by (auto simp: fmlookup_dom'_iff)
  with Cons.prems(1) have "aoi_inv (aoi_Enter x (f x) a)" by (rule aoi_inv_Enter)
  with Cons show ?case by auto
qed simp

lemma Enter_fold_frame:
  "a_positions (fold (\<lambda>i a. aoi_Enter i (f i) a) xs a) = fold (\<lambda>i. fmupd i (f i)) xs (a_positions a)"
  "a_radius (fold (\<lambda>i a. aoi_Enter i (f i) a) xs a) = a_radius a"
  "a_cellSize (fold (\<lambda>i a. aoi_Enter i (f i) a) xs a) = a_cellSize a"
  by (induction xs arbitrary: a) simp_all

lemma Deserialize_decoded:
  assumes "is_order ord" "0 < s_CellSize s" "gob_Decode g data = Inr s"
  shows "aoi_inv (aoi_Deserialize g ord cs r data)"
    and "a_positions (aoi_Deserialize g ord cs r data) = s_Positions s"
    and "a_radius (aoi_Deserialize g ord cs r data) = s_Radius s"
    and "a_cellSize (aoi_Deserialize g ord cs r data) = s_CellSize s"
proof -
  show "aoi_inv (aoi_Deserialize g ord cs r data)"
    "a_positions (aoi_Deserialize g ord cs r data) = s_Positions s"
    "a_radius (aoi_Deserialize g ord cs r data) = s_Radius s"
    "a_cellSize (aoi_Deserialize g ord cs r data) = s_CellSize s"
    using assms aoi_inv_New [OF assms(2), of "s_Radius s"]
    by (simp_all add: aoi_Deserialize_def Enter_fold Enter_fold_frame fold_copy)
qed

subsection \<open>Properties\<close>

text \<open>
  C15. The range query of the grid is complete and exact: for a radius up to the one the grid was
  made for, \<open>EntitiesInRange\<close> returns, sorted and each once, exactly the ids whose stored position
  is within that distance of the centre in the X/Z plane, as a scan of all positions would.
\<close>

theorem EntitiesInRange_complete:
  assumes "aoi_inv a" and "\<bar>r\<bar> \<le> a_radius a"
  shows "EntitiesInRange a c r =
    sorted_list_of_set {i. \<exists>p. fmlookup (a_positions a) i = Some p \<and> in_range c r p}"
  using assms by (rule grid.range_exact)

theorem EntitiesInRange_complete_witness:
  "''b'' \<in> set (EntitiesInRange (aoi_Enter ''b'' \<lparr>vX = 90, vY = 0, vZ = -20\<rparr> (aoi_New 50 150)) vzero 100)"
proof -
  let ?a = "aoi_Enter ''b'' \<lparr>vX = 90, vY = 0, vZ = -20\<rparr> (aoi_New 50 150)"
  have inv: "aoi_inv ?a"
    by (rule aoi_inv_Enter [OF aoi_inv_New]) (simp_all add: aoi_New_def)
  have "{i. \<exists>p. fmlookup (a_positions ?a) i = Some p \<and> in_range vzero 100 p} = {''b''}"
    by (auto simp: aoi_New_def in_range_def split: if_splits)
  with EntitiesInRange_complete [OF inv, of 100 vzero] show ?thesis by (simp add: aoi_New_def)
qed

text \<open>
  C22. Every operation of the grid keeps the cells and the positions consistent (each known id is
  in exactly one cell, the one of its position, exactly once; no other id is in any cell): \<open>Leave\<close>
  and \<open>Move\<close> from any consistent grid, \<open>Enter\<close> for an id the grid does not hold, \<open>New\<close> for a
  positive cell size.
\<close>

theorem aoi_ops_inv:
  assumes "aoi_inv a"
  shows "aoi_inv (aoi_Leave i a) \<and> aoi_inv (aoi_Move i p a)
    \<and> (fmlookup (a_positions a) i = None \<longrightarrow> aoi_inv (aoi_Enter i p a))
    \<and> (0 < cs \<longrightarrow> aoi_inv (aoi_New cs r))"
  using grid.leave_inv [OF assms] grid.move_inv [OF assms] grid.enter_inv [OF assms] aoi_inv_New by blast

theorem aoi_ops_inv_witness:
  "aoi_inv (aoi_Move ''a'' vzero (aoi_New 50 150))"
  using aoi_ops_inv [OF aoi_inv_New [of 50 150], of "''a''" vzero 1 1] by simp

text \<open>
  A grid survives its snapshot: what \<open>Deserialize\<close> rebuilds from \<open>Serialize\<close> is consistent,
  has the same geometry and positions, and answers every range query up to its radius as the
  original did. Bytes that do not decode give an empty grid of the default geometry.
\<close>

theorem aoi_snapshot_roundtrip:
  assumes "is_order ord" "is_order ord'" "aoi_inv a"
    and "aoi_Serialize g ord a = (data, cs, rad)"
    and "gob_reads_back g \<lparr>s_CellSize = a_cellSize a, s_Radius = a_radius a, s_Positions = a_positions a\<rparr>"
  shows "aoi_inv (aoi_Deserialize g ord' cs' r' data)
    \<and> a_positions (aoi_Deserialize g ord' cs' r' data) = a_positions a
    \<and> cs = a_cellSize a \<and> rad = a_radius a
    \<and> (\<forall>c r. \<bar>r\<bar> \<le> a_radius a \<longrightarrow>
          EntitiesInRange (aoi_Deserialize g ord' cs' r' data) c r = EntitiesInRange a c r)
    \<and> (\<forall>e bad. gob_Decode g bad = Inl e \<longrightarrow> aoi_Deserialize g ord' cs' r' bad = aoi_New cs' r')"
proof -
  let ?s = "\<lparr>s_CellSize = a_cellSize a, s_Radius = a_radius a, s_Positions = a_positions a\<rparr>"
  have "gob_Decode g data = Inr ?s" and cs: "cs = a_cellSize a" "rad = a_radius a"
    using assms(4,5) by (auto simp: aoi_Serialize_def gob_reads_back_def Let_def fold_copy [OF assms(1)])
  moreover have "0 < s_CellSize ?s" using assms(3) by (simp add: aoi_inv_def aoi_geo_def)
  ultimately have d: "aoi_inv (aoi_Deserialize g ord' cs' r' data)"
      "a_positions (aoi_Deserialize g ord' cs' r' data) = a_positions a"
      "a_radius (aoi_Deserialize g ord' cs' r' data) = a_radius a"
    using Deserialize_decoded [OF assms(2), of ?s g data cs' r'] by simp_all
  then show ?thesis
    using cs EntitiesInRange_exact [OF assms(3)] EntitiesInRange_exact [OF d(1)]
    by (simp add: aoi_Deserialize_def)
qed

theorem aoi_snapshot_roundtrip_witness:
  "a_positions (aoi_Deserialize
      \<lparr>gob_Encode = (\<lambda>s. [1]), gob_Decode = (\<lambda>b. if b = [1] then Inr \<lparr>s_CellSize = 50, s_Radius = 150,
          s_Positions = fmupd ''a'' vzero fmempty\<rparr> else Inl (ErrText ''EOF''))\<rparr>
      sorted_list_of_set 50 150 [1]) = fmupd ''a'' vzero fmempty"
proof -
  let ?s = "\<lparr>s_CellSize = 50, s_Radius = 150, s_Positions = fmupd ''a'' vzero fmempty\<rparr>"
  let ?g = "\<lparr>gob_Encode = (\<lambda>s. [1]), gob_Decode = (\<lambda>b. if b = [1] then Inr ?s else Inl (ErrText ''EOF''))\<rparr>"
  let ?a = "aoi_Enter ''a'' vzero (aoi_New 50 150)"
  have inv: "aoi_inv ?a" by (rule aoi_inv_Enter [OF aoi_inv_New]) (simp_all add: aoi_New_def)
  have ser: "aoi_Serialize ?g sorted_list_of_set ?a = ([1], 50, 150)"
    by (simp add: aoi_Serialize_def aoi_New_def)
  have "gob_reads_back ?g \<lparr>s_CellSize = a_cellSize ?a, s_Radius = a_radius ?a, s_Positions = a_positions ?a\<rparr>"
    by (simp add: gob_reads_back_def aoi_New_def)
  from aoi_snapshot_roundtrip [OF is_order_sorted is_order_sorted inv ser this, of 50 150]
  show ?thesis by (simp add: aoi_New_def)
qed

end
