(* ===== verification/NPC.thy ===== *)
theory NPC
  imports Types
begin

section \<open>Entities and autonomous behaviour: \<open>internal/game/entity\<close>, \<open>internal/game/npc.go\<close>\<close>

text \<open>
  The entity record, the behaviours an NPC can have, and the life cycle that steps them. A
  behaviour object belongs to one entity (it is made by \<open>newBehavior\<close> when the entity is), so its
  state is stored in the entity. The two values \<open>WanderBehavior.Step\<close> may draw from its random
  source are arguments. Indexing a slice outside its bounds panics in Go; a step that panics is
  \<open>None\<close>, and \<open>behavior_ok\<close> is the condition that keeps it from happening.
\<close>

subsection \<open>Behaviours\<close>

record PatrolBehavior =
  p_Speed :: float64
  p_Waypoints :: "Vector3 list"
  p_target :: int

record IdleBehavior =
  i_BobAmplitude :: float64
  i_BobFreq :: float64
  i_phase :: float64

record WanderBehavior =
  w_Origin :: Vector3
  w_Radius :: float64
  w_Speed :: float64
  w_rng :: bool          \<comment> \<open>the random source has been made\<close>
  w_target :: Vector3
  w_pause :: Duration

datatype Behavior =
    Patrol PatrolBehavior
  | Idle IdleBehavior
  | Wander WanderBehavior

datatype Lifecycle =
    BaseLifecycle
  | NPCLifecycle "Behavior option"

type_synonym Attributes = "(string, bytes) fmap"

record Entity =
  e_ID :: EntityID
  e_Type :: string
  e_Position :: Vector3
  e_Rotation :: Rotation
  e_Attrs :: Attributes
  e_ZoneID :: ZoneID
  e_OwnerID :: OwnerID
  e_RuntimeID :: RuntimeID
  e_Lifecycle :: "Lifecycle option"

definition entity_New :: "EntityID \<Rightarrow> string \<Rightarrow> RuntimeID \<Rightarrow> Entity" where
  "entity_New i typ runtimeID =
     \<lparr>e_ID = i, e_Type = typ, e_Position = vzero, e_Rotation = rzero, e_Attrs = fmempty,
      e_ZoneID = '''', e_OwnerID = '''', e_RuntimeID = runtimeID, e_Lifecycle = None\<rparr>"

definition moveAxis :: "float64 \<Rightarrow> float64 \<Rightarrow> float64 \<Rightarrow> float64 \<times> bool" where
  "moveAxis pos target delta =
     (if pos = target then (pos, False)
      else if \<bar>target - pos\<bar> \<le> delta then (target, True)
      else if target > pos then (pos + delta, True)
      else (pos - delta, True))"

definition patrol_Step :: "PatrolBehavior \<Rightarrow> Vector3 \<Rightarrow> Duration \<Rightarrow> (PatrolBehavior \<times> Vector3 \<times> bool) option" where
  "patrol_Step p pos dt =
     (if p_Waypoints p = [] then Some (p, pos, False)
      else if p_target p < 0 \<or> int (length (p_Waypoints p)) \<le> p_target p then None
      else
        (let wp = p_Waypoints p ! nat (p_target p);
             delta = p_Speed p * dur_Seconds dt;
             pos = pos\<lparr>vX := fst (moveAxis (vX pos) (vX wp) delta)\<rparr>;
             pos = pos\<lparr>vZ := fst (moveAxis (vZ pos) (vZ wp) delta)\<rparr>;
             p = (if vX pos = vX wp \<and> vZ pos = vZ wp
                  then p\<lparr>p_target := (p_target p + 1) mod int (length (p_Waypoints p))\<rparr> else p)
         in Some (p, pos, True)))"

definition idle_Step :: "IdleBehavior \<Rightarrow> Vector3 \<Rightarrow> Duration \<Rightarrow> IdleBehavior \<times> Vector3 \<times> bool" where
  "idle_Step i pos dt =
     (let i = i\<lparr>i_phase := i_phase i + i_BobFreq i * dur_Seconds dt\<rparr>
      in (i, pos\<lparr>vY := i_BobAmplitude i * sin (i_phase i)\<rparr>, False))"

definition wander_aim :: "float64 \<times> float64 \<Rightarrow> WanderBehavior \<Rightarrow> Vector3" where
  \<comment> \<open>the target after a new one is drawn when there is none; \<open>u\<close>: the next two values of \<open>rng.Float64\<close>\<close>
  "wander_aim u w =
     (if w_target w = vzero
      then (let angle = fst u * 2 * pi; r = snd u * w_Radius w
            in \<lparr>vX = vX (w_Origin w) + r * cos angle, vY = 0, vZ = vZ (w_Origin w) + r * sin angle\<rparr>)
      else w_target w)"

definition wander_Step :: "float64 \<times> float64 \<Rightarrow> WanderBehavior \<Rightarrow> Vector3 \<Rightarrow> Duration \<Rightarrow> WanderBehavior \<times> Vector3 \<times> bool" where
  "wander_Step u w pos dt =
     (let w = w\<lparr>w_rng := True\<rparr> in
      if 0 < w_pause w then (w\<lparr>w_pause := w_pause w - dt\<rparr>, pos, False)
      else
        (let w = w\<lparr>w_target := wander_aim u w\<rparr>;
             delta = w_Speed w * dur_Seconds dt;
             (x, movedX) = moveAxis (vX pos) (vX (w_target w)) delta;
             pos = pos\<lparr>vX := x\<rparr>;
             (z, movedZ) = (if movedX then (vZ pos, False)
                            else moveAxis (vZ pos) (vZ (w_target w)) delta);
             pos = pos\<lparr>vZ := z\<rparr>;
             w = (if \<not> (movedX \<or> movedZ) then w\<lparr>w_target := vzero, w_pause := 500 * Millisecond\<rparr> else w)
         in (w, pos, True)))"

fun behavior_Step :: "float64 \<times> float64 \<Rightarrow> Behavior \<Rightarrow> Vector3 \<Rightarrow> Duration \<Rightarrow> (Behavior \<times> Vector3 \<times> bool) option" where
  "behavior_Step u (Patrol p) pos dt = map_option (\<lambda>(p, r). (Patrol p, r)) (patrol_Step p pos dt)"
| "behavior_Step u (Idle i) pos dt = (case idle_Step i pos dt of (i, r) \<Rightarrow> Some (Idle i, r))"
| "behavior_Step u (Wander w) pos dt = (case wander_Step u w pos dt of (w, r) \<Rightarrow> Some (Wander w, r))"

definition behaviorFactories :: "(string, Behavior) fmap" where
  "behaviorFactories = fmap_of_list
     [(''patrol'', Patrol \<lparr>p_Speed = 10, p_Waypoints = [], p_target = 0\<rparr>),
      (''idle'', Idle \<lparr>i_BobAmplitude = 1 / 2, i_BobFreq = 2, i_phase = 0\<rparr>),
      (''wander'', Wander \<lparr>w_Origin = vzero, w_Radius = 20, w_Speed = 10, w_rng = False,
                            w_target = vzero, w_pause = 0\<rparr>)]"

definition newBehavior :: "string \<Rightarrow> Behavior" where
  "newBehavior tag =
     (case fmlookup behaviorFactories tag of
        Some b \<Rightarrow> b
      | None \<Rightarrow> the (fmlookup behaviorFactories ''idle''))"

definition OnSimulate :: "float64 \<times> float64 \<Rightarrow> Lifecycle \<Rightarrow> Entity \<Rightarrow> Duration \<Rightarrow> Entity option" where
  \<comment> \<open>the entity after its life cycle's \<open>OnSimulate\<close>, the behaviour's new state stored in it\<close>
  "OnSimulate u l e dt =
     (case l of
        BaseLifecycle \<Rightarrow> Some e
      | NPCLifecycle None \<Rightarrow> Some e
      | NPCLifecycle (Some b) \<Rightarrow>
          (case behavior_Step u b (e_Position e) dt of
             None \<Rightarrow> None
           | Some (b', pos, _) \<Rightarrow>
               Some (e\<lparr>e_Position := pos, e_Lifecycle := Some (NPCLifecycle (Some b'))\<rparr>)))"

subsection \<open>No panic\<close>

fun behavior_ok :: "Behavior \<Rightarrow> bool" where
  "behavior_ok (Patrol p) \<longleftrightarrow> p_Waypoints p = [] \<or> 0 \<le> p_target p \<and> p_target p < int (length (p_Waypoints p))"
| "behavior_ok (Idle i) \<longleftrightarrow> True"
| "behavior_ok (Wander w) \<longleftrightarrow> True"

fun lifecycle_ok :: "Lifecycle option \<Rightarrow> bool" where
  "lifecycle_ok (Some (NPCLifecycle (Some b))) \<longleftrightarrow> behavior_ok b"
| "lifecycle_ok _ \<longleftrightarrow> True"

lemma behavior_Step_ok:
  assumes "behavior_ok b"
  shows "\<exists>b' pos' m. behavior_Step u b pos dt = Some (b', pos', m) \<and> behavior_ok b'"
proof (cases b)
  case (Patrol p)
  then show ?thesis using assms by (auto simp: patrol_Step_def Let_def)
next
  case (Idle i)
  then show ?thesis by (auto simp: idle_Step_def Let_def)
next
  case (Wander w)
  obtain w' r where "wander_Step u w pos dt = (w', r)" by (cases "wander_Step u w pos dt")
  with Wander show ?thesis by (cases r) auto
qed

lemma newBehavior_ok: "behavior_ok (newBehavior tag)"
  by (auto simp: newBehavior_def behaviorFactories_def fmlookup_of_list split: option.split)

lemma OnSimulate_ok:
  assumes "lifecycle_ok (Some l)"
  shows "\<exists>e'. OnSimulate u l e dt = Some e' \<and> (e_Lifecycle e = Some l \<longrightarrow> lifecycle_ok (e_Lifecycle e'))"
proof (cases l)
  case (NPCLifecycle b)
  then show ?thesis
  proof (cases b)
    case (Some b')
    with NPCLifecycle assms have "behavior_ok b'" by simp
    from behavior_Step_ok [OF this, of u "e_Position e" dt] show ?thesis
      using NPCLifecycle Some by (auto simp: OnSimulate_def)
  qed (simp add: OnSimulate_def NPCLifecycle)
qed (simp add: OnSimulate_def)

lemma OnSimulate_frame:
  assumes "OnSimulate u l e dt = Some e'"
  shows "e_ID e' = e_ID e" "e_Type e' = e_Type e" "e_ZoneID e' = e_ZoneID e" "e_OwnerID e' = e_OwnerID e"
    "e_RuntimeID e' = e_RuntimeID e" "e_Rotation e' = e_Rotation e" "e_Attrs e' = e_Attrs e"
  using assms by (auto simp: OnSimulate_def split: Lifecycle.splits option.splits)

subsection \<open>Movement\<close>

lemma moveAxis_closer:
  assumes "0 \<le> delta"
  shows "\<bar>target - fst (moveAxis x target delta)\<bar> = max 0 (\<bar>target - x\<bar> - delta)"
  using assms by (auto simp: moveAxis_def)

lemma moveAxis_between:
  assumes "0 \<le> delta"
  shows "min x target \<le> fst (moveAxis x target delta)" "fst (moveAxis x target delta) \<le> max x target"
  using assms by (auto simp: moveAxis_def)

fun patrol_run :: "nat \<Rightarrow> PatrolBehavior \<Rightarrow> Vector3 \<Rightarrow> Duration \<Rightarrow> (PatrolBehavior \<times> Vector3) option" where
  "patrol_run 0 p pos dt = Some (p, pos)"
| "patrol_run (Suc n) p pos dt =
     (case patrol_Step p pos dt of None \<Rightarrow> None | Some (p', pos', _) \<Rightarrow> patrol_run n p' pos' dt)"

definition patrol_gap :: "PatrolBehavior \<Rightarrow> Vector3 \<Rightarrow> real" where
  "patrol_gap p pos = max \<bar>vX (p_Waypoints p ! nat (p_target p)) - vX pos\<bar>
                          \<bar>vZ (p_Waypoints p ! nat (p_target p)) - vZ pos\<bar>"

lemma max_shift: "max (max 0 (a - d)) (max 0 (b - d)) = max 0 (max a b - (d :: real))"
  by (simp add: max_def)

lemma max_abs_0: "max \<bar>a\<bar> \<bar>b\<bar> = 0 \<longleftrightarrow> a = 0 \<and> (b :: real) = 0"
  by (auto simp: max_def)

lemma patrol_Step_gap:
  assumes "behavior_ok (Patrol p)" "p_Waypoints p \<noteq> []" and d: "d = p_Speed p * dur_Seconds dt" "0 < d"
  obtains p' pos' where "patrol_Step p pos dt = Some (p', pos', True)" "vY pos' = vY pos"
    "patrol_gap p pos' = max 0 (patrol_gap p pos - d)"
    "p' = (if patrol_gap p pos' = 0 then p\<lparr>p_target := (p_target p + 1) mod int (length (p_Waypoints p))\<rparr> else p)"
proof -
  define wp where "wp = p_Waypoints p ! nat (p_target p)"
  define x where "x = fst (moveAxis (vX pos) (vX wp) d)"
  define z where "z = fst (moveAxis (vZ pos) (vZ wp) d)"
  have tgt: "\<not> p_target p < 0" "\<not> int (length (p_Waypoints p)) \<le> p_target p"
    using assms(1,2) by simp_all
  have step: "patrol_Step p pos dt = Some
    (if x = vX wp \<and> z = vZ wp then p\<lparr>p_target := (p_target p + 1) mod int (length (p_Waypoints p))\<rparr> else p,
     pos\<lparr>vX := x, vZ := z\<rparr>, True)"
    unfolding patrol_Step_def Let_def d(1) [symmetric] wp_def [symmetric]
    using tgt assms(2) by (simp add: x_def z_def)
  have gap: "patrol_gap p (pos\<lparr>vX := x, vZ := z\<rparr>) = max 0 (patrol_gap p pos - d)"
    unfolding patrol_gap_def wp_def [symmetric] x_def z_def
    using moveAxis_closer [of d "vX wp" "vX pos"] moveAxis_closer [of d "vZ wp" "vZ pos"] d(2)
    by (simp add: max_shift)
  have zero: "patrol_gap p (pos\<lparr>vX := x, vZ := z\<rparr>) = 0 \<longleftrightarrow> x = vX wp \<and> z = vZ wp"
    unfolding patrol_gap_def wp_def [symmetric] max_abs_0 by auto
  show ?thesis by (rule that [OF step _ gap]) (simp_all add: zero)
qed

lemma patrol_run_arrives:
  assumes "behavior_ok (Patrol p)" "p_Waypoints p \<noteq> []" "d = p_Speed p * dur_Seconds dt" "0 < d"
    and "patrol_gap p pos \<le> real n * d"
  shows "\<exists>k\<le>Suc n. \<exists>pos'. patrol_run k p pos dt =
      Some (p\<lparr>p_target := (p_target p + 1) mod int (length (p_Waypoints p))\<rparr>, pos')
    \<and> patrol_gap p pos' = 0 \<and> vY pos' = vY pos"
  using assms(5)
proof (induction n arbitrary: pos)
  case 0
  obtain p' pos' where s: "patrol_Step p pos dt = Some (p', pos', True)" "vY pos' = vY pos"
    "patrol_gap p pos' = max 0 (patrol_gap p pos - d)"
    "p' = (if patrol_gap p pos' = 0 then p\<lparr>p_target := (p_target p + 1) mod int (length (p_Waypoints p))\<rparr> else p)"
    by (rule patrol_Step_gap [OF assms(1-4), where pos = pos]) blast
  have gap: "patrol_gap p pos' = 0" using s(3) 0 assms(4) by simp
  with s(4) have "p' = p\<lparr>p_target := (p_target p + 1) mod int (length (p_Waypoints p))\<rparr>" by simp
  with s(1,2) gap show ?case by (intro exI [of _ 1] conjI exI [of _ pos']) simp_all
next
  case (Suc n)
  obtain p' pos' where s: "patrol_Step p pos dt = Some (p', pos', True)" "vY pos' = vY pos"
    "patrol_gap p pos' = max 0 (patrol_gap p pos - d)"
    "p' = (if patrol_gap p pos' = 0 then p\<lparr>p_target := (p_target p + 1) mod int (length (p_Waypoints p))\<rparr> else p)"
    by (rule patrol_Step_gap [OF assms(1-4), where pos = pos]) blast
  show ?case
  proof (cases "patrol_gap p pos' = 0")
    case True
    with s(4) have "p' = p\<lparr>p_target := (p_target p + 1) mod int (length (p_Waypoints p))\<rparr>" by simp
    with s(1,2) True show ?thesis by (intro exI [of _ 1] conjI exI [of _ pos']) simp_all
  next
    case False
    have "patrol_gap p pos' \<le> real n * d"
      using s(3) Suc.prems mult_nonneg_nonneg [of "real n" d] assms(4)
      by (simp add: distrib_right)
    from Suc.IH [OF this] obtain k pos'' where "k \<le> Suc n" "patrol_run k p pos' dt =
      Some (p\<lparr>p_target := (p_target p + 1) mod int (length (p_Waypoints p))\<rparr>, pos'')"
      "patrol_gap p pos'' = 0" "vY pos'' = vY pos'" by blast
    moreover have "p' = p" using s(4) False by simp
    ultimately show ?thesis using s(1,2) by (intro exI [of _ "Suc k"] conjI exI [of _ pos'']) simp_all
  qed
qed

definition in_box :: "WanderBehavior \<Rightarrow> Vector3 \<Rightarrow> bool" where
  "in_box w v \<longleftrightarrow> \<bar>vX v - vX (w_Origin w)\<bar> \<le> w_Radius w \<and> \<bar>vZ v - vZ (w_Origin w)\<bar> \<le> w_Radius w"

lemma mult_unit_bound:
  fixes r R c :: real
  assumes "0 \<le> r" "r \<le> R" "\<bar>c\<bar> \<le> 1"
  shows "\<bar>r * c\<bar> \<le> R"
proof -
  have "\<bar>r * c\<bar> = r * \<bar>c\<bar>" using assms(1) by (simp add: abs_mult)
  also have "\<dots> \<le> r * 1" using assms by (intro mult_left_mono) simp_all
  finally show ?thesis using assms(2) by simp
qed

lemma moveAxis_still: "moveAxis x t d = (y, False) \<Longrightarrow> y = x"
  by (auto simp: moveAxis_def split: if_splits)

lemma wander_Step_cases:
  assumes "wander_Step u w pos dt = (w', pos', m)"
  defines "d \<equiv> w_Speed w * dur_Seconds dt"
  shows "pos' \<in> {pos, pos\<lparr>vX := fst (moveAxis (vX pos) (vX (wander_aim u w)) d)\<rparr>,
      pos\<lparr>vZ := fst (moveAxis (vZ pos) (vZ (wander_aim u w)) d)\<rparr>}"
    and "w_target w' \<in> {w_target w, wander_aim u w, vzero}"
    and "w_Origin w' = w_Origin w" and "w_Radius w' = w_Radius w"
proof -
  obtain x mx where x: "moveAxis (vX pos) (vX (wander_aim u w)) d = (x, mx)"
    by (cases "moveAxis (vX pos) (vX (wander_aim u w)) d")
  obtain z mz where z: "moveAxis (vZ pos) (vZ (wander_aim u w)) d = (z, mz)"
    by (cases "moveAxis (vZ pos) (vZ (wander_aim u w)) d")
  have [simp]: "wander_aim u (w\<lparr>w_rng := True\<rparr>) = wander_aim u w" by (simp add: wander_aim_def)
  have still: "\<not> mx \<Longrightarrow> pos\<lparr>vX := x\<rparr> = pos" "\<not> mz \<Longrightarrow> pos\<lparr>vZ := z\<rparr> = pos" "pos\<lparr>vX := x, vZ := vZ pos\<rparr> = pos\<lparr>vX := x\<rparr>"
    using x z by (auto dest: moveAxis_still)
  have step: "wander_Step u w pos dt =
    (if 0 < w_pause w then (w\<lparr>w_rng := True, w_pause := w_pause w - dt\<rparr>, pos, False)
     else if mx then (w\<lparr>w_rng := True, w_target := wander_aim u w\<rparr>, pos\<lparr>vX := x\<rparr>, True)
     else if mz then (w\<lparr>w_rng := True, w_target := wander_aim u w\<rparr>, pos\<lparr>vZ := z\<rparr>, True)
     else (w\<lparr>w_rng := True, w_target := vzero, w_pause := 500 * Millisecond\<rparr>, pos, True))"
    using x z unfolding d_def
    by (cases mx; cases mz) (simp_all add: wander_Step_def Let_def still)
  show "pos' \<in> {pos, pos\<lparr>vX := fst (moveAxis (vX pos) (vX (wander_aim u w)) d)\<rparr>,
      pos\<lparr>vZ := fst (moveAxis (vZ pos) (vZ (wander_aim u w)) d)\<rparr>}"
    "w_target w' \<in> {w_target w, wander_aim u w, vzero}"
    "w_Origin w' = w_Origin w" "w_Radius w' = w_Radius w"
    using assms(1) unfolding step x z by (auto split: if_splits)
qed

lemma moveAxis_box:
  assumes "0 \<le> delta" "\<bar>x - c\<bar> \<le> R" "\<bar>t - c\<bar> \<le> (R :: real)"
  shows "\<bar>fst (moveAxis x t delta) - c\<bar> \<le> R"
  using moveAxis_between [OF assms(1), of x t] assms(2,3) by linarith

text \<open>
  C26. A patrolling NPC arrives: with a positive step length it reaches its current waypoint
  exactly (in X and Z, leaving Y alone) after finitely many steps, at most one more than the
  distance divided by the step length, and then turns to the next waypoint of the cycle.
\<close>

theorem patrol_reaches_waypoint:
  assumes "behavior_ok (Patrol p)" and "p_Waypoints p \<noteq> []" and "0 < p_Speed p * dur_Seconds dt"
  shows "\<exists>k pos'. real k \<le> patrol_gap p pos / (p_Speed p * dur_Seconds dt) + 2
    \<and> patrol_run k p pos dt =
        Some (p\<lparr>p_target := (p_target p + 1) mod int (length (p_Waypoints p))\<rparr>, pos')
    \<and> vX pos' = vX (p_Waypoints p ! nat (p_target p)) \<and> vZ pos' = vZ (p_Waypoints p ! nat (p_target p))
    \<and> vY pos' = vY pos"
proof -
  define d where d: "d = p_Speed p * dur_Seconds dt"
  let ?n = "nat \<lceil>patrol_gap p pos / d\<rceil>"
  have d0: "0 < d" using assms(3) d by simp
  have "0 \<le> patrol_gap p pos" by (simp add: patrol_gap_def)
  with d0 have nn: "0 \<le> patrol_gap p pos / d" by simp
  then have "patrol_gap p pos / d \<le> real ?n" by linarith
  then have "patrol_gap p pos \<le> real ?n * d" using d0 by (simp add: pos_divide_le_eq)
  from patrol_run_arrives [OF assms(1,2) d d0 this] obtain k pos' where k: "k \<le> Suc ?n" "patrol_run k p pos dt =
      Some (p\<lparr>p_target := (p_target p + 1) mod int (length (p_Waypoints p))\<rparr>, pos')"
    "patrol_gap p pos' = 0" "vY pos' = vY pos" by blast
  have "real k \<le> patrol_gap p pos / d + 2" using k(1) nn by linarith
  moreover have "vX pos' = vX (p_Waypoints p ! nat (p_target p)) \<and> vZ pos' = vZ (p_Waypoints p ! nat (p_target p))"
    using k(3) by (auto simp: patrol_gap_def max_def split: if_splits)
  ultimately show ?thesis using k unfolding d by blast
qed

theorem patrol_reaches_waypoint_witness:
  "\<exists>k pos'. patrol_run k \<lparr>p_Speed = 10, p_Waypoints = [\<lparr>vX = 5, vY = 0, vZ = 3\<rparr>, vzero], p_target = 0\<rparr> vzero (50 * Millisecond)
     = Some (\<lparr>p_Speed = 10, p_Waypoints = [\<lparr>vX = 5, vY = 0, vZ = 3\<rparr>, vzero], p_target = 1\<rparr>, pos') \<and> vX pos' = 5"
proof -
  let ?p = "\<lparr>p_Speed = 10, p_Waypoints = [\<lparr>vX = 5, vY = 0, vZ = 3\<rparr>, vzero], p_target = 0\<rparr>"
  have "behavior_ok (Patrol ?p)" "p_Waypoints ?p \<noteq> []" "0 < p_Speed ?p * dur_Seconds (50 * Millisecond)"
    by (simp_all add: dur_Seconds_def)
  from patrol_reaches_waypoint [OF this, of vzero] show ?thesis by simp blast
qed

text \<open>
  A wandering NPC stays in the square of half-width \<open>Radius\<close> around its origin: if it is in
  the square and its target is unset or in the square, the same holds after every step, whatever
  values in [0, 1] the random source gives.
\<close>

theorem wander_confined:
  assumes "wander_Step u w pos dt = (w', pos', m)"
    and "0 \<le> snd u" "snd u \<le> 1" "0 \<le> w_Radius w" "0 \<le> w_Speed w * dur_Seconds dt"
    and "in_box w pos" "w_target w = vzero \<or> in_box w (w_target w)"
  shows "in_box w' pos' \<and> (w_target w' = vzero \<or> in_box w' (w_target w'))
    \<and> w_Origin w' = w_Origin w \<and> w_Radius w' = w_Radius w \<and> vY pos' = vY pos"
proof -
  have r: "0 \<le> snd u * w_Radius w" "snd u * w_Radius w \<le> w_Radius w"
    using assms(2-4) by (simp_all add: mult_left_le_one_le)
  have t: "in_box w (wander_aim u w)"
    using assms(7) mult_unit_bound [OF r abs_cos_le_one] mult_unit_bound [OF r abs_sin_le_one]
    by (auto simp: in_box_def wander_aim_def Let_def)
  then have "in_box w (pos\<lparr>vX := fst (moveAxis (vX pos) (vX (wander_aim u w)) (w_Speed w * dur_Seconds dt))\<rparr>)"
    "in_box w (pos\<lparr>vZ := fst (moveAxis (vZ pos) (vZ (wander_aim u w)) (w_Speed w * dur_Seconds dt))\<rparr>)"
    using assms(5,6) by (simp_all add: in_box_def moveAxis_box)
  with wander_Step_cases(1) [OF assms(1)] assms(6) have pos: "in_box w pos'" "vY pos' = vY pos"
    by (elim insertE emptyE; simp)+
  have "in_box w' v = in_box w v" for v
    using wander_Step_cases(3,4) [OF assms(1)] by (simp add: in_box_def)
  moreover have "w_target w' = vzero \<or> in_box w (w_target w')"
    using wander_Step_cases(2) [OF assms(1)] t assms(7) by (elim insertE emptyE) simp_all
  ultimately show ?thesis using pos wander_Step_cases(3,4) [OF assms(1)] by simp
qed

theorem wander_confined_witness:
  "in_box (fst (wander_Step (1/4, 1) \<lparr>w_Origin = vzero, w_Radius = 20, w_Speed = 10, w_rng = False,
      w_target = vzero, w_pause = 0\<rparr> vzero Second))
    (fst (snd (wander_Step (1/4, 1) \<lparr>w_Origin = vzero, w_Radius = 20, w_Speed = 10, w_rng = False,
      w_target = vzero, w_pause = 0\<rparr> vzero Second)))"
proof -
  let ?w = "\<lparr>w_Origin = vzero, w_Radius = 20, w_Speed = 10, w_rng = False, w_target = vzero, w_pause = 0\<rparr>"
  obtain w' pos' m where s: "wander_Step (1/4, 1) ?w vzero Second = (w', pos', m)"
    by (cases "wander_Step (1/4, 1) ?w vzero Second")
  have "in_box ?w vzero" by (simp add: in_box_def)
  with wander_confined [OF s] have "in_box w' pos'" by (simp add: dur_Seconds_def)
  with s show ?thesis by simp
qed

end
