(* ===== verification/Protocol.thy ===== *)
theory Protocol
  imports Types
begin

unbundle bit_operations_syntax

section \<open>The packet format: \<open>pkg/protocol\<close>\<close>

text \<open>
  \<open>Encode\<close> and \<open>Decode\<close> of \<open>pkg/protocol/protocol.go\<close> on lists of 8-bit words: an 8-byte header
  (version, big-endian packet id, flags, big-endian sequence number) and the payload, compressed
  when that makes it shorter. The compressor of \<open>compress/gzip\<close> is the parameter \<open>gzip_lib\<close>; what
  is used of it is \<open>gzip_ok\<close>: reading back what was written gives the same bytes.
\<close>

abbreviation (input) headerSize :: nat where "headerSize \<equiv> 8"
abbreviation (input) ProtocolVersionV1 :: byte where "ProtocolVersionV1 \<equiv> 1"
abbreviation (input) compressionFlag :: byte where "compressionFlag \<equiv> 1"
abbreviation (input) compressMinSize :: nat where "compressMinSize \<equiv> 128"

type_synonym PacketID = "16 word"

abbreviation (input) PacketIDInvalid :: PacketID where "PacketIDInvalid \<equiv> 0"
abbreviation (input) PacketIDAuthRequest :: PacketID where "PacketIDAuthRequest \<equiv> 1"
abbreviation (input) PacketIDAuthResponse :: PacketID where "PacketIDAuthResponse \<equiv> 2"
abbreviation (input) PacketIDPositionUpdate :: PacketID where "PacketIDPositionUpdate \<equiv> 3"
abbreviation (input) PacketIDEntitySpawn :: PacketID where "PacketIDEntitySpawn \<equiv> 4"
abbreviation (input) PacketIDEntityDespawn :: PacketID where "PacketIDEntityDespawn \<equiv> 5"
abbreviation (input) PacketIDEntityMove :: PacketID where "PacketIDEntityMove \<equiv> 6"
abbreviation (input) PacketIDEntityAction :: PacketID where "PacketIDEntityAction \<equiv> 7"
abbreviation (input) PacketIDEntityState :: PacketID where "PacketIDEntityState \<equiv> 8"
abbreviation (input) PacketIDHeartbeat :: PacketID where "PacketIDHeartbeat \<equiv> 255"

definition ErrUnsupportedVersion :: error where
  "ErrUnsupportedVersion = ErrText ''unsupported protocol version''"

subsection \<open>The library functions: \<open>compress/gzip\<close> and \<open>encoding/binary\<close>\<close>

record gzip_lib =
  gz_write :: "bytes \<Rightarrow> bytes"          \<comment> \<open>a writer given the bytes and closed: the buffer\<close>
  gz_open :: "bytes \<Rightarrow> error option"    \<comment> \<open>\<open>gzip.NewReader\<close>: its error\<close>
  gz_read :: "bytes \<Rightarrow> error + bytes"   \<comment> \<open>\<open>io.ReadAll\<close> of that reader\<close>

definition gzip_ok :: "gzip_lib \<Rightarrow> bool" where
  "gzip_ok g \<longleftrightarrow> (\<forall>p. gz_open g (gz_write g p) = None \<and> gz_read g (gz_write g p) = Inr p)"

definition PutUint16 :: "16 word \<Rightarrow> bytes" where
  "PutUint16 v = [ucast (drop_bit 8 v), ucast v]"

definition PutUint32 :: "32 word \<Rightarrow> bytes" where
  "PutUint32 v = [ucast (drop_bit 24 v), ucast (drop_bit 16 v), ucast (drop_bit 8 v), ucast v]"

definition Uint16 :: "byte \<Rightarrow> byte \<Rightarrow> 16 word" where
  "Uint16 b0 b1 = ucast b1 OR push_bit 8 (ucast b0)"

definition Uint32 :: "byte \<Rightarrow> byte \<Rightarrow> byte \<Rightarrow> byte \<Rightarrow> 32 word" where
  "Uint32 b0 b1 b2 b3 =
     ucast b3 OR push_bit 8 (ucast b2) OR push_bit 16 (ucast b1) OR push_bit 24 (ucast b0)"

subsection \<open>Encode and Decode\<close>

definition encode_body :: "gzip_lib \<Rightarrow> bytes \<Rightarrow> bool \<Rightarrow> bytes \<times> bool" where
  \<comment> \<open>\<open>data\<close> and \<open>compressed\<close> after the compression step; level 3 is a level the library has,
      so \<open>NewWriterLevel\<close> does not fail\<close>
  "encode_body g payload compress =
     (if compress \<and> compressMinSize < length payload
      then (let buf = gz_write g payload in
            if length buf < length payload then (buf, True) else (payload, False))
      else (payload, False))"

definition Encode :: "gzip_lib \<Rightarrow> PacketID \<Rightarrow> bytes \<Rightarrow> bool \<Rightarrow> 32 word \<Rightarrow> bytes" where
  "Encode g pid payload compress seq =
     (let (data, compressed) = encode_body g payload compress;
          flags = (if compressed then 0 OR compressionFlag else 0)
      in [ProtocolVersionV1] @ PutUint16 pid @ [flags] @ PutUint32 seq @ data)"

type_synonym decoded = "byte \<times> PacketID \<times> bytes \<times> bool \<times> 32 word \<times> error option"

definition Decode :: "gzip_lib \<Rightarrow> bytes \<Rightarrow> decoded" where
  "Decode g packet =
     (if length packet < headerSize
      then (0, PacketIDInvalid, [], False, 0,
            Some (ErrText (''packet too short: '' @ itoa (int (length packet)) @ '' bytes'')))
      else
        (let version = packet ! 0 in
         if version \<noteq> ProtocolVersionV1
         then (version, PacketIDInvalid, [], False, 0, Some ErrUnsupportedVersion)
         else
           (let pid = Uint16 (packet ! 1) (packet ! 2);
                flags = packet ! 3;
                seq = Uint32 (packet ! 4) (packet ! 5) (packet ! 6) (packet ! 7);
                compressed = (flags AND compressionFlag \<noteq> 0);
                data = drop headerSize packet
            in if compressed
               then (case gz_open g data of
                       Some e \<Rightarrow> (version, PacketIDInvalid, [], False, 0, Some (Errorf ''gzip reader: '' e ''''))
                     | None \<Rightarrow>
                         (case gz_read g data of
                            Inl e \<Rightarrow> (version, PacketIDInvalid, [], False, 0,
                                       Some (Errorf ''gzip decompress: '' e ''''))
                          | Inr d \<Rightarrow> (version, pid, d, compressed, seq, None)))
               else (version, pid, data, compressed, seq, None))))"

subsection \<open>Facts\<close>

lemma Uint16_Put: "Uint16 (ucast (drop_bit 8 v)) (ucast v) = v"
  unfolding Uint16_def by (rule bit_word_eqI) (auto simp: bit_simps)

lemma Uint32_Put:
  "Uint32 (ucast (drop_bit 24 v)) (ucast (drop_bit 16 v)) (ucast (drop_bit 8 v)) (ucast v) = v"
  unfolding Uint32_def
proof (rule bit_word_eqI)
  fix n assume "n < LENGTH(32)"
  then show "bit (ucast (ucast v :: byte) OR push_bit 8 (ucast (ucast (drop_bit 8 v) :: byte))
      OR push_bit 16 (ucast (ucast (drop_bit 16 v) :: byte))
      OR push_bit 24 (ucast (ucast (drop_bit 24 v) :: byte)) :: 32 word) n = bit v n"
    by (cases "24 \<le> n"; cases "16 \<le> n") (auto simp: bit_simps)
qed

lemma Put_Uint16: "PutUint16 (Uint16 a b) = [a, b]"
  unfolding PutUint16_def Uint16_def
  by (simp, intro conjI; rule bit_word_eqI) (auto simp: bit_simps dest: bit_imp_le_length)

lemma Put_Uint32: "PutUint32 (Uint32 a b c d) = [a, b, c, d]"
  unfolding PutUint32_def Uint32_def
  by (simp, intro conjI; rule bit_word_eqI) (auto simp: bit_simps dest: bit_imp_le_length)

lemma Encode_eq:
  "Encode g pid p c seq =
     (case encode_body g p c of (data, z) \<Rightarrow>
        [1, ucast (drop_bit 8 pid), ucast pid, if z then 1 else 0, ucast (drop_bit 24 seq),
         ucast (drop_bit 16 seq), ucast (drop_bit 8 seq), ucast seq] @ data)"
  by (simp add: Encode_def PutUint16_def PutUint32_def split: prod.split)

lemma encode_body_len: "encode_body g p c = (d, z) \<Longrightarrow> length d \<le> length p \<and> (z \<longrightarrow> c \<and> 128 < length p \<and> length d < length p)"
  by (auto simp: encode_body_def Let_def split: if_splits)

lemma Decode_header:
  assumes "encode_body g p c = (d, z)"
  shows "Decode g (Encode g pid p c seq) =
    (if z then (case gz_open g d of
                  Some e \<Rightarrow> (1, 0, [], False, 0, Some (Errorf ''gzip reader: '' e ''''))
                | None \<Rightarrow> (case gz_read g d of
                      Inl e \<Rightarrow> (1, 0, [], False, 0, Some (Errorf ''gzip decompress: '' e ''''))
                    | Inr d' \<Rightarrow> (1, pid, d', True, seq, None)))
     else (1, pid, d, False, seq, None))"
  using assms by (simp add: Encode_eq Decode_def Uint16_Put Uint32_Put)

lemma list8:
  assumes "8 \<le> length xs"
  obtains a b c d e f g h r where "xs = a # b # c # d # e # f # g # h # r"
  using assms by (auto simp: numeral_eq_Suc Suc_le_length_iff)

text \<open>
  C23. Decoding what \<open>Encode\<close> wrote gives back the version, the packet id, the payload and the
  sequence number without an error, whether or not the payload was compressed; the compressed flag
  is only ever set for a payload above the 128-byte threshold that was to be compressed, and the
  packet is never longer than the header and the payload.
\<close>

theorem Decode_Encode:
  assumes "gzip_ok g"
  shows "\<exists>z. Decode g (Encode g pid p c seq) = (1, pid, p, z, seq, None)
    \<and> (z \<longrightarrow> c \<and> 128 < length p \<and> length (Encode g pid p c seq) < 8 + length p)
    \<and> length (Encode g pid p c seq) \<le> 8 + length p"
proof -
  obtain d z where b: "encode_body g p c = (d, z)" by (cases "encode_body g p c")
  have len: "length (Encode g pid p c seq) = 8 + length d" by (simp add: Encode_eq b)
  have "z \<Longrightarrow> d = gz_write g p" and "\<not> z \<Longrightarrow> d = p"
    using b by (auto simp: encode_body_def Let_def split: if_splits)
  then have "Decode g (Encode g pid p c seq) = (1, pid, p, z, seq, None)"
    using assms by (cases z) (simp_all add: Decode_header [OF b] gzip_ok_def)
  with len encode_body_len [OF b] show ?thesis by auto
qed

definition gzip_plain :: gzip_lib where
  \<comment> \<open>an instance of the compressor: a run of zero bytes shrinks to its length in unary over 16\<close>
  "gzip_plain = \<lparr>
     gz_write = (\<lambda>p. if list_all (\<lambda>b. b = 0) p then 1 # map (\<lambda>_. 1) [0..<length p div 16] @ [of_nat (length p mod 16)]
                      else 0 # p),
     gz_open = (\<lambda>b. if b = [] then Some (ErrText ''EOF'') else None),
     gz_read = (\<lambda>b. if b = [] then Inl (ErrText ''EOF'')
                     else if hd b = 0 then Inr (tl b)
                     else Inr (replicate (16 * (length b - 2) + unat (last b)) 0))\<rparr>"

lemma gzip_plain_ok: "gzip_ok gzip_plain"
proof -
  have u: "unat (of_nat (n mod 16) :: byte) = n mod 16" for n :: nat
    by (simp add: unat_of_nat)
  have r: "list_all (\<lambda>b. b = (0::byte)) p \<Longrightarrow> replicate (length p) 0 = p" for p
    by (induction p) auto
  show ?thesis by (auto simp: gzip_ok_def gzip_plain_def u r)
qed

theorem Decode_Encode_witness:
  "Decode gzip_plain (Encode gzip_plain 4 (replicate 200 0) True 7)
     = (1, 4, replicate 200 0, True, 7, None)"
proof -
  have "snd (encode_body gzip_plain (replicate 200 0) True)"
    by (simp add: encode_body_def gzip_plain_def Let_def list_all_iff)
  then have "\<exists>d. encode_body gzip_plain (replicate 200 0) True = (d, True)"
    by (metis prod.collapse)
  then have "fst (snd (snd (snd (Decode gzip_plain (Encode gzip_plain 4 (replicate 200 0) True 7)))))"
    using Decode_Encode [OF gzip_plain_ok, of 4 "replicate 200 0" True 7]
    by (auto simp: Decode_header split: option.splits sum.splits)
  with Decode_Encode [OF gzip_plain_ok, of 4 "replicate 200 0" True 7] show ?thesis by auto
qed

text \<open>
  C24. \<open>Decode\<close> accepts exactly the packets that have a whole header, carry version 1, and whose
  payload, if flagged as compressed, the decompressor reads; on every error it hands out no
  packet id, no payload and no sequence number. An accepted uncompressed packet is the encoding of
  what was decoded, up to the flag bits other than the compression bit.
\<close>

theorem Decode_accepts:
  "case Decode g pkt of (v, pid, d, z, seq, err) \<Rightarrow>
     (err = None \<longleftrightarrow> 8 \<le> length pkt \<and> pkt ! 0 = 1 \<and>
        (pkt ! 3 AND 1 = 0 \<or> gz_open g (drop 8 pkt) = None \<and> (\<exists>x. gz_read g (drop 8 pkt) = Inr x)))
   \<and> (err \<noteq> None \<longrightarrow> pid = 0 \<and> d = [] \<and> z = False \<and> seq = 0)
   \<and> (err = None \<longrightarrow> \<not> z \<longrightarrow> Encode g pid d False seq = pkt[3 := 0])"
proof (cases "8 \<le> length pkt")
  case False
  then show ?thesis by (simp add: Decode_def)
next
  case True
  then obtain a b c d e f x h r where pkt: "pkt = a # b # c # d # e # f # x # h # r"
    by (rule list8)
  show ?thesis
    by (auto simp: pkt Decode_def Let_def Encode_def encode_body_def Put_Uint16 Put_Uint32
        numeral_eq_Suc split: option.splits sum.splits)
qed

theorem Decode_accepts_witness:
  "Encode gzip_plain 258 [9] False 1 = [1, 1, 2, 4, 0, 0, 0, 1, 9] [3 := 0]"
proof -
  have "Decode gzip_plain [1, 1, 2, 4, 0, 0, 0, 1, 9] = (1, 258, [9], False, 1, None)"
    by (simp add: Decode_def Uint16_def Uint32_def push_bit_eq_mult)
  with Decode_accepts [where g = gzip_plain and pkt = "[1, 1, 2, 4, 0, 0, 0, 1, 9]"]
  show ?thesis by simp
qed

end
