(* ===== verification/Game_Core.thy ===== *)
theory Game_Core
  imports Zone AOI_Grid NPC Protocol
begin

section \<open>The simulation state: \<open>internal/game/simulation.go\<close>, \<open>event.go\<close>, \<open>metrics.go\<close>\<close>

text \<open>
  The record \<open>Game\<close> and the operations on zones and entities. Two kinds of objects are shared
  through pointers, so the model keeps a store for each: entities (held by \<open>Entities\<close> and by the
  \<open>entities\<close> of a zone) and grids (held by \<open>Zones\<close> and by \<open>aoiIndex\<close>). A pointer is a number, the
  store a function, and \<open>g_nextEnt\<close>, \<open>g_nextAOI\<close> the next free numbers. Zone simulations, ghost
  entries and visibility states are reached through one map only and are stored in it as values.
  The mutex serialises the operations, so each is one state transformer. Calls on the metrics
  interface, on the snapshot writer and on \<open>Lifecycle.OnAction\<close> are appended to logs.
\<close>

subsection \<open>Data\<close>

abbreviation (input) DefaultTickRate :: Duration where "DefaultTickRate \<equiv> 50 * Millisecond"
abbreviation (input) InboxBufferSize :: nat where "InboxBufferSize \<equiv> 4096"
abbreviation (input) DefaultCellSize :: float64 where "DefaultCellSize \<equiv> 100"
abbreviation (input) DefaultAOIRadius :: float64 where "DefaultAOIRadius \<equiv> 300"
abbreviation (input) cmdChannelBuffer :: nat where "cmdChannelBuffer \<equiv> 256"
abbreviation (input) DefaultZoneID :: ZoneID where "DefaultZoneID \<equiv> ''default''"
abbreviation (input) maxPacketsPerTick :: nat where "maxPacketsPerTick \<equiv> 1024"
abbreviation (input) maxTickDelta :: Duration where "maxTickDelta \<equiv> 250 * Millisecond"

record InboundPacket =
  pkt_ClientID :: string
  pkt_Data :: bytes

record entityAOIState =
  as_visible :: "EntityID fset"
  as_lastPosition :: Vector3

abbreviation (input) ghostLocal :: int where "ghostLocal \<equiv> 0"
abbreviation (input) ghostRemote :: int where "ghostRemote \<equiv> 1"

record ghostEntry =
  gh_kind :: int
  gh_entityID :: EntityID
  gh_originZone :: ZoneID
  gh_position :: Vector3
  gh_createdAt :: Time
  gh_expiresAt :: Time

definition ghost_remote :: "ghostEntry \<Rightarrow> ZoneID \<times> bool" where
  "ghost_remote e = (gh_originZone e, gh_kind e = ghostRemote)"

record zoneSim =
  sim_zone :: "Zone option"
  sim_aoi :: nat
  sim_entities :: "(EntityID, nat) fmap"

abbreviation (input) EventSpawn :: int where "EventSpawn \<equiv> 0"
abbreviation (input) EventDespawn :: int where "EventDespawn \<equiv> 1"
abbreviation (input) EventMove :: int where "EventMove \<equiv> 2"
abbreviation (input) EventState :: int where "EventState \<equiv> 3"

record Event =
  ev_Kind :: int
  ev_Space :: RuntimeID
  ev_Observer :: EntityID
  ev_EntityID :: EntityID
  ev_Type :: string
  ev_Position :: Vector3
  ev_Payload :: bytes

definition eventKindLabel :: "int \<Rightarrow> string" where
  "eventKindLabel k =
     (if k = EventSpawn then ''spawn''
      else if k = EventDespawn then ''despawn''
      else if k = EventMove then ''move''
      else if k = EventState then ''state''
      else ''unknown'')"

datatype metric_call =
    TickDuration Duration
  | TickOverrun
  | QueueDepth string int
  | Dropped string int
  | EntityCount string int
  | ActiveSpaces int
  | RuntimeEvent string

datatype cmd =
    AddCmd Entity
  | RemoveCmd EntityID

record neighborEntity =
  n_ID :: EntityID
  n_Type :: string
  n_Pos :: Vector3

type_synonym NeighborQuerier = "ZoneID \<Rightarrow> int \<Rightarrow> int \<Rightarrow> float64 \<Rightarrow> neighborEntity list"

abbreviation (input) SessionActive :: int where "SessionActive \<equiv> 0"
abbreviation (input) SessionDisconnected :: int where "SessionDisconnected \<equiv> 1"
abbreviation (input) SessionDespawned :: int where "SessionDespawned \<equiv> 2"

record sessionState =
  ss_status :: int
  ss_disconnectedAt :: Time

record Game =
  g_ServerID :: ServerID
  g_Zones :: "(ZoneID, zoneSim) fmap"
  g_Entities :: "(EntityID, nat) fmap"
  g_entityZone :: "(EntityID, ZoneID) fmap"
  g_entityAOI :: "(EntityID, entityAOIState) fmap"
  g_ghosts :: "(EntityID, ghostEntry) fmap"
  g_aoiIndex :: "(ZoneID, nat) fmap"
  g_ghostStore :: "(ZoneID, (EntityID, ghostEntry) fmap) fmap"
  g_querier :: "NeighborQuerier option"
  g_peerZone :: "(ZoneID, ServerID) fmap"
  g_Inbox :: "InboundPacket list"
  g_Events :: "Event list"
  g_aoiRadius :: float64
  g_tickRate :: Duration
  g_ghostTTL :: Duration
  g_cmds :: "cmd list"
  g_snapshotter :: bool
  g_snapshotEvery :: int
  g_tickCount :: int
  g_sessionStates :: "(EntityID, sessionState) fmap"
  g_reconnectWindow :: Duration
  g_lastTickAt :: Time
  g_ents :: "nat \<Rightarrow> Entity"
  g_nextEnt :: nat
  g_aois :: "nat \<Rightarrow> AOI"
  g_nextAOI :: nat
  g_metrics :: "metric_call list"
  g_saves :: "(ZoneID \<times> bytes \<times> int) list"
  g_actions :: "(EntityID \<times> string \<times> bytes) list"
  g_panic :: bool

definition game_New :: "ServerID \<Rightarrow> Game" where
  "game_New sid =
     \<lparr>g_ServerID = sid, g_Zones = fmempty, g_Entities = fmempty, g_entityZone = fmempty,
      g_entityAOI = fmempty, g_ghosts = fmempty, g_aoiIndex = fmempty, g_ghostStore = fmempty,
      g_querier = None, g_peerZone = fmempty, g_Inbox = [], g_Events = [],
      g_aoiRadius = DefaultAOIRadius, g_tickRate = DefaultTickRate, g_ghostTTL = 5 * Second,
      g_cmds = [], g_snapshotter = False, g_snapshotEvery = 0, g_tickCount = 0,
      g_sessionStates = fmempty, g_reconnectWindow = 30 * Second, g_lastTickAt = zero_time,
      g_ents = (\<lambda>_. entity_New '''' '''' ''''), g_nextEnt = 0,
      g_aois = (\<lambda>_. aoi_New DefaultCellSize DefaultAOIRadius), g_nextAOI = 0,
      g_metrics = [], g_saves = [], g_actions = [], g_panic = False\<rparr>"

definition WithTickRate :: "Duration \<Rightarrow> Game \<Rightarrow> Game" where
  "WithTickRate d g = g\<lparr>g_tickRate := d\<rparr>"

definition WithSnapshotter :: "int \<Rightarrow> Game \<Rightarrow> Game" where
  "WithSnapshotter every g = g\<lparr>g_snapshotter := True, g_snapshotEvery := every\<rparr>"

subsection \<open>Events\<close>

definition metric :: "metric_call \<Rightarrow> Game \<Rightarrow> Game" where
  "metric m g = g\<lparr>g_metrics := g_metrics g @ [m]\<rparr>"

definition publish :: "Event \<Rightarrow> Game \<Rightarrow> Game" where
  "publish evt g =
     (if \<not> chan_full InboxBufferSize (g_Events g)
      then metric (RuntimeEvent (eventKindLabel (ev_Kind evt))) (g\<lparr>g_Events := chan_send evt (g_Events g)\<rparr>)
      else metric (Dropped ''events'' 1) g)"

subsection \<open>Zones\<close>

definition AssignZone :: "Zone \<Rightarrow> Game \<Rightarrow> error + Game" where
  "AssignZone z g =
     (if fm_has (g_Zones g) (z_ID z)
      then Inl (Errorf (''zone '' @ z_ID z @ '': '') ErrConflict '''')
      else
        (let aoiGrid = g_nextAOI g in
         Inr (g\<lparr>g_aois := (g_aois g)(aoiGrid := aoi_New DefaultCellSize (g_aoiRadius g)),
                g_nextAOI := aoiGrid + 1,
                g_Zones := fmupd (z_ID z) \<lparr>sim_zone = Some z, sim_aoi = aoiGrid, sim_entities = fmempty\<rparr> (g_Zones g),
                g_aoiIndex := fmupd (z_ID z) aoiGrid (g_aoiIndex g),
                g_ghostStore := fmupd (z_ID z) fmempty (g_ghostStore g)\<rparr>)))"

definition RegisterPeerZone :: "ZoneID \<Rightarrow> ServerID \<Rightarrow> Game \<Rightarrow> Game" where
  "RegisterPeerZone zoneID serverID g = g\<lparr>g_peerZone := fmupd zoneID serverID (g_peerZone g)\<rparr>"

definition drop_entity :: "EntityID \<Rightarrow> Game \<Rightarrow> Game" where
  \<comment> \<open>the three deletes that forget an entity id\<close>
  "drop_entity i g = g\<lparr>g_Entities := fmdrop i (g_Entities g), g_entityAOI := fmdrop i (g_entityAOI g),
                       g_entityZone := fmdrop i (g_entityZone g)\<rparr>"

definition ReleaseZone :: "(string \<Rightarrow> order) \<Rightarrow> ZoneID \<Rightarrow> Game \<Rightarrow> error + Game" where
  "ReleaseZone ord zid g =
     (if \<not> fm_has (g_Zones g) zid
      then Inl (Errorf (''zone '' @ zid @ '': '') ErrNotFound '''')
      else
        (let g = fold (\<lambda>eid g. if fmlookup (g_entityZone g) eid \<noteq> Some zid then g else drop_entity eid g)
                      (ord ''entityZone'' (fmdom' (g_entityZone g))) g;
             g = fold (\<lambda>gid g. case fmlookup (g_ghosts g) gid of
                                  None \<Rightarrow> g
                                | Some ghost \<Rightarrow> if gh_originZone ghost = zid
                                               then g\<lparr>g_ghosts := fmdrop gid (g_ghosts g)\<rparr> else g)
                      (ord ''ghosts'' (fmdom' (g_ghosts g))) g
         in Inr (g\<lparr>g_Zones := fmdrop zid (g_Zones g), g_aoiIndex := fmdrop zid (g_aoiIndex g),
                   g_ghostStore := fmdrop zid (g_ghostStore g), g_peerZone := fmdrop zid (g_peerZone g)\<rparr>)))"

definition AOIFor :: "Game \<Rightarrow> ZoneID \<Rightarrow> nat option" where
  "AOIFor g zid = map_option sim_aoi (fmlookup (g_Zones g) zid)"

definition ZoneOf :: "Game \<Rightarrow> EntityID \<Rightarrow> ZoneID" where
  "ZoneOf g i = fm_get '''' (g_entityZone g) i"

subsection \<open>Entities\<close>

definition ensure_sim :: "ZoneID \<Rightarrow> Game \<Rightarrow> zoneSim \<times> Game" where
  \<comment> \<open>\<open>sim := g.Zones[zid]\<close>, made without a zone when there is none\<close>
  "ensure_sim zid g =
     (case fmlookup (g_Zones g) zid of
        Some sim \<Rightarrow> (sim, g)
      | None \<Rightarrow>
          (let a = g_nextAOI g; sim = \<lparr>sim_zone = None, sim_aoi = a, sim_entities = fmempty\<rparr>
           in (sim, g\<lparr>g_aois := (g_aois g)(a := aoi_New DefaultCellSize (g_aoiRadius g)),
                      g_nextAOI := a + 1, g_Zones := fmupd zid sim (g_Zones g)\<rparr>)))"

definition entity_zone :: "Entity \<Rightarrow> ZoneID" where
  "entity_zone e = (if e_ZoneID e = '''' then DefaultZoneID else e_ZoneID e)"

definition derive_space :: "zoneSim \<Rightarrow> Entity \<Rightarrow> Entity" where
  \<comment> \<open>an entity's Space is the Space of its zone\<close>
  "derive_space sim e =
     (case sim_zone sim of
        Some z \<Rightarrow> if z_RuntimeID z \<noteq> '''' then e\<lparr>e_RuntimeID := z_RuntimeID z\<rparr> else e
      | None \<Rightarrow> e)"

definition addEntity :: "Entity \<Rightarrow> Game \<Rightarrow> Game" where
  "addEntity e g =
     (let zid = entity_zone e;
          e = e\<lparr>e_ZoneID := zid\<rparr>;
          (sim, g) = ensure_sim zid g;
          e = derive_space sim e;
          r = g_nextEnt g
      in g\<lparr>g_ents := (g_ents g)(r := e), g_nextEnt := r + 1,
           g_Entities := fmupd (e_ID e) r (g_Entities g),
           g_entityZone := fmupd (e_ID e) zid (g_entityZone g),
           g_Zones := fmupd zid (sim\<lparr>sim_entities := fmupd (e_ID e) r (sim_entities sim)\<rparr>) (g_Zones g),
           g_aois := (g_aois g)(sim_aoi sim := aoi_Enter (e_ID e) (e_Position e) (g_aois g (sim_aoi sim))),
           g_entityAOI := fmupd (e_ID e) \<lparr>as_visible = {||}, as_lastPosition = e_Position e\<rparr> (g_entityAOI g)\<rparr>)"

definition removeEntity :: "EntityID \<Rightarrow> Game \<Rightarrow> Game" where
  "removeEntity i g =
     (case fmlookup (g_entityZone g) i of
        None \<Rightarrow> g
      | Some zid \<Rightarrow>
          (let g = (case fmlookup (g_Zones g) zid of
                      None \<Rightarrow> g
                    | Some sim \<Rightarrow>
                        g\<lparr>g_aois := (g_aois g)(sim_aoi sim := aoi_Leave i (g_aois g (sim_aoi sim))),
                          g_Zones := fmupd zid (sim\<lparr>sim_entities := fmdrop i (sim_entities sim)\<rparr>) (g_Zones g)\<rparr>)
           in drop_entity i g))"

definition game_EntityCount :: "Game \<Rightarrow> int" where
  "game_EntityCount g = fm_len (g_Entities g)"

definition GhostCount :: "Game \<Rightarrow> int" where
  "GhostCount g = fm_len (g_ghosts g)"

definition near_zone :: "Game \<Rightarrow> order \<Rightarrow> int \<Rightarrow> int \<Rightarrow> float64 \<Rightarrow> zoneSim \<Rightarrow> Zone \<Rightarrow> nat list" where
  \<comment> \<open>the body of the loop over the zones, for a zone of the Space at the grid cell\<close>
  "near_zone g ord gridX gridY radius sim z =
     (let radiusSq = radius * radius;
          size = (if z_Size z \<le> 0 then DefaultCellSize else z_Size z);
          cX = real_of_int gridX * size + size / 2;
          cZ = real_of_int gridY * size + size / 2
      in filter (\<lambda>r. let dx = vX (e_Position (g_ents g r)) - cX; dz = vZ (e_Position (g_ents g r)) - cZ
                     in dx * dx + dz * dz \<le> radiusSq)
                (map (\<lambda>i. fm_get 0 (sim_entities sim) i) (ord (fmdom' (sim_entities sim)))))"

definition EntitiesNearGrid :: "(string \<Rightarrow> order) \<Rightarrow> Game \<Rightarrow> RuntimeID \<Rightarrow> int \<Rightarrow> int \<Rightarrow> float64 \<Rightarrow> nat list" where
  "EntitiesNearGrid ord g space gridX gridY radius =
     concat (map (\<lambda>zid.
       case fmlookup (g_Zones g) zid of
         None \<Rightarrow> []
       | Some sim \<Rightarrow>
           (case sim_zone sim of
              None \<Rightarrow> []
            | Some z \<Rightarrow>
                if z_RuntimeID z \<noteq> space then []
                else if fst (z_Grid z) \<noteq> gridX \<or> snd (z_Grid z) \<noteq> gridY then []
                else near_zone g (ord zid) gridX gridY radius sim z))
       (ord ''zones'' (fmdom' (g_Zones g))))"

subsection \<open>The control queue\<close>

definition enqueueCmd :: "cmd \<Rightarrow> string \<Rightarrow> Game \<Rightarrow> Game" where
  \<comment> \<open>the outcome of the wait: the queue has room, or it is still full when the timer fires\<close>
  "enqueueCmd c label g =
     (if \<not> chan_full cmdChannelBuffer (g_cmds g) then g\<lparr>g_cmds := chan_send c (g_cmds g)\<rparr>
      else metric (Dropped label 1) g)"

definition EnqueueAddEntity :: "Entity \<Rightarrow> Game \<Rightarrow> Game" where
  "EnqueueAddEntity e g = enqueueCmd (AddCmd e) ''cmds_add'' g"

definition EnqueueRemoveEntity :: "EntityID \<Rightarrow> Game \<Rightarrow> Game" where
  "EnqueueRemoveEntity i g = enqueueCmd (RemoveCmd i) ''cmds_remove'' g"

fun run_cmd :: "cmd \<Rightarrow> Game \<Rightarrow> Game" where
  "run_cmd (AddCmd e) g = addEntity e g"
| "run_cmd (RemoveCmd i) g = removeEntity i g"

fun apply_cmds :: "nat \<Rightarrow> Game \<Rightarrow> Game" where
  \<comment> \<open>at most \<open>n\<close> rounds of the loop\<close>
  "apply_cmds 0 g = g"
| "apply_cmds (Suc n) g =
     (case g_cmds g of
        [] \<Rightarrow> g
      | c # cs \<Rightarrow> apply_cmds n (run_cmd c (g\<lparr>g_cmds := cs\<rparr>)))"

definition applyCmds :: "Game \<Rightarrow> Game" where
  "applyCmds g = apply_cmds cmdChannelBuffer g"

end
