(* ===== verification/Game_Tick.thy ===== *)
theory Game_Tick
  imports Game_Core
begin

section \<open>The tick: \<open>simulation.go\<close>, \<open>lifecycle.go\<close>, \<open>probes.go\<close>\<close>

text \<open>
  Packet dispatch, behaviour stepping, ghosts, visibility, session sweeping and the tick that runs
  them in order. Decoders of the protobuf messages are the parameter \<open>codec\<close>, the JSON encoder of
  the snapshot rows the parameter \<open>json\<close>. A tick takes an environment: the clock readings and the
  iteration orders, labelled by the place in the code that asks for them, and the random draws of
  each entity. One reading of the wall clock stands for the readings inside one critical section.
\<close>

subsection \<open>Messages\<close>

record EntityUpdate =
  eu_entity_id :: string
  eu_position :: "Vector3 option"

record EntityAction =
  ea_entity_id :: string
  ea_action :: string
  ea_payload :: bytes

record EntityState =
  es_entity_id :: string

record codec =
  c_gzip :: gzip_lib
  c_update :: "bytes \<Rightarrow> error + EntityUpdate"
  c_action :: "bytes \<Rightarrow> error + EntityAction"
  c_state :: "bytes \<Rightarrow> error + EntityState"

record snapRow =
  row_id :: string
  row_type :: string
  row_behavior :: bytes
  row_pos :: Vector3

subsection \<open>Moves\<close>

definition fan_out :: "EntityID \<Rightarrow> (EntityID \<Rightarrow> Event) \<Rightarrow> EntityID list \<Rightarrow> Game \<Rightarrow> Game" where
  \<comment> \<open>one event for each observer other than the subject\<close>
  "fan_out i mk obs g = fold (\<lambda>ob g. if ob = i then g else publish (mk ob) g) obs g"

definition move_event :: "RuntimeID \<Rightarrow> EntityID \<Rightarrow> Vector3 \<Rightarrow> EntityID \<Rightarrow> Event" where
  "move_event space i pos obs =
     \<lparr>ev_Kind = EventMove, ev_Space = space, ev_Observer = obs, ev_EntityID = i, ev_Type = '''',
      ev_Position = pos, ev_Payload = []\<rparr>"

definition enqueueMove :: "EntityID \<Rightarrow> Vector3 \<Rightarrow> Game \<Rightarrow> Game" where
  "enqueueMove i pos g =
     (case fmlookup (g_entityZone g) i of
        None \<Rightarrow> g
      | Some zid \<Rightarrow>
          (case fmlookup (g_Zones g) zid of
             None \<Rightarrow> g
           | Some sim \<Rightarrow>
               (let space = (case fmlookup (g_Entities g) i of
                               Some r \<Rightarrow> e_RuntimeID (g_ents g r) | None \<Rightarrow> '''')
                in fan_out i (move_event space i pos)
                     (EntitiesInRange (g_aois g (sim_aoi sim)) pos (g_aoiRadius g)) g)))"

definition aoi_move :: "EntityID \<Rightarrow> EntityID \<Rightarrow> Vector3 \<Rightarrow> Game \<Rightarrow> Game" where
  \<comment> \<open>the move of id \<open>i\<close> in the grid of the zone of \<open>key\<close>, when there is one\<close>
  "aoi_move key i pos g =
     (case fmlookup (g_entityZone g) key of
        None \<Rightarrow> g
      | Some zid \<Rightarrow>
          (case fmlookup (g_Zones g) zid of
             None \<Rightarrow> g
           | Some sim \<Rightarrow>
               g\<lparr>g_aois := (g_aois g)(sim_aoi sim := aoi_Move i pos (g_aois g (sim_aoi sim)))\<rparr>))"

subsection \<open>Dispatch\<close>

definition dispatch_position :: "InboundPacket \<Rightarrow> EntityUpdate \<Rightarrow> Game \<Rightarrow> Game" where
  "dispatch_position pkt upd g =
     (case fmlookup (g_Entities g) (pkt_ClientID pkt) of
        None \<Rightarrow> g
      | Some r \<Rightarrow>
          (let pos = (case eu_position upd of Some p \<Rightarrow> p | None \<Rightarrow> vzero);
               e = (g_ents g r)\<lparr>e_Position := pos\<rparr>;
               g = g\<lparr>g_ents := (g_ents g)(r := e)\<rparr>;
               g = aoi_move (e_ID e) (e_ID e) pos g
           in enqueueMove (e_ID e) pos g))"

definition dispatch_action :: "InboundPacket \<Rightarrow> EntityAction \<Rightarrow> Game \<Rightarrow> Game" where
  "dispatch_action pkt act g =
     (case fmlookup (g_Entities g) (ea_entity_id act) of
        None \<Rightarrow> g
      | Some r \<Rightarrow>
          if e_OwnerID (g_ents g r) \<noteq> pkt_ClientID pkt then g
          else (case e_Lifecycle (g_ents g r) of
                  None \<Rightarrow> g
                | Some _ \<Rightarrow> g\<lparr>g_actions := g_actions g @ [(e_ID (g_ents g r), ea_action act, ea_payload act)]\<rparr>))"

definition state_event :: "Entity \<Rightarrow> bytes \<Rightarrow> EntityID \<Rightarrow> Event" where
  "state_event e payload obs =
     \<lparr>ev_Kind = EventState, ev_Space = e_RuntimeID e, ev_Observer = obs, ev_EntityID = e_ID e,
      ev_Type = '''', ev_Position = vzero, ev_Payload = payload\<rparr>"

definition dispatch_state :: "bytes \<Rightarrow> EntityState \<Rightarrow> Game \<Rightarrow> Game" where
  "dispatch_state payload st g =
     (case fmlookup (g_Entities g) (es_entity_id st) of
        None \<Rightarrow> g
      | Some r \<Rightarrow>
          (let e = g_ents g r in
           case fmlookup (g_entityZone g) (e_ID e) of
             None \<Rightarrow> g
           | Some zid \<Rightarrow>
               (case fmlookup (g_Zones g) zid of
                  None \<Rightarrow> g
                | Some sim \<Rightarrow>
                    fan_out (e_ID e) (state_event e payload)
                      (EntitiesInRange (g_aois g (sim_aoi sim)) (e_Position e) (g_aoiRadius g)) g)))"

definition dispatch :: "codec \<Rightarrow> InboundPacket \<Rightarrow> Game \<Rightarrow> Game" where
  "dispatch c pkt g =
     (case Decode (c_gzip c) (pkt_Data pkt) of
        (_, _, _, _, _, Some _) \<Rightarrow> g
      | (_, pid, payload, _, _, None) \<Rightarrow>
          if pid = PacketIDPositionUpdate then
            (case c_update c payload of Inl _ \<Rightarrow> g | Inr upd \<Rightarrow> dispatch_position pkt upd g)
          else if pid = PacketIDEntityAction then
            (case c_action c payload of Inl _ \<Rightarrow> g | Inr act \<Rightarrow> dispatch_action pkt act g)
          else if pid = PacketIDEntityState then
            (case c_state c payload of Inl _ \<Rightarrow> g | Inr st \<Rightarrow> dispatch_state payload st g)
          else g)"

subsection \<open>Behaviour\<close>

definition simulate_one :: "(EntityID \<Rightarrow> float64 \<times> float64) \<Rightarrow> Duration \<Rightarrow> EntityID \<Rightarrow> Game \<Rightarrow> Game" where
  "simulate_one rnd dt i g =
     (if g_panic g then g
      else case fmlookup (g_Entities g) i of
        None \<Rightarrow> g
      | Some r \<Rightarrow>
          (case e_Lifecycle (g_ents g r) of
             None \<Rightarrow> g
           | Some l \<Rightarrow>
               (case OnSimulate (rnd i) l (g_ents g r) dt of
                  None \<Rightarrow> g\<lparr>g_panic := True\<rparr>
                | Some e \<Rightarrow>
                    (let prev = e_Position (g_ents g r);
                         g = g\<lparr>g_ents := (g_ents g)(r := e)\<rparr>
                     in if e_Position e = prev then g
                        else enqueueMove i (e_Position e) (aoi_move i i (e_Position e) g)))))"

definition simulate :: "order \<Rightarrow> (EntityID \<Rightarrow> float64 \<times> float64) \<Rightarrow> Duration \<Rightarrow> Game \<Rightarrow> Game" where
  "simulate ord rnd dt g = fold (simulate_one rnd dt) (ord (fmdom' (g_Entities g))) g"

subsection \<open>Ghosts\<close>

definition boundary_one :: "ZoneID \<Rightarrow> Time \<Rightarrow> EntityID \<Rightarrow> Game \<Rightarrow> Game" where
  "boundary_one zid now i g =
     (case fmlookup (g_Zones g) zid of
        None \<Rightarrow> g
      | Some sim \<Rightarrow>
          (case fmlookup (g_entityAOI g) i of
             None \<Rightarrow> g
           | Some state \<Rightarrow>
               (let grid = g_aois g (sim_aoi sim);
                    e = g_ents g (fm_get 0 (sim_entities sim) i)
                in if CellCoord grid (as_lastPosition state) = CellCoord grid (e_Position e) then g
                   else
                     (let ghostID = i @ ''_ghost'' in
                      g\<lparr>g_ghosts := fmupd ghostID \<lparr>gh_kind = ghostLocal, gh_entityID = i, gh_originZone = zid,
                            gh_position = as_lastPosition state, gh_createdAt = now,
                            gh_expiresAt = time_Add now (g_ghostTTL g)\<rparr> (g_ghosts g),
                        g_aois := (g_aois g)(sim_aoi sim := aoi_Enter ghostID (as_lastPosition state) grid)\<rparr>))))"

definition detectZoneBoundaries :: "order \<Rightarrow> Time \<Rightarrow> ZoneID \<Rightarrow> Game \<Rightarrow> Game" where
  "detectZoneBoundaries ord now zid g =
     (case fmlookup (g_Zones g) zid of
        None \<Rightarrow> g
      | Some sim \<Rightarrow> fold (boundary_one zid now) (ord (fmdom' (sim_entities sim))) g)"

definition sweep_ghost :: "Time \<Rightarrow> EntityID \<Rightarrow> Game \<Rightarrow> Game" where
  "sweep_ghost now i g =
     (case fmlookup (g_ghosts g) i of
        None \<Rightarrow> g
      | Some ghost \<Rightarrow>
          if \<not> time_After now (gh_expiresAt ghost) then g
          else
            (let g = (case fmlookup (g_Zones g) (gh_originZone ghost) of
                        None \<Rightarrow> g
                      | Some sim \<Rightarrow>
                          g\<lparr>g_aois := (g_aois g)(sim_aoi sim := aoi_Leave i (g_aois g (sim_aoi sim)))\<rparr>)
             in g\<lparr>g_ghosts := fmdrop i (g_ghosts g)\<rparr>))"

definition sweepGhosts :: "order \<Rightarrow> Time \<Rightarrow> Game \<Rightarrow> Game" where
  "sweepGhosts ord now g = fold (sweep_ghost now) (ord (fmdom' (g_ghosts g))) g"

subsection \<open>Visibility\<close>

definition spawn_event :: "Entity \<Rightarrow> Entity \<Rightarrow> Event" where
  "spawn_event e other =
     \<lparr>ev_Kind = EventSpawn, ev_Space = e_RuntimeID e, ev_Observer = e_ID e, ev_EntityID = e_ID other,
      ev_Type = e_Type other, ev_Position = e_Position other, ev_Payload = []\<rparr>"

definition despawn_event :: "Entity \<Rightarrow> EntityID \<Rightarrow> Event" where
  "despawn_event e i =
     \<lparr>ev_Kind = EventDespawn, ev_Space = e_RuntimeID e, ev_Observer = e_ID e, ev_EntityID = i,
      ev_Type = '''', ev_Position = vzero, ev_Payload = []\<rparr>"

definition publish_spawn :: "Entity \<Rightarrow> EntityID fset \<Rightarrow> EntityID \<Rightarrow> Game \<Rightarrow> Game" where
  "publish_spawn e visible i g =
     (if i |\<notin>| visible \<and> i \<noteq> e_ID e
      then (case fmlookup (g_Entities g) i of
              Some r \<Rightarrow> publish (spawn_event e (g_ents g r)) g
            | None \<Rightarrow> g)
      else g)"

definition publish_despawn :: "Entity \<Rightarrow> EntityID fset \<Rightarrow> EntityID \<Rightarrow> Game \<Rightarrow> Game" where
  "publish_despawn e current i g = (if i |\<notin>| current then publish (despawn_event e i) g else g)"

definition visibility_one :: "(string \<Rightarrow> order) \<Rightarrow> ZoneID \<Rightarrow> EntityID \<Rightarrow> Game \<Rightarrow> Game" where
  "visibility_one ord zid i g =
     (case fmlookup (g_Zones g) zid of
        None \<Rightarrow> g
      | Some sim \<Rightarrow>
          (let e = g_ents g (fm_get 0 (sim_entities sim) i);
               currentSet = fset_of_list (EntitiesInRange (g_aois g (sim_aoi sim)) (e_Position e) (g_aoiRadius g));
               state = (case fmlookup (g_entityAOI g) (e_ID e) of
                          Some st \<Rightarrow> st
                        | None \<Rightarrow> \<lparr>as_visible = {||}, as_lastPosition = e_Position e\<rparr>);
               g = fold (publish_spawn e (as_visible state)) (ord (''current:'' @ i) (fset currentSet)) g;
               g = fold (publish_despawn e currentSet) (ord (''visible:'' @ i) (fset (as_visible state))) g
           in g\<lparr>g_entityAOI := fmupd (e_ID e) \<lparr>as_visible = currentSet, as_lastPosition = e_Position e\<rparr>
                  (g_entityAOI g)\<rparr>))"

definition updateVisibility :: "(string \<Rightarrow> order) \<Rightarrow> ZoneID \<Rightarrow> Game \<Rightarrow> Game" where
  "updateVisibility ord zid g =
     (case fmlookup (g_Zones g) zid of
        None \<Rightarrow> g
      | Some sim \<Rightarrow> fold (visibility_one ord zid) (ord ''entities'' (fmdom' (sim_entities sim))) g)"

subsection \<open>Sessions\<close>

definition MarkDisconnected :: "Time \<Rightarrow> EntityID \<Rightarrow> Game \<Rightarrow> Game" where
  "MarkDisconnected now i g =
     (if \<not> fm_has (g_Entities g) i then g
      else g\<lparr>g_sessionStates := fmupd i \<lparr>ss_status = SessionDisconnected, ss_disconnectedAt = now\<rparr> (g_sessionStates g)\<rparr>)"

definition MarkReconnected :: "EntityID \<Rightarrow> Game \<Rightarrow> Game" where
  "MarkReconnected i g =
     g\<lparr>g_sessionStates := fmupd i \<lparr>ss_status = SessionActive, ss_disconnectedAt = zero_time\<rparr> (g_sessionStates g)\<rparr>"

definition IsDisconnected :: "Game \<Rightarrow> EntityID \<Rightarrow> bool" where
  "IsDisconnected g i =
     (case fmlookup (g_sessionStates g) i of
        None \<Rightarrow> False
      | Some st \<Rightarrow> ss_status st = SessionDisconnected)"

definition sweep_session :: "Time \<Rightarrow> EntityID \<Rightarrow> Game \<Rightarrow> Game" where
  "sweep_session now i g =
     (case fmlookup (g_sessionStates g) i of
        None \<Rightarrow> g
      | Some st \<Rightarrow>
          if ss_status st \<noteq> SessionDisconnected then g
          else if g_reconnectWindow g < time_Sub now (ss_disconnectedAt st) then
            (let g = (case fmlookup (g_entityZone g) i of
                        None \<Rightarrow> g
                      | Some zid \<Rightarrow>
                          (case fmlookup (g_aoiIndex g) zid of
                             None \<Rightarrow> g
                           | Some a \<Rightarrow> g\<lparr>g_aois := (g_aois g)(a := aoi_Leave i (g_aois g a))\<rparr>));
                 g = drop_entity i g
             in g\<lparr>g_sessionStates := fmdrop i (g_sessionStates g)\<rparr>)
          else g)"

definition SweepDisconnected :: "order \<Rightarrow> Time \<Rightarrow> Game \<Rightarrow> Game" where
  "SweepDisconnected ord now g = fold (sweep_session now) (ord (fmdom' (g_sessionStates g))) g"

subsection \<open>Snapshots and gauges\<close>

definition snap_row :: "Entity \<Rightarrow> snapRow" where
  "snap_row e = \<lparr>row_id = e_ID e, row_type = e_Type e, row_behavior = fm_get [] (e_Attrs e) ''behavior'',
                 row_pos = e_Position e\<rparr>"

definition snapshotAllZones :: "(snapRow list \<Rightarrow> error + bytes) \<Rightarrow> (string \<Rightarrow> order) \<Rightarrow> Game \<Rightarrow> Game" where
  "snapshotAllZones json ord g =
     (if \<not> g_snapshotter g then g
      else fold (\<lambda>zid g.
        case fmlookup (g_Zones g) zid of
          None \<Rightarrow> g
        | Some sim \<Rightarrow>
            (case json (map (\<lambda>i. snap_row (g_ents g (fm_get 0 (sim_entities sim) i)))
                            (ord zid (fmdom' (sim_entities sim)))) of
               Inl _ \<Rightarrow> g
             | Inr data \<Rightarrow> g\<lparr>g_saves := g_saves g @ [(zid, data, g_tickCount g)]\<rparr>))
        (ord ''zones'' (fmdom' (g_Zones g))) g)"

definition count_types :: "Game \<Rightarrow> EntityID list \<Rightarrow> (string, int) fmap" where
  "count_types g ids = fold (\<lambda>i m. let t = e_Type (g_ents g (fm_get 0 (g_Entities g) i))
                                    in fmupd t (fm_get 0 m t + 1) m) ids fmempty"

definition active_spaces :: "Game \<Rightarrow> ZoneID list \<Rightarrow> RuntimeID fset" where
  "active_spaces g zids = fold (\<lambda>zid S.
     case fmlookup (g_Zones g) zid of
       None \<Rightarrow> S
     | Some sim \<Rightarrow> (case sim_zone sim of
                      None \<Rightarrow> S
                    | Some z \<Rightarrow> if z_RuntimeID z \<noteq> '''' then finsert (z_RuntimeID z) S else S)) zids {||}"

definition reportGauges :: "(string \<Rightarrow> order) \<Rightarrow> Game \<Rightarrow> Game" where
  "reportGauges ord g =
     (let g = metric (QueueDepth ''inbox'' (int (length (g_Inbox g)))) g;
          g = metric (QueueDepth ''events'' (int (length (g_Events g)))) g;
          g = metric (QueueDepth ''cmds'' (int (length (g_cmds g)))) g;
          entitiesByType = count_types g (ord ''entities'' (fmdom' (g_Entities g)));
          spaces = active_spaces g (ord ''zones'' (fmdom' (g_Zones g)));
          g = metric (ActiveSpaces (int (fcard spaces))) g
      in fold (\<lambda>typ g. metric (EntityCount typ (fm_get 0 entitiesByType typ)) g)
              (ord ''types'' (fmdom' entitiesByType)) g)"

definition zoneIDs :: "order \<Rightarrow> Game \<Rightarrow> ZoneID list" where
  "zoneIDs ord g = ord (fmdom' (g_Zones g))"

record Snapshot =
  sn_EntityCount :: int
  sn_GhostCount :: int
  sn_ZoneOwners :: "(ZoneID, ServerID) fmap"
  sn_QueueDepths :: "(string, int) fmap"

definition game_Snapshot :: "order \<Rightarrow> Game \<Rightarrow> Snapshot" where
  "game_Snapshot ord g =
     \<lparr>sn_EntityCount = fm_len (g_Entities g), sn_GhostCount = fm_len (g_ghosts g),
      sn_ZoneOwners = fold (\<lambda>zid. fmupd zid (g_ServerID g)) (ord (fmdom' (g_Zones g))) fmempty,
      sn_QueueDepths = fmupd ''cmds'' (int (length (g_cmds g)))
        (fmupd ''events'' (int (length (g_Events g))) (fmupd ''inbox'' (int (length (g_Inbox g))) fmempty))\<rparr>"

subsection \<open>The tick\<close>

record tick_env =
  te_clock :: "string \<Rightarrow> Time"
  te_ord :: "string \<Rightarrow> order"
  te_rnd :: "EntityID \<Rightarrow> float64 \<times> float64"

fun drain :: "codec \<Rightarrow> nat \<Rightarrow> Game \<Rightarrow> Game" where
  \<comment> \<open>at most \<open>n\<close> packets of the inbox, oldest first\<close>
  "drain c 0 g = g"
| "drain c (Suc n) g =
     (case g_Inbox g of
        [] \<Rightarrow> g
      | pkt # rest \<Rightarrow> drain c n (dispatch c pkt (g\<lparr>g_Inbox := rest\<rparr>)))"

definition tick_delta :: "Time \<Rightarrow> Game \<Rightarrow> Duration" where
  \<comment> \<open>\<open>lastTickAt\<close> is the zero time before the first tick\<close>
  "tick_delta now g =
     (let lastAt = (if g_lastTickAt g = zero_time then now else g_lastTickAt g);
          dt = time_Sub now lastAt
      in if dt > maxTickDelta then maxTickDelta else dt)"

definition tick_zone :: "tick_env \<Rightarrow> ZoneID \<Rightarrow> Game \<Rightarrow> Game" where
  "tick_zone env zid g =
     updateVisibility (\<lambda>l. te_ord env (''visibility:'' @ zid @ l)) zid
       (detectZoneBoundaries (te_ord env (''boundary:'' @ zid)) (te_clock env (''boundary:'' @ zid)) zid g)"

definition game_tick :: "codec \<Rightarrow> (snapRow list \<Rightarrow> error + bytes) \<Rightarrow> tick_env \<Rightarrow> Game \<Rightarrow> Game" where
  "game_tick c json env g =
     (let now = te_clock env ''start'';
          dt = tick_delta now g;
          g = g\<lparr>g_lastTickAt := now\<rparr>;
          g = applyCmds g;
          g = drain c maxPacketsPerTick g;
          g = g\<lparr>g_tickCount := g_tickCount g + 1\<rparr>;
          g = (if g_snapshotter g \<and> 0 < g_snapshotEvery g \<and> g_tickCount g mod g_snapshotEvery g = 0
               then snapshotAllZones json (\<lambda>l. te_ord env (''snapshot:'' @ l)) g else g);
          g = simulate (te_ord env ''simulate'') (te_rnd env) dt g;
          g = fold (tick_zone env) (zoneIDs (te_ord env ''zones'') g) g;
          g = sweepGhosts (te_ord env ''ghosts'') (te_clock env ''ghosts'') g;
          g = SweepDisconnected (te_ord env ''sessions'') (te_clock env ''sessions'') g;
          elapsed = time_Sub (te_clock env ''end'') now;
          g = metric (TickDuration elapsed) g;
          g = (if elapsed > g_tickRate g then metric TickOverrun g else g)
      in reportGauges (\<lambda>l. te_ord env (''gauges:'' @ l)) g)"


fun game_Run :: "codec \<Rightarrow> (snapRow list \<Rightarrow> error + bytes) \<Rightarrow> tick_env list \<Rightarrow> Game \<Rightarrow> Game" where
  \<comment> \<open>the loop, one environment for each firing of the ticker before the context is done\<close>
  "game_Run c json [] g = g"
| "game_Run c json (env # envs) g = game_Run c json envs (game_tick c json env g)"

end
