(* ===== verification/Game_Boundary.thy ===== *)
theory Game_Boundary
  imports Game_Tick
begin

section \<open>Neighbours, migration and zone snapshots: \<open>boundary.go\<close>, \<open>peer.go\<close>\<close>

text \<open>
  Ghosts of entities of neighbouring zones, the queries one server answers for another, entity
  migration and the transfer of a zone's state, and the registry of peer connections. A gRPC
  connection is the address it was made for; making one (\<open>grpc.NewClient\<close>) is the parameter
  \<open>dial\<close>, which returns the error, if any.
\<close>

subsection \<open>Messages\<close>

record EntitySnapshot =
  snap_entity_id :: string
  snap_type :: string
  snap_position :: "Vector3 option"

record ZoneSnapshot =
  zs_zone_id :: "string option"
  zs_entities :: "EntitySnapshot list"
  zs_aoi_state :: bytes

record remoteGhost =
  rg_entityID :: EntityID
  rg_zoneID :: ZoneID
  rg_typ :: string
  rg_position :: Vector3
  rg_expiresAt :: Time

definition toEntry :: "remoteGhost \<Rightarrow> Time \<Rightarrow> Duration \<Rightarrow> ghostEntry" where
  "toEntry r now ttl =
     \<lparr>gh_kind = ghostRemote, gh_entityID = rg_entityID r, gh_originZone = rg_zoneID r,
      gh_position = rg_position r, gh_createdAt = now, gh_expiresAt = rg_expiresAt r\<rparr>"

definition ghost_suffix :: "EntityID \<Rightarrow> EntityID" where
  "ghost_suffix i = i @ ''@ghost''"

definition remote_entry :: "Game \<Rightarrow> EntityID \<Rightarrow> ZoneID \<Rightarrow> Vector3 \<Rightarrow> Time \<Rightarrow> ghostEntry" where
  "remote_entry g i zid pos now =
     \<lparr>gh_kind = ghostRemote, gh_entityID = i, gh_originZone = zid, gh_position = pos,
      gh_createdAt = now, gh_expiresAt = time_Add now (g_ghostTTL g * 6)\<rparr>"

definition with_ghosts :: "ZoneID \<Rightarrow> Game \<Rightarrow> (nat \<times> (EntityID, ghostEntry) fmap) option" where
  \<comment> \<open>\<open>grid\<close> and \<open>store\<close> of a zone, when neither is nil\<close>
  "with_ghosts zid g =
     (case (fmlookup (g_aoiIndex g) zid, fmlookup (g_ghostStore g) zid) of
        (Some grid, Some store) \<Rightarrow> Some (grid, store)
      | _ \<Rightarrow> None)"

definition set_ghosts :: "ZoneID \<Rightarrow> nat \<Rightarrow> AOI \<times> (EntityID, ghostEntry) fmap \<Rightarrow> Game \<Rightarrow> Game" where
  "set_ghosts zid grid as g =
     g\<lparr>g_aois := (g_aois g)(grid := fst as), g_ghostStore := fmupd zid (snd as) (g_ghostStore g)\<rparr>"

subsection \<open>Reconciliation\<close>

definition SetNeighborQuerier :: "NeighborQuerier \<Rightarrow> Game \<Rightarrow> Game" where
  "SetNeighborQuerier q g = g\<lparr>g_querier := Some q\<rparr>"

definition reconcile_upsert :: "Game \<Rightarrow> ZoneID \<Rightarrow> Time \<Rightarrow> neighborEntity \<Rightarrow>
    AOI \<times> (EntityID, ghostEntry) fmap \<Rightarrow> AOI \<times> (EntityID, ghostEntry) fmap" where
  "reconcile_upsert g neighborZone now n as =
     (case as of (grid, store) \<Rightarrow>
        let ghostID = ghost_suffix (n_ID n) in
        (if \<not> fm_has store ghostID then aoi_Enter ghostID (n_Pos n) grid else aoi_Move ghostID (n_Pos n) grid,
         fmupd ghostID (remote_entry g (n_ID n) neighborZone (n_Pos n) now) store))"

definition reconcile_expire :: "Time \<Rightarrow> EntityID set \<Rightarrow> EntityID \<Rightarrow>
    AOI \<times> (EntityID, ghostEntry) fmap \<Rightarrow> AOI \<times> (EntityID, ghostEntry) fmap" where
  "reconcile_expire now seen gid as =
     (case as of (grid, store) \<Rightarrow>
        if gid \<in> seen then as
        else (case fmlookup store gid of
                None \<Rightarrow> as
              | Some entry \<Rightarrow>
                  if snd (ghost_remote entry) \<and> time_After now (gh_expiresAt entry)
                  then (aoi_Leave gid grid, fmdrop gid store) else as))"

definition ReconcileNeighborGhosts :: "order \<Rightarrow> ZoneID \<Rightarrow> ZoneID \<Rightarrow> Time \<Rightarrow> Game \<Rightarrow> Game" where
  "ReconcileNeighborGhosts ord ownerZone neighborZone now g =
     (case with_ghosts ownerZone g of
        None \<Rightarrow> g
      | Some (grid, store) \<Rightarrow>
          (case fmlookup (g_Zones g) ownerZone of
             None \<Rightarrow> g
           | Some z \<Rightarrow>
               (case (sim_zone z, g_querier g) of
                  (Some zn, Some querier) \<Rightarrow>
                    (let results = querier neighborZone (fst (z_Grid zn)) (snd (z_Grid zn)) (g_aoiRadius g);
                         seen = set (map (\<lambda>n. ghost_suffix (n_ID n)) results);
                         as = fold (reconcile_upsert g neighborZone now) results (g_aois g grid, store);
                         as = fold (reconcile_expire now seen) (ord (fmdom' (snd as))) as
                     in set_ghosts ownerZone grid as g)
                | _ \<Rightarrow> g)))"

subsection \<open>Queries and notifications from other servers\<close>

definition entity_snapshot :: "Entity \<Rightarrow> EntitySnapshot" where
  "entity_snapshot e = \<lparr>snap_entity_id = e_ID e, snap_type = e_Type e, snap_position = Some (e_Position e)\<rparr>"

definition queryLocal :: "Game \<Rightarrow> ZoneID \<Rightarrow> int \<Rightarrow> int \<Rightarrow> float64 \<Rightarrow> EntitySnapshot list" where
  "queryLocal g zoneID gridX gridY radius =
     (case fmlookup (g_aoiIndex g) zoneID of
        None \<Rightarrow> []
      | Some grid \<Rightarrow>
          (let center = \<lparr>vX = real_of_int gridX * DefaultCellSize, vY = 0, vZ = real_of_int gridY * DefaultCellSize\<rparr>
           in List.map_filter (\<lambda>i. map_option (\<lambda>r. entity_snapshot (g_ents g r)) (fmlookup (g_Entities g) i))
                (EntitiesInRange (g_aois g grid) center radius)))"

definition ghostStoreCount :: "Game \<Rightarrow> ZoneID \<Rightarrow> int" where
  "ghostStoreCount g zoneID = fm_len (fm_get fmempty (g_ghostStore g) zoneID)"

definition ApplyEntityEnter :: "Time \<Rightarrow> ZoneID \<Rightarrow> EntityID \<Rightarrow> string \<Rightarrow> Vector3 \<Rightarrow> Game \<Rightarrow> Game" where
  "ApplyEntityEnter now zoneID entityID typ pos g =
     (case with_ghosts zoneID g of
        None \<Rightarrow> g
      | Some (grid, store) \<Rightarrow>
          (let ghostID = ghost_suffix entityID in
           set_ghosts zoneID grid
             (aoi_Enter ghostID pos (g_aois g grid), fmupd ghostID (remote_entry g entityID zoneID pos now) store) g))"

definition ApplyEntityLeave :: "ZoneID \<Rightarrow> EntityID \<Rightarrow> Game \<Rightarrow> Game" where
  "ApplyEntityLeave zoneID entityID g =
     (case with_ghosts zoneID g of
        None \<Rightarrow> g
      | Some (grid, store) \<Rightarrow>
          (let ghostID = ghost_suffix entityID in
           set_ghosts zoneID grid (aoi_Leave ghostID (g_aois g grid), fmdrop ghostID store) g))"

definition ApplyEntityUpdate :: "Time \<Rightarrow> ZoneID \<Rightarrow> EntityID \<Rightarrow> Vector3 \<Rightarrow> Game \<Rightarrow> Game" where
  "ApplyEntityUpdate now zoneID entityID pos g =
     (case with_ghosts zoneID g of
        None \<Rightarrow> g
      | Some (grid, store) \<Rightarrow>
          (let ghostID = ghost_suffix entityID in
           case fmlookup store ghostID of
             None \<Rightarrow> g
           | Some entry \<Rightarrow>
               set_ghosts zoneID grid
                 (aoi_Move ghostID pos (g_aois g grid),
                  fmupd ghostID (entry\<lparr>gh_position := pos, gh_expiresAt := time_Add now (g_ghostTTL g * 6)\<rparr>) store) g))"

subsection \<open>Migration and zone state\<close>

definition pos_or_zero :: "Vector3 option \<Rightarrow> Vector3" where
  \<comment> \<open>the generated getters on a message that may be nil\<close>
  "pos_or_zero p = (case p of Some v \<Rightarrow> v | None \<Rightarrow> vzero)"

definition entity_of_snapshot :: "EntitySnapshot \<Rightarrow> ZoneID \<Rightarrow> Entity" where
  "entity_of_snapshot snap zid =
     (entity_New (snap_entity_id snap) (snap_type snap) '''')\<lparr>e_ZoneID := zid,
        e_Position := pos_or_zero (snap_position snap)\<rparr>"

definition MigrateEntityIn :: "EntitySnapshot \<Rightarrow> ZoneID \<Rightarrow> Game \<Rightarrow> Game" where
  "MigrateEntityIn snap targetZone g = addEntity (entity_of_snapshot snap targetZone) g"

definition MigrateEntityOut :: "EntityID \<Rightarrow> Game \<Rightarrow> Game" where
  "MigrateEntityOut i g = removeEntity i g"

definition SnapshotZone :: "gob_lib \<Rightarrow> (string \<Rightarrow> order) \<Rightarrow> Game \<Rightarrow> ZoneID \<Rightarrow> ZoneSnapshot option" where
  "SnapshotZone gob ord g zoneID =
     (case fmlookup (g_aoiIndex g) zoneID of
        None \<Rightarrow> None
      | Some grid \<Rightarrow>
          (let snaps = List.map_filter (\<lambda>i.
                 if fmlookup (g_entityZone g) i \<noteq> Some zoneID then None
                 else map_option (\<lambda>r. entity_snapshot (g_ents g r)) (fmlookup (g_Entities g) i))
                 (ord ''entityZone'' (fmdom' (g_entityZone g)));
               state = fst (aoi_Serialize gob (ord ''aoi'') (g_aois g grid))
           in Some \<lparr>zs_zone_id = Some zoneID, zs_entities = snaps, zs_aoi_state = state\<rparr>))"

definition LoadZoneSnapshot :: "gob_lib \<Rightarrow> order \<Rightarrow> ZoneSnapshot \<Rightarrow> Game \<Rightarrow> Game" where
  "LoadZoneSnapshot gob ord snap g =
     (let zoneID = (case zs_zone_id snap of Some z \<Rightarrow> z | None \<Rightarrow> '''');
          g = (if fm_has (g_aoiIndex g) zoneID then g
               else (let a = g_nextAOI g in
                     g\<lparr>g_aois := (g_aois g)(a := aoi_Deserialize gob ord DefaultCellSize (g_aoiRadius g) (zs_aoi_state snap)),
                       g_nextAOI := a + 1,
                       g_aoiIndex := fmupd zoneID a (g_aoiIndex g),
                       g_ghostStore := fmupd zoneID fmempty (g_ghostStore g)\<rparr>))
      in fold (\<lambda>esnap. addEntity (entity_of_snapshot esnap zoneID)) (zs_entities snap) g)"

definition StreamZoneState :: "gob_lib \<Rightarrow> (string \<Rightarrow> order) \<Rightarrow> Game \<Rightarrow> ZoneID \<Rightarrow> (ZoneSnapshot \<Rightarrow> error option) \<Rightarrow> error option" where
  "StreamZoneState gob ord g zoneID send =
     (case SnapshotZone gob ord g zoneID of
        None \<Rightarrow> Some (Errorf (''zone '' @ zoneID @ '': '') ErrNotFound '''')
      | Some snap \<Rightarrow> send snap)"

subsection \<open>Peer connections\<close>

record peerConn =
  pc_target :: ServerID
  pc_addr :: string

record PeerRegistry =
  pr_conns :: "(ServerID, peerConn) fmap"
  pr_querier :: "NeighborQuerier option"
  pr_closed :: "string list"   \<comment> \<open>the connections closed so far, by address\<close>

definition NewPeerRegistry :: PeerRegistry where
  "NewPeerRegistry = \<lparr>pr_conns = fmempty, pr_querier = None, pr_closed = []\<rparr>"

definition peer_Upsert :: "(string \<Rightarrow> error option) \<Rightarrow> ServerID \<Rightarrow> string \<Rightarrow> PeerRegistry \<Rightarrow> error option \<times> PeerRegistry" where
  "peer_Upsert dial serverID addr p =
     (let connect = (\<lambda>p. case dial addr of
             Some e \<Rightarrow> (Some (Errorf (''dial peer '' @ addr @ '': '') e ''''), p)
           | None \<Rightarrow> (None, p\<lparr>pr_conns := fmupd serverID \<lparr>pc_target = serverID, pc_addr = addr\<rparr> (pr_conns p)\<rparr>))
      in case fmlookup (pr_conns p) serverID of
           None \<Rightarrow> connect p
         | Some pc \<Rightarrow>
             if pc_addr pc = addr then (None, p)
             else connect (p\<lparr>pr_closed := pr_closed p @ [pc_addr pc], pr_conns := fmdrop serverID (pr_conns p)\<rparr>))"

definition peer_Client :: "PeerRegistry \<Rightarrow> ServerID \<Rightarrow> string option" where
  \<comment> \<open>the client is the connection it uses\<close>
  "peer_Client p serverID = map_option pc_addr (fmlookup (pr_conns p) serverID)"

definition peer_SetQuerier :: "NeighborQuerier \<Rightarrow> PeerRegistry \<Rightarrow> PeerRegistry" where
  "peer_SetQuerier q p = p\<lparr>pr_querier := Some q\<rparr>"

definition peer_Querier :: "PeerRegistry \<Rightarrow> NeighborQuerier option" where
  "peer_Querier p = pr_querier p"

definition peer_Close :: "order \<Rightarrow> PeerRegistry \<Rightarrow> PeerRegistry" where
  "peer_Close ord p =
     p\<lparr>pr_closed := pr_closed p @ map (\<lambda>s. pc_addr (fm_get \<lparr>pc_target = '''', pc_addr = ''''\<rparr> (pr_conns p) s))
                                       (ord (fmdom' (pr_conns p))),
       pr_conns := fmempty\<rparr>"

end
