(* ===== verification/Game_Invariant.thy ===== *)
theory Game_Invariant
  imports Game_Boundary
begin

section \<open>The invariant of the simulation\<close>

text \<open>
  What holds of the simulation state between operations, as long as entities are added under ids
  that are new and do not end in a ghost suffix: every live entity is in exactly one zone, its
  grid entry is its position, no grid or zone holds a live entity of another zone, and every entity
  of a zone with a Space carries that Space. \<open>game_inv\<close> is proved kept by every operation of the
  preceding theories.
\<close>

definition plain_id :: "EntityID \<Rightarrow> bool" where
  "plain_id i \<longleftrightarrow> drop (length i - 6) i \<noteq> ''_ghost'' \<and> drop (length i - 6) i \<noteq> ''@ghost''"

definition sim_ok :: "Game \<Rightarrow> ZoneID \<Rightarrow> zoneSim \<Rightarrow> bool" where
  "sim_ok g z sim \<longleftrightarrow>
     sim_aoi sim < g_nextAOI g \<and> aoi_geo (g_aois g (sim_aoi sim))
     \<and> a_radius (g_aois g (sim_aoi sim)) = g_aoiRadius g
     \<and> (\<forall>i r. fmlookup (sim_entities sim) i = Some r \<longrightarrow>
          r < g_nextEnt g \<and> e_ID (g_ents g r) = i \<and> e_ZoneID (g_ents g r) = z
          \<and> (\<forall>zn. sim_zone sim = Some zn \<longrightarrow> z_RuntimeID zn \<noteq> '''' \<longrightarrow>
                e_RuntimeID (g_ents g r) = z_RuntimeID zn))"

definition live_ok :: "Game \<Rightarrow> EntityID \<Rightarrow> nat \<Rightarrow> bool" where
  "live_ok g i r \<longleftrightarrow> plain_id i \<and>
     (\<exists>z sim. fmlookup (g_entityZone g) i = Some z \<and> fmlookup (g_Zones g) z = Some sim
        \<and> fmlookup (sim_entities sim) i = Some r
        \<and> aoi_id_ok (g_aois g (sim_aoi sim)) i
        \<and> fmlookup (a_positions (g_aois g (sim_aoi sim))) i = Some (e_Position (g_ents g r)))"

definition zones_inv :: "Game \<Rightarrow> bool" where
  "zones_inv g \<longleftrightarrow>
     (\<forall>z sim. fmlookup (g_Zones g) z = Some sim \<longrightarrow> sim_ok g z sim)
   \<and> (\<forall>z z' sim sim'. fmlookup (g_Zones g) z = Some sim \<longrightarrow> fmlookup (g_Zones g) z' = Some sim' \<longrightarrow>
        sim_aoi sim = sim_aoi sim' \<longrightarrow> z = z')
   \<and> (\<forall>i r. fmlookup (g_Entities g) i = Some r \<longrightarrow> live_ok g i r)
   \<and> (\<forall>i z. fmlookup (g_entityZone g) i = Some z \<longrightarrow> fm_has (g_Entities g) i)
   \<and> (\<forall>z sim i. fmlookup (g_Zones g) z = Some sim \<longrightarrow> fm_has (g_Entities g) i \<longrightarrow>
        (\<exists>k. in_cell (g_aois g (sim_aoi sim)) k i \<noteq> 0) \<or> fm_has (sim_entities sim) i \<longrightarrow>
        fmlookup (g_entityZone g) i = Some z)
   \<and> (\<forall>r. lifecycle_ok (e_Lifecycle (g_ents g r)))
   \<and> \<not> g_panic g \<and> 0 \<le> g_aoiRadius g"

definition ghosts_inv :: "(EntityID, ghostEntry) fmap \<Rightarrow> (ZoneID, (EntityID, ghostEntry) fmap) fmap \<Rightarrow> bool" where
  "ghosts_inv gs store \<longleftrightarrow>
     (\<forall>i. fm_has gs i \<longrightarrow> \<not> plain_id i)
   \<and> (\<forall>z st i. fmlookup store z = Some st \<longrightarrow> fm_has st i \<longrightarrow> \<not> plain_id i)"

definition game_inv :: "Game \<Rightarrow> bool" where
  "game_inv g \<longleftrightarrow> zones_inv g \<and> ghosts_inv (g_ghosts g) (g_ghostStore g)"

definition fresh_id :: "Game \<Rightarrow> EntityID \<Rightarrow> bool" where
  "fresh_id g i \<longleftrightarrow> plain_id i \<and> \<not> fm_has (g_Entities g) i \<and>
     (\<forall>z sim. fmlookup (g_Zones g) z = Some sim \<longrightarrow>
        \<not> fm_has (sim_entities sim) i \<and> fmlookup (a_positions (g_aois g (sim_aoi sim))) i = None
        \<and> (\<forall>k. in_cell (g_aois g (sim_aoi sim)) k i = 0))"

subsection \<open>Reading the invariant\<close>

lemma drop_suffix: "length s = 6 \<Longrightarrow> drop (length (i @ s) - 6) (i @ s) = s"
  by simp

lemma ghost_not_plain [simp]: "\<not> plain_id (i @ ''_ghost'')" "\<not> plain_id (ghost_suffix i)"
  unfolding plain_id_def ghost_suffix_def by (subst (1 2) drop_suffix; simp)+

lemma inv_sim: "game_inv g \<Longrightarrow> fmlookup (g_Zones g) z = Some sim \<Longrightarrow> sim_ok g z sim"
  unfolding game_inv_def zones_inv_def ghosts_inv_def by blast

definition member_ok :: "Game \<Rightarrow> ZoneID \<Rightarrow> Zone option \<Rightarrow> EntityID \<Rightarrow> nat \<Rightarrow> bool" where
  "member_ok g z zo i r \<longleftrightarrow> r < g_nextEnt g \<and> e_ID (g_ents g r) = i \<and> e_ZoneID (g_ents g r) = z
     \<and> (\<forall>zn. zo = Some zn \<longrightarrow> z_RuntimeID zn \<noteq> '''' \<longrightarrow> e_RuntimeID (g_ents g r) = z_RuntimeID zn)"

lemma sim_ok_iff:
  "sim_ok g z sim \<longleftrightarrow> sim_aoi sim < g_nextAOI g \<and> aoi_geo (g_aois g (sim_aoi sim))
     \<and> a_radius (g_aois g (sim_aoi sim)) = g_aoiRadius g
     \<and> (\<forall>i r. fmlookup (sim_entities sim) i = Some r \<longrightarrow> member_ok g z (sim_zone sim) i r)"
  unfolding sim_ok_def member_ok_def by blast

lemma inv_inj:
  "game_inv g \<Longrightarrow> fmlookup (g_Zones g) z = Some sim \<Longrightarrow> fmlookup (g_Zones g) z' = Some sim' \<Longrightarrow>
   sim_aoi sim = sim_aoi sim' \<longleftrightarrow> z = z'"
  unfolding game_inv_def zones_inv_def ghosts_inv_def by auto

lemma inv_live: "game_inv g \<Longrightarrow> fmlookup (g_Entities g) i = Some r \<Longrightarrow> live_ok g i r"
  unfolding game_inv_def zones_inv_def ghosts_inv_def by blast

lemma inv_zone_live: "game_inv g \<Longrightarrow> fmlookup (g_entityZone g) i = Some z \<Longrightarrow> fm_has (g_Entities g) i"
  unfolding game_inv_def zones_inv_def ghosts_inv_def by blast

lemma inv_cell:
  "game_inv g \<Longrightarrow> fmlookup (g_Zones g) z = Some sim \<Longrightarrow> fm_has (g_Entities g) i \<Longrightarrow>
   in_cell (g_aois g (sim_aoi sim)) k i \<noteq> 0 \<Longrightarrow> fmlookup (g_entityZone g) i = Some z"
  unfolding game_inv_def zones_inv_def ghosts_inv_def by blast

lemma inv_member:
  "game_inv g \<Longrightarrow> fmlookup (g_Zones g) z = Some sim \<Longrightarrow> fm_has (g_Entities g) i \<Longrightarrow>
   fm_has (sim_entities sim) i \<Longrightarrow> fmlookup (g_entityZone g) i = Some z"
  unfolding game_inv_def zones_inv_def ghosts_inv_def by blast

lemma inv_ghosts: "game_inv g \<Longrightarrow> fm_has (g_ghosts g) i \<Longrightarrow> \<not> plain_id i"
  unfolding game_inv_def zones_inv_def ghosts_inv_def by blast

lemma inv_store: "game_inv g \<Longrightarrow> fmlookup (g_ghostStore g) z = Some st \<Longrightarrow> fm_has st i \<Longrightarrow> \<not> plain_id i"
  unfolding game_inv_def zones_inv_def ghosts_inv_def by blast

lemma inv_misc: "game_inv g \<Longrightarrow> lifecycle_ok (e_Lifecycle (g_ents g r))" "game_inv g \<Longrightarrow> \<not> g_panic g"
  "game_inv g \<Longrightarrow> 0 \<le> g_aoiRadius g"
  unfolding game_inv_def zones_inv_def ghosts_inv_def by blast+

lemma inv_liveE:
  assumes "game_inv g" "fmlookup (g_Entities g) i = Some r"
  obtains z sim where "fmlookup (g_entityZone g) i = Some z" "fmlookup (g_Zones g) z = Some sim"
    "fmlookup (sim_entities sim) i = Some r" "aoi_id_ok (g_aois g (sim_aoi sim)) i"
    "fmlookup (a_positions (g_aois g (sim_aoi sim))) i = Some (e_Position (g_ents g r))"
    "plain_id i" "r < g_nextEnt g" "e_ID (g_ents g r) = i" "e_ZoneID (g_ents g r) = z"
proof -
  from inv_live [OF assms] obtain z sim where
    z: "fmlookup (g_entityZone g) i = Some z" "fmlookup (g_Zones g) z = Some sim"
      "fmlookup (sim_entities sim) i = Some r" "aoi_id_ok (g_aois g (sim_aoi sim)) i"
      "fmlookup (a_positions (g_aois g (sim_aoi sim))) i = Some (e_Position (g_ents g r))" "plain_id i"
    unfolding live_ok_def by blast
  from inv_sim [OF assms(1) z(2)] z(3) have "r < g_nextEnt g" "e_ID (g_ents g r) = i" "e_ZoneID (g_ents g r) = z"
    unfolding sim_ok_def by blast+
  with z show ?thesis using that by blast
qed

lemma live_okI:
  assumes "plain_id i" "fmlookup (g_entityZone g) i = Some z" "fmlookup (g_Zones g) z = Some sim"
    "fmlookup (sim_entities sim) i = Some r" "aoi_id_ok (g_aois g (sim_aoi sim)) i"
    "fmlookup (a_positions (g_aois g (sim_aoi sim))) i = Some (e_Position (g_ents g r))"
  shows "live_ok g i r"
  unfolding live_ok_def using assms by blast

lemma live_plain: "game_inv g \<Longrightarrow> fm_has (g_Entities g) i \<Longrightarrow> plain_id i"
  using inv_live unfolding fm_has_def live_ok_def by blast

lemma game_invI:
  assumes "\<And>z sim. fmlookup (g_Zones g) z = Some sim \<Longrightarrow> sim_ok g z sim"
    and "\<And>z z' sim sim'. fmlookup (g_Zones g) z = Some sim \<Longrightarrow> fmlookup (g_Zones g) z' = Some sim' \<Longrightarrow>
        sim_aoi sim = sim_aoi sim' \<Longrightarrow> z = z'"
    and "\<And>i r. fmlookup (g_Entities g) i = Some r \<Longrightarrow> live_ok g i r"
    and "\<And>i z. fmlookup (g_entityZone g) i = Some z \<Longrightarrow> fm_has (g_Entities g) i"
    and "\<And>z sim i k. fmlookup (g_Zones g) z = Some sim \<Longrightarrow> fm_has (g_Entities g) i \<Longrightarrow>
        in_cell (g_aois g (sim_aoi sim)) k i \<noteq> 0 \<or> fm_has (sim_entities sim) i \<Longrightarrow>
        fmlookup (g_entityZone g) i = Some z"
    and "\<And>i. fm_has (g_ghosts g) i \<Longrightarrow> \<not> plain_id i"
    and "\<And>z st i. fmlookup (g_ghostStore g) z = Some st \<Longrightarrow> fm_has st i \<Longrightarrow> \<not> plain_id i"
    and "\<And>r. lifecycle_ok (e_Lifecycle (g_ents g r))" and "\<not> g_panic g" and "0 \<le> g_aoiRadius g"
  shows "game_inv g"
  unfolding game_inv_def zones_inv_def ghosts_inv_def using assms by blast

subsection \<open>The part of the state the invariant speaks of\<close>

definition zcore where
  "zcore g = (g_Zones g, g_Entities g, g_entityZone g, g_ents g, g_nextEnt g, g_aois g, g_nextAOI g,
              g_aoiRadius g, g_panic g)"

definition gcore where
  "gcore g = (zcore g, g_ghosts g, g_ghostStore g)"

lemma zones_inv_core: "zcore g' = zcore g \<Longrightarrow> zones_inv g' = zones_inv g"
  by (simp add: zcore_def zones_inv_def sim_ok_def live_ok_def)

lemma game_inv_core: "gcore g' = gcore g \<Longrightarrow> game_inv g' = game_inv g"
  using zones_inv_core [of g' g] by (simp add: gcore_def game_inv_def)

lemma fresh_core: "gcore g' = gcore g \<Longrightarrow> fresh_id g' i = fresh_id g i"
  by (simp add: gcore_def zcore_def fresh_id_def)

lemma gcore_metric [simp]: "gcore (metric m g) = gcore g"
  by (simp add: gcore_def zcore_def metric_def)

lemma gcore_publish [simp]: "gcore (publish e g) = gcore g"
  by (simp add: gcore_def zcore_def publish_def metric_def)

lemma gcore_misc [simp]:
  "gcore (g\<lparr>g_entityAOI := x\<rparr>) = gcore g" "gcore (g\<lparr>g_Inbox := y\<rparr>) = gcore g"
  "gcore (g\<lparr>g_cmds := cs\<rparr>) = gcore g" "gcore (g\<lparr>g_lastTickAt := t\<rparr>) = gcore g"
  "gcore (g\<lparr>g_tickCount := n\<rparr>) = gcore g" "gcore (g\<lparr>g_sessionStates := ss\<rparr>) = gcore g"
  "gcore (g\<lparr>g_saves := sv\<rparr>) = gcore g" "gcore (g\<lparr>g_actions := ac\<rparr>) = gcore g"
  "gcore (g\<lparr>g_peerZone := pz\<rparr>) = gcore g" "gcore (g\<lparr>g_querier := q\<rparr>) = gcore g"
  "gcore (g\<lparr>g_aoiIndex := ix\<rparr>) = gcore g" "gcore (g\<lparr>g_tickRate := tr\<rparr>) = gcore g"
  "gcore (g\<lparr>g_Events := evs\<rparr>) = gcore g"
  by (simp_all add: gcore_def zcore_def)

lemma gcore_fold: "(\<And>x g. gcore (f x g) = gcore g) \<Longrightarrow> gcore (fold f xs g) = gcore g"
  by (induction xs arbitrary: g) simp_all

lemma gcore_fan_out [simp]: "gcore (fan_out i mk obs g) = gcore g"
  by (simp add: fan_out_def gcore_fold)

lemma gcore_enqueueMove [simp]: "gcore (enqueueMove i pos g) = gcore g"
  by (simp add: enqueueMove_def Let_def split: option.split)

lemma gcore_dispatch_state [simp]: "gcore (dispatch_state p st g) = gcore g"
  by (simp add: dispatch_state_def Let_def split: option.split)

lemma gcore_dispatch_action [simp]: "gcore (dispatch_action pkt act g) = gcore g"
  by (simp add: dispatch_action_def split: option.split)

lemma gcore_visibility_one [simp]: "gcore (visibility_one ord z i g) = gcore g"
  by (simp add: visibility_one_def Let_def gcore_fold publish_spawn_def publish_despawn_def split: option.split)

lemma gcore_updateVisibility [simp]: "gcore (updateVisibility ord z g) = gcore g"
  by (simp add: updateVisibility_def gcore_fold split: option.split)

lemma gcore_snapshotAllZones [simp]: "gcore (snapshotAllZones json ord g) = gcore g"
  by (auto simp: snapshotAllZones_def intro!: gcore_fold split: option.split sum.split)

lemma gcore_reportGauges [simp]: "gcore (reportGauges ord g) = gcore g"
  by (simp add: reportGauges_def Let_def gcore_fold)

lemma gcore_marks [simp]: "gcore (MarkDisconnected now i g) = gcore g" "gcore (MarkReconnected i g) = gcore g"
  by (simp_all add: MarkDisconnected_def MarkReconnected_def)

lemma gcore_enqueueCmd [simp]: "gcore (enqueueCmd c l g) = gcore g"
  by (simp add: enqueueCmd_def)

lemma inv_frames [simp]:
  "game_inv (metric m g) = game_inv g" "game_inv (publish ev g) = game_inv g"
  "game_inv (g\<lparr>g_Inbox := y\<rparr>) = game_inv g" "game_inv (g\<lparr>g_cmds := cs\<rparr>) = game_inv g"
  "game_inv (g\<lparr>g_lastTickAt := t\<rparr>) = game_inv g" "game_inv (g\<lparr>g_tickCount := n\<rparr>) = game_inv g"
  "game_inv (g\<lparr>g_sessionStates := ss\<rparr>) = game_inv g" "game_inv (g\<lparr>g_querier := q\<rparr>) = game_inv g"
  "game_inv (g\<lparr>g_peerZone := pz\<rparr>) = game_inv g" "game_inv (g\<lparr>g_Events := es\<rparr>) = game_inv g"
  "game_inv (enqueueMove i pos g) = game_inv g" "game_inv (dispatch_state p st g) = game_inv g"
  "game_inv (dispatch_action pkt act g) = game_inv g" "game_inv (updateVisibility ord z g) = game_inv g"
  "game_inv (snapshotAllZones json ord g) = game_inv g" "game_inv (reportGauges ord g) = game_inv g"
  "game_inv (MarkDisconnected now i g) = game_inv g" "game_inv (MarkReconnected i g) = game_inv g"
  "game_inv (enqueueCmd c l g) = game_inv g"
  by (rule game_inv_core, simp)+

subsection \<open>Grid changes that do not concern a live entity\<close>

lemma inv_aoi_live:
  assumes inv: "game_inv g"
    and agree: "\<And>i. fm_has (g_Entities g) i \<Longrightarrow> aoi_agree A (g_aois g a) i"
    and geo: "a_cellSize A = a_cellSize (g_aois g a)" "a_radius A = a_radius (g_aois g a)" "aoi_geo A = aoi_geo (g_aois g a)"
  shows "game_inv (g\<lparr>g_aois := (g_aois g)(a := A)\<rparr>)"
proof (rule game_invI)
  fix z sim assume "fmlookup (g_Zones (g\<lparr>g_aois := (g_aois g)(a := A)\<rparr>)) z = Some sim"
  then show "sim_ok (g\<lparr>g_aois := (g_aois g)(a := A)\<rparr>) z sim"
    using inv_sim [OF inv, of z sim] geo by (auto simp: sim_ok_def)
next
  fix i r assume "fmlookup (g_Entities (g\<lparr>g_aois := (g_aois g)(a := A)\<rparr>)) i = Some r"
  then have i: "fmlookup (g_Entities g) i = Some r" by simp
  then show "live_ok (g\<lparr>g_aois := (g_aois g)(a := A)\<rparr>) i r"
  proof (rule inv_liveE [OF inv])
    fix z sim assume s: "fmlookup (g_entityZone g) i = Some z" "fmlookup (g_Zones g) z = Some sim"
      "fmlookup (sim_entities sim) i = Some r" "aoi_id_ok (g_aois g (sim_aoi sim)) i"
      "fmlookup (a_positions (g_aois g (sim_aoi sim))) i = Some (e_Position (g_ents g r))" "plain_id i"
    let ?A = "((g_aois g)(a := A)) (sim_aoi sim)"
    have "aoi_agree ?A (g_aois g (sim_aoi sim)) i" "a_cellSize ?A = a_cellSize (g_aois g (sim_aoi sim))"
      using agree [of i] i geo by (simp_all add: fm_has_def)
    from aoi_agree_ok [OF this] this(1) s(4,5)
    have "aoi_id_ok ?A i" "fmlookup (a_positions ?A) i = Some (e_Position (g_ents g r))"
      by (simp_all add: aoi_agree_def)
    with s show ?thesis unfolding live_ok_def by auto
  qed
next
  fix z sim i k
  assume z: "fmlookup (g_Zones (g\<lparr>g_aois := (g_aois g)(a := A)\<rparr>)) z = Some sim"
    and i: "fm_has (g_Entities (g\<lparr>g_aois := (g_aois g)(a := A)\<rparr>)) i"
    and c: "in_cell (g_aois (g\<lparr>g_aois := (g_aois g)(a := A)\<rparr>) (sim_aoi sim)) k i \<noteq> 0 \<or> fm_has (sim_entities sim) i"
  have "fm_has (g_Entities g) i" using i by simp
  from aoi_agreeD(1) [OF agree [OF this], of k] c
  have "in_cell (g_aois g (sim_aoi sim)) k i \<noteq> 0 \<or> fm_has (sim_entities sim) i"
    by (auto split: if_splits)
  with z i show "fmlookup (g_entityZone (g\<lparr>g_aois := (g_aois g)(a := A)\<rparr>)) i = Some z"
    using inv_cell [OF inv, of z sim i k] inv_member [OF inv, of z sim i] by auto
qed (use inv in \<open>auto dest: inv_ghosts inv_store inv_zone_live inv_misc simp: inv_inj\<close>)

lemma inv_aoi_plain:
  assumes "game_inv g" "\<And>i. plain_id i \<Longrightarrow> aoi_agree A (g_aois g a) i"
    and "a_cellSize A = a_cellSize (g_aois g a)" "a_radius A = a_radius (g_aois g a)" "aoi_geo A = aoi_geo (g_aois g a)"
  shows "game_inv (g\<lparr>g_aois := (g_aois g)(a := A)\<rparr>)"
  using assms inv_aoi_live live_plain by blast

lemma inv_ghosts_upd:
  assumes "game_inv g" "\<And>i. fm_has gs i \<Longrightarrow> \<not> plain_id i"
  shows "game_inv (g\<lparr>g_ghosts := gs\<rparr>)"
proof -
  have "zones_inv (g\<lparr>g_ghosts := gs\<rparr>) = zones_inv g" by (rule zones_inv_core) (simp add: zcore_def)
  with assms show ?thesis by (simp add: game_inv_def ghosts_inv_def)
qed

lemma inv_store_upd:
  assumes "game_inv g" "\<And>i. fm_has st i \<Longrightarrow> \<not> plain_id i"
  shows "game_inv (g\<lparr>g_ghostStore := fmupd z st (g_ghostStore g)\<rparr>)"
proof -
  have "zones_inv (g\<lparr>g_ghostStore := fmupd z st (g_ghostStore g)\<rparr>) = zones_inv g"
    by (rule zones_inv_core) (simp add: zcore_def)
  with assms show ?thesis by (simp add: game_inv_def ghosts_inv_def)
qed

lemma ghost_agree:
  "plain_id i \<Longrightarrow> \<not> plain_id j \<Longrightarrow> aoi_agree (aoi_Enter j p a) a i"
  "plain_id i \<Longrightarrow> \<not> plain_id j \<Longrightarrow> aoi_agree (aoi_Leave j a) a i"
  "plain_id i \<Longrightarrow> \<not> plain_id j \<Longrightarrow> aoi_agree (aoi_Move j p a) a i"
  by (metis aoi_agree_Enter, metis aoi_agree_Leave, metis aoi_agree_Move)

lemma inv_boundary_one: "game_inv g \<Longrightarrow> game_inv (boundary_one z now i g)"
proof -
  assume inv: "game_inv g"
  have "game_inv (g\<lparr>g_ghosts := fmupd (i @ ''_ghost'') x (g_ghosts g),
      g_aois := (g_aois g)(a := aoi_Enter (i @ ''_ghost'') p (g_aois g a))\<rparr>)" for x a p
  proof -
    have "game_inv (g\<lparr>g_ghosts := fmupd (i @ ''_ghost'') x (g_ghosts g)\<rparr>)"
      by (rule inv_ghosts_upd [OF inv]) (auto dest: inv_ghosts [OF inv])
    from inv_aoi_plain [OF this, where a = a and A = "aoi_Enter (i @ ''_ghost'') p (g_aois g a)"]
    show ?thesis by (simp add: ghost_agree)
  qed
  with inv show ?thesis by (simp add: boundary_one_def Let_def split: option.split)
qed

lemma inv_fold: "(\<And>x g. game_inv g \<Longrightarrow> game_inv (f x g)) \<Longrightarrow> game_inv g \<Longrightarrow> game_inv (fold f xs g)"
  by (rule fold_invariant_set)

lemma inv_detectZoneBoundaries: "game_inv g \<Longrightarrow> game_inv (detectZoneBoundaries ord now z g)"
  by (simp add: detectZoneBoundaries_def inv_fold inv_boundary_one split: option.split)

lemma inv_aoi_leave:
  assumes "game_inv g" "\<not> plain_id i"
  shows "game_inv (g\<lparr>g_aois := (g_aois g)(a := aoi_Leave i (g_aois g a))\<rparr>)"
  by (rule inv_aoi_plain [OF assms(1)]) (simp_all add: ghost_agree assms(2))

lemma inv_ghost_drop: "game_inv g \<Longrightarrow> game_inv (g\<lparr>g_ghosts := fmdrop i (g_ghosts g)\<rparr>)"
  by (rule inv_ghosts_upd) (auto dest: inv_ghosts)

lemma inv_sweep_ghost: "game_inv g \<Longrightarrow> game_inv (sweep_ghost now i g)"
proof (cases "fmlookup (g_ghosts g) i")
  case (Some ghost)
  assume inv: "game_inv g"
  have np: "\<not> plain_id i" using inv_ghosts [OF inv, of i] Some by (simp add: fm_has_def)
  from inv_ghost_drop [OF inv] inv_ghost_drop [OF inv_aoi_leave [OF inv np]] inv Some show ?thesis
    by (simp add: sweep_ghost_def Let_def split: option.split)
qed (simp add: sweep_ghost_def)

lemma inv_sweepGhosts: "game_inv g \<Longrightarrow> game_inv (sweepGhosts ord now g)"
  by (simp add: sweepGhosts_def inv_fold inv_sweep_ghost)

subsection \<open>Ghosts of neighbouring zones\<close>

definition ghosts_only :: "AOI \<Rightarrow> AOI \<times> (EntityID, ghostEntry) fmap \<Rightarrow> bool" where
  \<comment> \<open>a grid and a ghost store that differ from the grid \<open>A\<close> in ghosts only\<close>
  "ghosts_only A as \<longleftrightarrow> (\<forall>i. plain_id i \<longrightarrow> aoi_agree (fst as) A i) \<and> a_cellSize (fst as) = a_cellSize A
     \<and> a_radius (fst as) = a_radius A \<and> aoi_geo (fst as) = aoi_geo A \<and> (\<forall>i. fm_has (snd as) i \<longrightarrow> \<not> plain_id i)"

lemma ghosts_onlyI:
  assumes as: "ghosts_only A as" and j: "\<not> plain_id j" and st: "\<And>i. fm_has st i \<Longrightarrow> j = i \<or> fm_has (snd as) i"
  shows "ghosts_only A (aoi_Enter j p (fst as), st)" "ghosts_only A (aoi_Move j p (fst as), st)"
    "ghosts_only A (aoi_Leave j (fst as), st)"
proof -
  from as have agree: "\<And>i. plain_id i \<Longrightarrow> aoi_agree (fst as) A i"
    and geo: "a_cellSize (fst as) = a_cellSize A" "a_radius (fst as) = a_radius A" "aoi_geo (fst as) = aoi_geo A"
    and old: "\<And>i. fm_has (snd as) i \<Longrightarrow> \<not> plain_id i"
    unfolding ghosts_only_def by simp_all
  have "\<And>i. plain_id i \<Longrightarrow> aoi_agree (aoi_Enter j p (fst as)) A i"
    "\<And>i. plain_id i \<Longrightarrow> aoi_agree (aoi_Move j p (fst as)) A i"
    "\<And>i. plain_id i \<Longrightarrow> aoi_agree (aoi_Leave j (fst as)) A i"
    by (rule aoi_agree_trans [OF ghost_agree(1) [OF _ j] agree] aoi_agree_trans [OF ghost_agree(3) [OF _ j] agree]
        aoi_agree_trans [OF ghost_agree(2) [OF _ j] agree]; assumption)+
  moreover have "\<And>i. fm_has st i \<Longrightarrow> \<not> plain_id i" using st old j by blast
  ultimately show "ghosts_only A (aoi_Enter j p (fst as), st)" "ghosts_only A (aoi_Move j p (fst as), st)"
    "ghosts_only A (aoi_Leave j (fst as), st)"
    using geo by (simp_all add: ghosts_only_def)
qed

lemma inv_set_ghosts:
  assumes "game_inv g" "ghosts_only (g_aois g grid) as"
  shows "game_inv (set_ghosts z grid as g)"
proof -
  have "game_inv (g\<lparr>g_aois := (g_aois g)(grid := fst as)\<rparr>)"
    by (rule inv_aoi_plain [OF assms(1)]) (use assms(2) in \<open>auto simp: ghosts_only_def\<close>)
  from inv_store_upd [OF this, where st = "snd as" and z = z] assms(2)
  show ?thesis by (simp add: set_ghosts_def ghosts_only_def)
qed

lemma with_ghosts_ok:
  assumes "game_inv g" "with_ghosts z g = Some (grid, store)"
  shows "ghosts_only (g_aois g grid) (g_aois g grid, store)"
  using assms inv_store [OF assms(1), of z store]
  by (auto simp: with_ghosts_def ghosts_only_def split: option.splits)

lemma ghosts_only_upsert:
  assumes "ghosts_only A as"
  shows "ghosts_only A (reconcile_upsert g nz now n as)"
proof -
  let ?j = "ghost_suffix (n_ID n)"
  let ?st = "fmupd ?j (remote_entry g (n_ID n) nz (n_Pos n) now) (snd as)"
  have "\<And>i. fm_has ?st i \<Longrightarrow> ?j = i \<or> fm_has (snd as) i" by simp
  from ghosts_onlyI(1,2) [where st = ?st and p = "n_Pos n", OF assms ghost_not_plain(2) this]
  show ?thesis by (cases as) (simp add: reconcile_upsert_def Let_def)
qed

lemma ghosts_only_expire:
  "ghosts_only A as \<Longrightarrow> ghosts_only A (reconcile_expire now seen gid as)"
proof (cases "fmlookup (snd as) gid")
  case (Some e)
  assume a: "ghosts_only A as"
  with Some have "\<not> plain_id gid" by (auto simp: ghosts_only_def fm_has_def)
  from ghosts_onlyI(3) [OF a this, where st = "fmdrop gid (snd as)"] a Some show ?thesis
    by (cases as) (simp add: reconcile_expire_def)
qed (cases as; simp add: reconcile_expire_def)

lemma inv_ReconcileNeighborGhosts:
  assumes "game_inv g"
  shows "game_inv (ReconcileNeighborGhosts ord oz nz now g)"
proof (cases "with_ghosts oz g")
  case (Some gs)
  obtain grid store where gs: "gs = (grid, store)" by (cases gs)
  have "ghosts_only (g_aois g grid) (fold (reconcile_expire now seen) xs (fold (reconcile_upsert g nz now) rs (g_aois g grid, store)))"
    for seen xs rs
    by (intro fold_invariant_set [of "ghosts_only (g_aois g grid)"] ghosts_only_expire ghosts_only_upsert
        with_ghosts_ok [OF assms Some [unfolded gs]])
  with inv_set_ghosts [OF assms] assms Some gs show ?thesis
    by (simp add: ReconcileNeighborGhosts_def Let_def split: option.split)
qed (simp add: ReconcileNeighborGhosts_def assms)

lemma inv_ApplyEntity:
  assumes "game_inv g"
  shows "game_inv (ApplyEntityEnter now z i typ pos g) \<and> game_inv (ApplyEntityLeave z i g)
    \<and> game_inv (ApplyEntityUpdate now z i pos g)"
proof (cases "with_ghosts z g")
  case (Some gs)
  obtain grid store where gs: "gs = (grid, store)" by (cases gs)
  note go = with_ghosts_ok [OF assms Some [unfolded gs]]
  let ?j = "ghost_suffix i"
  have "ghosts_only (g_aois g grid) (aoi_Enter ?j pos (g_aois g grid), fmupd ?j x store)"
    "ghosts_only (g_aois g grid) (aoi_Move ?j pos (g_aois g grid), fmupd ?j x store)"
    "ghosts_only (g_aois g grid) (aoi_Leave ?j (g_aois g grid), fmdrop ?j store)" for x
    using ghosts_onlyI(1,2) [OF go ghost_not_plain(2) [of i], where st = "fmupd ?j x store" and p = pos]
      ghosts_onlyI(3) [OF go ghost_not_plain(2) [of i], where st = "fmdrop ?j store"] by simp_all
  from this [THEN inv_set_ghosts [OF assms]] assms Some gs
  show ?thesis
    by (simp add: ApplyEntityEnter_def ApplyEntityLeave_def ApplyEntityUpdate_def Let_def split: option.split)
qed (simp_all add: ApplyEntityEnter_def ApplyEntityLeave_def ApplyEntityUpdate_def assms)

subsection \<open>Moving an entity\<close>

definition same_identity :: "Entity \<Rightarrow> Entity \<Rightarrow> bool" where
  "same_identity e e' \<longleftrightarrow> e_ID e' = e_ID e \<and> e_ZoneID e' = e_ZoneID e \<and> e_RuntimeID e' = e_RuntimeID e
     \<and> lifecycle_ok (e_Lifecycle e')"

lemma sim_ok_ents:
  assumes "sim_ok g z sim" "same_identity (g_ents g r) e"
  shows "sim_ok (g\<lparr>g_ents := (g_ents g)(r := e)\<rparr>) z sim"
  using assms unfolding sim_ok_def same_identity_def by auto

lemma inv_move:
  assumes inv: "game_inv g" and r: "fmlookup (g_Entities g) i = Some r"
    and e: "same_identity (g_ents g r) e"
  shows "game_inv (aoi_move i i (e_Position e) (g\<lparr>g_ents := (g_ents g)(r := e)\<rparr>))"
proof -
  obtain z sim where s: "fmlookup (g_entityZone g) i = Some z" "fmlookup (g_Zones g) z = Some sim"
    "fmlookup (sim_entities sim) i = Some r" "aoi_id_ok (g_aois g (sim_aoi sim)) i"
    "plain_id i" "e_ID (g_ents g r) = i"
    by (rule inv_liveE [OF inv r]) blast
  define A where "A = aoi_Move i (e_Position e) (g_aois g (sim_aoi sim))"
  define g' where "g' = g\<lparr>g_ents := (g_ents g)(r := e), g_aois := (g_aois g)(sim_aoi sim := A)\<rparr>"
  have g': "aoi_move i i (e_Position e) (g\<lparr>g_ents := (g_ents g)(r := e)\<rparr>) = g'"
    using s by (simp add: aoi_move_def g'_def A_def)
  have other: "aoi_agree (g_aois g' (sim_aoi sm)) (g_aois g (sim_aoi sm)) j" if "j \<noteq> i" for sm j
    using aoi_agree_Move [OF that] by (simp add: g'_def A_def)
  have size: "a_cellSize (g_aois g' a) = a_cellSize (g_aois g a)" for a by (simp add: g'_def A_def)
  have "game_inv g'"
  proof (rule game_invI)
    fix z' sm assume "fmlookup (g_Zones g') z' = Some sm"
    then have "sim_ok g z' sm" using inv_sim [OF inv] by (simp add: g'_def)
    from sim_ok_ents [OF this e] show "sim_ok g' z' sm" by (auto simp: sim_ok_def g'_def A_def)
  next
    fix j q assume "fmlookup (g_Entities g') j = Some q"
    then have q: "fmlookup (g_Entities g) j = Some q" by (simp add: g'_def)
    show "live_ok g' j q"
    proof (cases "j = i")
      case True
      with q r have "q = r" by simp
      have "aoi_id_ok A i" "fmlookup (a_positions A) i = Some (e_Position e)"
        using s(4) by (simp_all add: A_def aoi_id_ok_Move)
      with s True \<open>q = r\<close> show ?thesis by (simp add: live_ok_def g'_def)
    next
      case False
      show ?thesis
      proof (rule inv_liveE [OF inv q])
        fix z' sm assume t: "fmlookup (g_entityZone g) j = Some z'" "fmlookup (g_Zones g) z' = Some sm"
          "fmlookup (sim_entities sm) j = Some q" "aoi_id_ok (g_aois g (sim_aoi sm)) j"
          "fmlookup (a_positions (g_aois g (sim_aoi sm))) j = Some (e_Position (g_ents g q))" "plain_id j"
          "e_ID (g_ents g q) = j"
        from False s(6) t(7) have "q \<noteq> r" by auto
        then have pos: "e_Position (g_ents g' q) = e_Position (g_ents g q)" by (simp add: g'_def)
        from aoi_agree_ok [OF other [OF False] size, of sm] aoi_agreeD(2) [OF other [OF False], of sm] t pos
        have "aoi_id_ok (g_aois g' (sim_aoi sm)) j"
          "fmlookup (a_positions (g_aois g' (sim_aoi sm))) j = Some (e_Position (g_ents g' q))" by simp_all
        with t(1-3,6) show ?thesis unfolding live_ok_def by (auto simp: g'_def)
      qed
    qed
  next
    fix z' sm j k assume z': "fmlookup (g_Zones g') z' = Some sm" and j: "fm_has (g_Entities g') j"
      and c: "in_cell (g_aois g' (sim_aoi sm)) k j \<noteq> 0 \<or> fm_has (sim_entities sm) j"
    have zs: "fmlookup (g_Zones g) z' = Some sm" "fm_has (g_Entities g) j" using z' j by (simp_all add: g'_def)
    have "fmlookup (g_entityZone g) j = Some z'"
    proof (cases "j = i \<and> z' = z")
      case True
      with s show ?thesis by simp
    next
      case False
      have "in_cell (g_aois g' (sim_aoi sm)) k j = in_cell (g_aois g (sim_aoi sm)) k j"
      proof (cases "j = i")
        case True
        with False have "sim_aoi sm \<noteq> sim_aoi sim" using inv_inj [OF inv zs(1) s(2)] by simp
        then show ?thesis by (simp add: g'_def)
      qed (rule aoi_agreeD(1) [OF other])
      with c show ?thesis using inv_cell [OF inv zs, of k] inv_member [OF inv zs] by auto
    qed
    then show "fmlookup (g_entityZone g') j = Some z'" by (simp add: g'_def)
  next
    fix q show "lifecycle_ok (e_Lifecycle (g_ents g' q))"
      using inv_misc(1) [OF inv] e by (simp add: g'_def same_identity_def)
  qed (use inv in \<open>auto simp: g'_def inv_inj dest: inv_ghosts inv_store inv_zone_live inv_misc\<close>)
  with g' show ?thesis by simp
qed

lemma inv_dispatch_position: "game_inv g \<Longrightarrow> game_inv (dispatch_position pkt upd g)"
proof (cases "fmlookup (g_Entities g) (pkt_ClientID pkt)")
  case (Some r)
  assume inv: "game_inv g"
  have i: "e_ID (g_ents g r) = pkt_ClientID pkt" by (rule inv_liveE [OF inv Some])
  let ?pos = "case eu_position upd of Some p \<Rightarrow> p | None \<Rightarrow> vzero"
  have "same_identity (g_ents g r) ((g_ents g r)\<lparr>e_Position := ?pos\<rparr>)"
    using inv_misc(1) [OF inv] by (simp add: same_identity_def)
  from inv_move [OF inv Some this] Some i show ?thesis
    by (simp add: dispatch_position_def Let_def)
qed (simp add: dispatch_position_def)

lemma inv_dispatch: "game_inv g \<Longrightarrow> game_inv (dispatch c pkt g)"
  by (simp add: dispatch_def inv_dispatch_position split: prod.split option.split sum.split)

lemma inv_still:
  assumes inv: "game_inv g" and r: "fmlookup (g_Entities g) i = Some r"
    and e: "same_identity (g_ents g r) e" and pos: "e_Position e = e_Position (g_ents g r)"
  shows "game_inv (g\<lparr>g_ents := (g_ents g)(r := e)\<rparr>)"
proof (rule game_invI)
  fix z sim assume "fmlookup (g_Zones (g\<lparr>g_ents := (g_ents g)(r := e)\<rparr>)) z = Some sim"
  then show "sim_ok (g\<lparr>g_ents := (g_ents g)(r := e)\<rparr>) z sim"
    using sim_ok_ents [OF inv_sim [OF inv] e] by simp
next
  fix j q assume "fmlookup (g_Entities (g\<lparr>g_ents := (g_ents g)(r := e)\<rparr>)) j = Some q"
  then show "live_ok (g\<lparr>g_ents := (g_ents g)(r := e)\<rparr>) j q"
    using inv_live [OF inv, of j q] pos by (auto simp: live_ok_def)
next
  fix z sim i k
  assume "fmlookup (g_Zones (g\<lparr>g_ents := (g_ents g)(r := e)\<rparr>)) z = Some sim"
    "fm_has (g_Entities (g\<lparr>g_ents := (g_ents g)(r := e)\<rparr>)) i"
    "in_cell (g_aois (g\<lparr>g_ents := (g_ents g)(r := e)\<rparr>) (sim_aoi sim)) k i \<noteq> 0 \<or> fm_has (sim_entities sim) i"
  then show "fmlookup (g_entityZone (g\<lparr>g_ents := (g_ents g)(r := e)\<rparr>)) i = Some z"
    using inv_cell [OF inv, of z sim i k] inv_member [OF inv, of z sim i] by auto
next
  fix q show "lifecycle_ok (e_Lifecycle (g_ents (g\<lparr>g_ents := (g_ents g)(r := e)\<rparr>) q))"
    using inv_misc(1) [OF inv] e by (simp add: same_identity_def)
qed (use inv in \<open>auto simp: inv_inj dest: inv_ghosts inv_store inv_zone_live inv_misc\<close>)

lemma inv_simulate_one: "game_inv g \<Longrightarrow> game_inv (simulate_one rnd dt i g)"
proof (cases "fmlookup (g_Entities g) i")
  case (Some r)
  assume inv: "game_inv g"
  show ?thesis
  proof (cases "e_Lifecycle (g_ents g r)")
    case None
    with inv Some show ?thesis by (simp add: simulate_one_def)
  next
    case l: (Some l)
    have "lifecycle_ok (Some l)" using inv_misc(1) [OF inv, of r] l by simp
    from OnSimulate_ok [OF this, of "rnd i" "g_ents g r" dt] l
    obtain e where e: "OnSimulate (rnd i) l (g_ents g r) dt = Some e" "lifecycle_ok (e_Lifecycle e)" by auto
    have "same_identity (g_ents g r) e"
      using OnSimulate_frame [OF e(1)] e(2) by (simp add: same_identity_def)
    with inv_move [OF inv Some] inv_still [OF inv Some] e Some l inv_misc(2) [OF inv] show ?thesis
      by (simp add: simulate_one_def Let_def)
  qed
qed (simp add: simulate_one_def)

lemma inv_simulate: "game_inv g \<Longrightarrow> game_inv (simulate ord rnd dt g)"
  by (simp add: simulate_def inv_fold inv_simulate_one)

end
