(* ===== verification/Game_Reach.thy ===== *)
theory Game_Reach
  imports Game_Invariant
begin

section \<open>Reachable simulation states\<close>

text \<open>
  The remaining operations keep \<open>game_inv\<close> too: adding and removing entities, sweeping sessions,
  assigning and releasing zones, loading a zone snapshot, and the whole tick. \<open>game_reach\<close> is the
  set of states the public operations can produce from a new simulation.
\<close>

subsection \<open>Forgetting an entity\<close>

lemma inv_drop:
  assumes inv: "game_inv g"
  shows "game_inv (drop_entity i g)"
proof (rule game_invI)
  fix z sim assume "fmlookup (g_Zones (drop_entity i g)) z = Some sim"
  then show "sim_ok (drop_entity i g) z sim"
    using inv_sim [OF inv, of z sim] by (simp add: drop_entity_def sim_ok_def)
next
  fix j r assume "fmlookup (g_Entities (drop_entity i g)) j = Some r"
  then show "live_ok (drop_entity i g) j r"
    using inv_live [OF inv, of j r] by (simp add: drop_entity_def live_ok_def split: if_splits)
next
  fix z sim j k
  assume "fmlookup (g_Zones (drop_entity i g)) z = Some sim" "fm_has (g_Entities (drop_entity i g)) j"
    "in_cell (g_aois (drop_entity i g) (sim_aoi sim)) k j \<noteq> 0 \<or> fm_has (sim_entities sim) j"
  then show "fmlookup (g_entityZone (drop_entity i g)) j = Some z"
    using inv_cell [OF inv, of z sim j k] inv_member [OF inv, of z sim j] by (auto simp: drop_entity_def)
next
  fix j z assume "fmlookup (g_entityZone (drop_entity i g)) j = Some z"
  then show "fm_has (g_Entities (drop_entity i g)) j"
    using inv_zone_live [OF inv, of j z] by (auto simp: drop_entity_def split: if_splits)
qed (use inv in \<open>auto simp: drop_entity_def inv_inj dest: inv_ghosts inv_store inv_misc\<close>)

lemma inv_sim_drop:
  assumes inv: "game_inv g" and dead: "\<not> fm_has (g_Entities g) i" and z: "fmlookup (g_Zones g) z = Some sim"
  shows "game_inv (g\<lparr>g_Zones := fmupd z (sim\<lparr>sim_entities := fmdrop i (sim_entities sim)\<rparr>) (g_Zones g)\<rparr>)"
    (is "game_inv ?g")
proof (rule game_invI)
  fix z' sm assume "fmlookup (g_Zones ?g) z' = Some sm"
  then show "sim_ok ?g z' sm"
    using inv_sim [OF inv z] inv_sim [OF inv, of z' sm] by (auto simp: sim_ok_def split: if_splits)
next
  fix z1 z2 s1 s2 assume "fmlookup (g_Zones ?g) z1 = Some s1" "fmlookup (g_Zones ?g) z2 = Some s2" "sim_aoi s1 = sim_aoi s2"
  then show "z1 = z2" using z inv_inj [OF inv] by (auto split: if_splits)
next
  fix j r assume j: "fmlookup (g_Entities ?g) j = Some r"
  then have "j \<noteq> i" using dead by (auto simp: fm_has_def)
  have "fmlookup (g_Entities g) j = Some r" using j by simp
  then show "live_ok ?g j r"
  proof (rule inv_liveE [OF inv])
    fix z' sm assume t: "fmlookup (g_entityZone g) j = Some z'" "fmlookup (g_Zones g) z' = Some sm"
      "fmlookup (sim_entities sm) j = Some r" "aoi_id_ok (g_aois g (sim_aoi sm)) j"
      "fmlookup (a_positions (g_aois g (sim_aoi sm))) j = Some (e_Position (g_ents g r))" "plain_id j"
    show ?thesis
    proof (cases "z' = z")
      case True
      with t(2) z have "sm = sim" by simp
      with True t \<open>j \<noteq> i\<close> show ?thesis
        by (intro live_okI [where z = z and sim = "sim\<lparr>sim_entities := fmdrop i (sim_entities sim)\<rparr>"]) simp_all
    next
      case False
      with t show ?thesis by (intro live_okI [where z = z' and sim = sm]) simp_all
    qed
  qed
next
  fix z' sm j k assume "fmlookup (g_Zones ?g) z' = Some sm" "fm_has (g_Entities ?g) j"
    "in_cell (g_aois ?g (sim_aoi sm)) k j \<noteq> 0 \<or> fm_has (sim_entities sm) j"
  then show "fmlookup (g_entityZone ?g) j = Some z'"
    using z inv_cell [OF inv, of z' _ j k] inv_member [OF inv, of z' _ j] by (auto split: if_splits)
qed (use inv in \<open>auto dest: inv_ghosts inv_store inv_misc inv_zone_live\<close>)

lemma inv_leave_dead:
  assumes "game_inv g" "\<not> fm_has (g_Entities g) i"
  shows "game_inv (g\<lparr>g_aois := (g_aois g)(a := aoi_Leave i (g_aois g a))\<rparr>)"
  by (rule inv_aoi_live [OF assms(1)]) (use assms(2) in \<open>auto intro: aoi_agree_Leave\<close>)

lemma dropped_dead [simp]: "\<not> fm_has (g_Entities (drop_entity i g)) i"
  by (simp add: drop_entity_def)

lemma inv_removeEntity:
  assumes "game_inv g"
  shows "game_inv (removeEntity i g)"
proof (cases "fmlookup (g_entityZone g) i")
  case (Some z)
  show ?thesis
  proof (cases "fmlookup (g_Zones g) z")
    case None
    with Some inv_drop [OF assms, of i] show ?thesis by (simp add: removeEntity_def)
  next
    case sim: (Some sim)
    let ?d = "drop_entity i g"
    have "game_inv (?d\<lparr>g_aois := (g_aois ?d)(sim_aoi sim := aoi_Leave i (g_aois ?d (sim_aoi sim)))\<rparr>)" (is "game_inv ?l")
      by (rule inv_leave_dead [OF inv_drop [OF assms]]) simp
    then have "game_inv (?l\<lparr>g_Zones := fmupd z (sim\<lparr>sim_entities := fmdrop i (sim_entities sim)\<rparr>) (g_Zones ?l)\<rparr>)" (is "game_inv ?r")
      by (rule inv_sim_drop) (simp_all add: drop_entity_def sim)
    moreover have "gcore (removeEntity i g) = gcore ?r"
      using Some sim by (simp add: removeEntity_def drop_entity_def gcore_def zcore_def)
    ultimately show ?thesis using game_inv_core by blast
  qed
qed (simp add: removeEntity_def assms)

lemma inv_sweep_session:
  assumes "game_inv g"
  shows "game_inv (sweep_session now i g)"
proof -
  let ?d = "drop_entity i g"
  have drop: "game_inv (?d\<lparr>g_sessionStates := ss\<rparr>)" for ss
    using inv_drop [OF assms] by simp
  have "game_inv (?d\<lparr>g_aois := (g_aois ?d)(a := aoi_Leave i (g_aois ?d a))\<rparr>)" for a
    by (rule inv_leave_dead [OF inv_drop [OF assms]]) simp
  then have leave: "game_inv (?d\<lparr>g_aois := (g_aois ?d)(a := aoi_Leave i (g_aois ?d a)), g_sessionStates := ss\<rparr>)" for a ss
    by simp
  have "drop_entity i (g\<lparr>g_aois := A\<rparr>) = ?d\<lparr>g_aois := A\<rparr>" "g_aois ?d = g_aois g" "g_sessionStates ?d = g_sessionStates g" for A
    by (cases g; simp add: drop_entity_def)+
  with drop leave assms show ?thesis
    by (simp add: sweep_session_def Let_def split: option.split)
qed

lemma inv_SweepDisconnected: "game_inv g \<Longrightarrow> game_inv (SweepDisconnected ord now g)"
  by (simp add: SweepDisconnected_def inv_fold inv_sweep_session)

subsection \<open>Zones\<close>

lemma inv_new_zone:
  assumes inv: "game_inv g" and z: "fmlookup (g_Zones g) z = None"
    and g': "zcore g' = zcore (g\<lparr>g_aois := (g_aois g)(g_nextAOI g := aoi_New DefaultCellSize (g_aoiRadius g)),
      g_nextAOI := g_nextAOI g + 1,
      g_Zones := fmupd z \<lparr>sim_zone = zo, sim_aoi = g_nextAOI g, sim_entities = fmempty\<rparr> (g_Zones g)\<rparr>)"
    and gh: "ghosts_inv (g_ghosts g') (g_ghostStore g')"
  shows "game_inv g'"
proof -
  have ne: "sim_aoi sm \<noteq> g_nextAOI g" if "fmlookup (g_Zones g) z' = Some sm" for z' sm
    using inv_sim [OF inv that] by (simp add: sim_ok_def)
  note g = g' [unfolded zcore_def, simplified]
  show ?thesis
  proof (rule game_invI)
    fix z1 s1 assume z1: "fmlookup (g_Zones g') z1 = Some s1"
    then show "sim_ok g' z1 s1"
      using g inv_sim [OF inv, of z1 s1] ne [of z1 s1] by (auto simp: sim_ok_def split: if_splits)
    fix z2 s2 assume z2: "fmlookup (g_Zones g') z2 = Some s2" and eq: "sim_aoi s1 = sim_aoi s2"
    have zs: "g_Zones g' = fmupd z \<lparr>sim_zone = zo, sim_aoi = g_nextAOI g, sim_entities = fmempty\<rparr> (g_Zones g)"
      using g by simp
    show "z1 = z2"
      using z1 z2 eq ne [of z1 s1] ne [of z2 s2] inv_inj [OF inv, of z1 s1 z2 s2] unfolding zs
      by (cases "z1 = z"; cases "z2 = z") auto
  next
    fix j r assume "fmlookup (g_Entities g') j = Some r"
    then have "live_ok g j r" using inv_live [OF inv] g by simp
    then obtain z' sm where t: "plain_id j" "fmlookup (g_entityZone g) j = Some z'" "fmlookup (g_Zones g) z' = Some sm"
        "fmlookup (sim_entities sm) j = Some r" "aoi_id_ok (g_aois g (sim_aoi sm)) j"
        "fmlookup (a_positions (g_aois g (sim_aoi sm))) j = Some (e_Position (g_ents g r))"
      unfolding live_ok_def by blast
    from t(3) z have "z' \<noteq> z" by auto
    with t ne [OF t(3)] g show "live_ok g' j r" by (intro live_okI [where z = z' and sim = sm]) simp_all
  next
    fix j z assume "fmlookup (g_entityZone g') j = Some z"
    then show "fm_has (g_Entities g') j" using inv_zone_live [OF inv] g by simp
  next
    fix z' sm j k assume "fmlookup (g_Zones g') z' = Some sm" "fm_has (g_Entities g') j"
      "in_cell (g_aois g' (sim_aoi sm)) k j \<noteq> 0 \<or> fm_has (sim_entities sm) j"
    then show "fmlookup (g_entityZone g') j = Some z'"
      using g ne [of z' sm] inv_cell [OF inv, of z' sm j k] inv_member [OF inv, of z' sm j]
      by (auto split: if_splits)
  qed (use g gh inv in \<open>auto simp: ghosts_inv_def inv_misc\<close>)
qed

lemma inv_AssignZone: "game_inv g \<Longrightarrow> AssignZone z g = Inr g' \<Longrightarrow> game_inv g'"
proof -
  assume inv: "game_inv g" and g': "AssignZone z g = Inr g'"
  then have none: "fmlookup (g_Zones g) (z_ID z) = None" by (auto simp: AssignZone_def fm_has_def split: if_splits)
  have "zcore g' = zcore (g\<lparr>g_aois := (g_aois g)(g_nextAOI g := aoi_New DefaultCellSize (g_aoiRadius g)),
      g_nextAOI := g_nextAOI g + 1,
      g_Zones := fmupd (z_ID z) \<lparr>sim_zone = Some z, sim_aoi = g_nextAOI g, sim_entities = fmempty\<rparr> (g_Zones g)\<rparr>)"
    "ghosts_inv (g_ghosts g') (g_ghostStore g')"
    using inv g' none by (auto simp: AssignZone_def Let_def fm_has_def zcore_def game_inv_def ghosts_inv_def split: if_splits)
  from inv_new_zone [OF inv none this] show ?thesis .
qed

lemma drop_zone_entities:
  "fmlookup (g_entityZone (fold (\<lambda>e g. if fmlookup (g_entityZone g) e \<noteq> Some z then g else drop_entity e g) xs g)) j
   = (if j \<in> set xs \<and> fmlookup (g_entityZone g) j = Some z then None else fmlookup (g_entityZone g) j)"
  by (induction xs arbitrary: g) (auto simp: drop_entity_def)

lemma inv_zone_drop:
  assumes inv: "game_inv g" and none: "\<And>i. fmlookup (g_entityZone g) i \<noteq> Some z"
  shows "game_inv (g\<lparr>g_Zones := fmdrop z (g_Zones g)\<rparr>)" (is "game_inv ?g")
proof (rule game_invI)
  fix z' sm assume "fmlookup (g_Zones ?g) z' = Some sm"
  then show "sim_ok ?g z' sm" using inv_sim [OF inv, of z' sm] by (simp add: sim_ok_def split: if_splits)
next
  fix j r assume "fmlookup (g_Entities ?g) j = Some r"
  then have "fmlookup (g_Entities g) j = Some r" by simp
  then show "live_ok ?g j r"
  proof (rule inv_liveE [OF inv])
    fix z' sm assume t: "fmlookup (g_entityZone g) j = Some z'" "fmlookup (g_Zones g) z' = Some sm"
      "fmlookup (sim_entities sm) j = Some r" "aoi_id_ok (g_aois g (sim_aoi sm)) j"
      "fmlookup (a_positions (g_aois g (sim_aoi sm))) j = Some (e_Position (g_ents g r))" "plain_id j"
    from t(1) none have "z' \<noteq> z" by auto
    with t show ?thesis by (intro live_okI [where z = z' and sim = sm]) simp_all
  qed
next
  fix z1 z2 s1 s2 assume "fmlookup (g_Zones ?g) z1 = Some s1" "fmlookup (g_Zones ?g) z2 = Some s2" "sim_aoi s1 = sim_aoi s2"
  then show "z1 = z2" using inv_inj [OF inv, of z1 s1 z2 s2] by (simp split: if_splits)
next
  fix z' sm j k assume "fmlookup (g_Zones ?g) z' = Some sm" "fm_has (g_Entities ?g) j"
    "in_cell (g_aois ?g (sim_aoi sm)) k j \<noteq> 0 \<or> fm_has (sim_entities sm) j"
  then show "fmlookup (g_entityZone ?g) j = Some z'"
    using inv_cell [OF inv, of z' sm j k] inv_member [OF inv, of z' sm j] by (auto split: if_splits)
qed (use inv in \<open>auto dest: inv_ghosts inv_store inv_misc inv_zone_live\<close>)

lemma inv_ReleaseZone:
  assumes inv: "game_inv g" and ord: "\<And>l. is_order (ord l)" and g': "ReleaseZone ord z g = Inr g'"
  shows "game_inv g'"
proof -
  define g1 where "g1 = fold (\<lambda>e g. if fmlookup (g_entityZone g) e \<noteq> Some z then g else drop_entity e g)
    (ord ''entityZone'' (fmdom' (g_entityZone g))) g"
  define g2 where "g2 = fold (\<lambda>i g. case fmlookup (g_ghosts g) i of None \<Rightarrow> g
      | Some ghost \<Rightarrow> if gh_originZone ghost = z then g\<lparr>g_ghosts := fmdrop i (g_ghosts g)\<rparr> else g)
    (ord ''ghosts'' (fmdom' (g_ghosts g1))) g1"
  have "game_inv g1" unfolding g1_def by (rule inv_fold [OF _ inv]) (simp add: inv_drop)
  then have inv2: "game_inv g2" unfolding g2_def
    by (rule inv_fold [rotated]) (simp add: inv_ghost_drop split: option.split)
  have "g_entityZone g2 = g_entityZone g1" unfolding g2_def
    by (rule fold_preserves) (simp split: option.split)
  moreover have "fmlookup (g_entityZone g1) i \<noteq> Some z" for i
    unfolding g1_def drop_zone_entities using ord [of "''entityZone''"] by (auto simp: fmlookup_dom'_iff)
  ultimately have "game_inv (g2\<lparr>g_Zones := fmdrop z (g_Zones g2)\<rparr>)"
    by (intro inv_zone_drop inv2) simp
  moreover have "zcore g' = zcore (g2\<lparr>g_Zones := fmdrop z (g_Zones g2)\<rparr>)"
    "g_ghosts g' = g_ghosts g2" "g_ghostStore g' = fmdrop z (g_ghostStore g2)"
    using g' by (auto simp: ReleaseZone_def Let_def zcore_def g1_def [symmetric] g2_def [symmetric] split: if_splits)
  ultimately show ?thesis
    using zones_inv_core [of g' "g2\<lparr>g_Zones := fmdrop z (g_Zones g2)\<rparr>"]
    by (auto simp: game_inv_def ghosts_inv_def split: if_splits)
qed

subsection \<open>Adding an entity\<close>

lemma ensure_sim_ok:
  assumes inv: "game_inv g" and es: "ensure_sim z g = (sim, g')"
  shows "game_inv g'" "fmlookup (g_Zones g') z = Some sim" "fresh_id g i \<Longrightarrow> fresh_id g' i"
    "g_ents g' = g_ents g" "g_nextEnt g' = g_nextEnt g" "g_Entities g' = g_Entities g"
    "g_entityZone g' = g_entityZone g" "g_ghosts g' = g_ghosts g" "g_ghostStore g' = g_ghostStore g"
proof -
  have ne: "sim_aoi sm \<noteq> g_nextAOI g" if "fmlookup (g_Zones g) z' = Some sm" for z' sm
    using inv_sim [OF inv that] by (simp add: sim_ok_def)
  show "game_inv g'"
  proof (cases "fmlookup (g_Zones g) z")
    case None
    with es have "zcore g' = zcore (g\<lparr>g_aois := (g_aois g)(g_nextAOI g := aoi_New DefaultCellSize (g_aoiRadius g)),
        g_nextAOI := g_nextAOI g + 1,
        g_Zones := fmupd z \<lparr>sim_zone = None, sim_aoi = g_nextAOI g, sim_entities = fmempty\<rparr> (g_Zones g)\<rparr>)"
      "ghosts_inv (g_ghosts g') (g_ghostStore g')"
      using inv by (auto simp: ensure_sim_def Let_def zcore_def game_inv_def)
    from inv_new_zone [OF inv None this] show ?thesis .
  qed (use es inv in \<open>auto simp: ensure_sim_def\<close>)
  show "fmlookup (g_Zones g') z = Some sim" "g_ents g' = g_ents g" "g_nextEnt g' = g_nextEnt g"
    "g_Entities g' = g_Entities g" "g_entityZone g' = g_entityZone g" "g_ghosts g' = g_ghosts g"
    "g_ghostStore g' = g_ghostStore g"
    using es by (auto simp: ensure_sim_def Let_def split: option.splits)
  show "fresh_id g' i" if "fresh_id g i"
  proof (cases "fmlookup (g_Zones g) z")
    case None
    with es that ne show ?thesis
      unfolding fresh_id_def by (auto simp: ensure_sim_def Let_def split: if_splits)
  qed (use es that in \<open>auto simp: ensure_sim_def\<close>)
qed

definition put_entity :: "ZoneID \<Rightarrow> zoneSim \<Rightarrow> Entity \<Rightarrow> Game \<Rightarrow> Game" where
  \<comment> \<open>the part of the state the invariant speaks of, after \<open>addEntity\<close> has a zone\<close>
  "put_entity z sim e g =
     g\<lparr>g_ents := (g_ents g)(g_nextEnt g := e), g_nextEnt := g_nextEnt g + 1,
       g_Entities := fmupd (e_ID e) (g_nextEnt g) (g_Entities g),
       g_entityZone := fmupd (e_ID e) z (g_entityZone g),
       g_Zones := fmupd z (sim\<lparr>sim_entities := fmupd (e_ID e) (g_nextEnt g) (sim_entities sim)\<rparr>) (g_Zones g),
       g_aois := (g_aois g)(sim_aoi sim := aoi_Enter (e_ID e) (e_Position e) (g_aois g (sim_aoi sim)))\<rparr>"

lemma inv_put_entity:
  assumes inv: "game_inv g" and z: "fmlookup (g_Zones g) z = Some sim" and fresh: "fresh_id g (e_ID e)"
    and e: "e_ZoneID e = z" "lifecycle_ok (e_Lifecycle e)"
      "\<And>zn. sim_zone sim = Some zn \<Longrightarrow> z_RuntimeID zn \<noteq> '''' \<Longrightarrow> e_RuntimeID e = z_RuntimeID zn"
  shows "game_inv (put_entity z sim e g)" (is "game_inv ?g")
proof -
  let ?i = "e_ID e" and ?r = "g_nextEnt g"
  let ?A = "aoi_Enter ?i (e_Position e) (g_aois g (sim_aoi sim))"
  let ?sim = "sim\<lparr>sim_entities := fmupd ?i ?r (sim_entities sim)\<rparr>"
  have fr: "plain_id ?i" "\<not> fm_has (g_Entities g) ?i"
    "fmlookup (a_positions (g_aois g (sim_aoi sm))) ?i = None" "in_cell (g_aois g (sim_aoi sm)) k ?i = 0"
    "\<not> fm_has (sim_entities sm) ?i" if "fmlookup (g_Zones g) z' = Some sm" for z' sm k
    using fresh that unfolding fresh_id_def by blast+
  have other: "aoi_agree (g_aois ?g (sim_aoi sm)) (g_aois g (sim_aoi sm)) j" if "j \<noteq> ?i" for sm j
    using aoi_agree_Enter [OF that] by (simp add: put_entity_def)
  have zs: "g_Zones ?g = fmupd z ?sim (g_Zones g)" by (simp add: put_entity_def)
  show ?thesis
  proof (rule game_invI)
    fix z' sm assume z': "fmlookup (g_Zones ?g) z' = Some sm"
    have old: "member_ok ?g z'' zo j q" if "member_ok g z'' zo j q" for z'' zo j q
      using that by (auto simp: member_ok_def put_entity_def)
    have new: "member_ok ?g z (sim_zone sim) ?i ?r"
      using e by (auto simp: member_ok_def put_entity_def)
    have "sim_ok ?g z ?sim"
      using inv_sim [OF inv z] old new unfolding sim_ok_iff by (auto simp: put_entity_def split: if_splits)
    moreover have "sim_ok ?g z' sm" if "fmlookup (g_Zones g) z' = Some sm"
      using inv_sim [OF inv that] old unfolding sim_ok_iff by (auto simp: put_entity_def)
    ultimately show "sim_ok ?g z' sm" using z' unfolding zs by (auto split: if_splits)
  next
    fix z1 z2 s1 s2
    assume "fmlookup (g_Zones ?g) z1 = Some s1" "fmlookup (g_Zones ?g) z2 = Some s2" "sim_aoi s1 = sim_aoi s2"
    then show "z1 = z2"
      using inv_inj [OF inv z, of z2 s2] inv_inj [OF inv _ z, of z1 s1] inv_inj [OF inv, of z1 s1 z2 s2] unfolding zs
      by (cases "z1 = z"; cases "z2 = z") auto
  next
    fix j q assume q: "fmlookup (g_Entities ?g) j = Some q"
    show "live_ok ?g j q"
    proof (cases "j = ?i")
      case True
      have "aoi_id_ok (g_aois g (sim_aoi sim)) ?i"
        unfolding aoi_id_ok_def cell_count_def using fr(3,4) [OF z] by simp
      then have "aoi_id_ok ?A ?i" using fr(3) [OF z] by (rule aoi_id_ok_Enter)
      with True q fr(1) [OF z] show ?thesis
        by (intro live_okI [where z = z and sim = ?sim]) (simp_all add: put_entity_def)
    next
      case False
      then have "fmlookup (g_Entities g) j = Some q" using q by (simp add: put_entity_def)
      then show ?thesis
      proof (rule inv_liveE [OF inv])
        fix z' sm assume t: "fmlookup (g_entityZone g) j = Some z'" "fmlookup (g_Zones g) z' = Some sm"
          "fmlookup (sim_entities sm) j = Some q" "aoi_id_ok (g_aois g (sim_aoi sm)) j"
          "fmlookup (a_positions (g_aois g (sim_aoi sm))) j = Some (e_Position (g_ents g q))" "plain_id j"
          "q < g_nextEnt g"
        have size: "a_cellSize (g_aois ?g (sim_aoi sm)) = a_cellSize (g_aois g (sim_aoi sm))"
          by (simp add: put_entity_def)
        from aoi_agree_ok [OF other [OF False] size] aoi_agreeD(2) [OF other [OF False], of sm] t
        have a: "aoi_id_ok (g_aois ?g (sim_aoi sm)) j"
          "fmlookup (a_positions (g_aois ?g (sim_aoi sm))) j = Some (e_Position (g_ents ?g q))"
          by (simp_all add: put_entity_def)
        have "z' = z \<Longrightarrow> sm = sim" using t(2) z by simp
        with t(1-3,6) a False show ?thesis
          by (cases "z' = z"; intro live_okI [where z = z' and sim = "if z' = z then ?sim else sm"])
            (simp_all add: put_entity_def)
      qed
    qed
  next
    fix z' sm j k assume z': "fmlookup (g_Zones ?g) z' = Some sm" and j: "fm_has (g_Entities ?g) j"
      and c: "in_cell (g_aois ?g (sim_aoi sm)) k j \<noteq> 0 \<or> fm_has (sim_entities sm) j"
    obtain sm' where sm': "fmlookup (g_Zones g) z' = Some sm'" "sim_aoi sm = sim_aoi sm'"
      "\<And>x. x \<noteq> ?i \<Longrightarrow> fm_has (sim_entities sm) x = fm_has (sim_entities sm') x"
      "z' \<noteq> z \<Longrightarrow> sm = sm'"
      using z' z unfolding zs by (cases "z' = z") auto
    show "fmlookup (g_entityZone ?g) j = Some z'"
    proof (cases "j = ?i")
      case True
      have "z' = z"
      proof (rule ccontr)
        assume "z' \<noteq> z"
        then have "sim_aoi sm' \<noteq> sim_aoi sim" "sm = sm'" using inv_inj [OF inv sm'(1) z] sm'(4) by simp_all
        with c fr(4,5) [OF sm'(1)] True show False by (simp add: put_entity_def)
      qed
      with True show ?thesis by (simp add: put_entity_def)
    next
      case False
      have "fm_has (g_Entities g) j" using j False by (simp add: put_entity_def)
      moreover have "in_cell (g_aois g (sim_aoi sm')) k j \<noteq> 0 \<or> fm_has (sim_entities sm') j"
        using c aoi_agreeD(1) [OF other [OF False], of sm k] sm'(2,3) False by simp
      ultimately have "fmlookup (g_entityZone g) j = Some z'"
        using inv_cell [OF inv sm'(1), of j k] inv_member [OF inv sm'(1), of j] by blast
      with False show ?thesis by (simp add: put_entity_def)
    qed
  next
    fix j z' assume "fmlookup (g_entityZone ?g) j = Some z'"
    then show "fm_has (g_Entities ?g) j"
      using inv_zone_live [OF inv, of j z'] by (auto simp: put_entity_def split: if_splits)
  qed (use inv e in \<open>auto simp: put_entity_def dest: inv_ghosts inv_store inv_misc\<close>)
qed

lemma addEntity_core:
  assumes "ensure_sim (entity_zone e) g = (sim, g')"
  shows "gcore (addEntity e g) = gcore (put_entity (entity_zone e) sim
    (derive_space sim (e\<lparr>e_ZoneID := entity_zone e\<rparr>)) g')"
  using assms by (simp add: addEntity_def put_entity_def gcore_def zcore_def Let_def)

lemma derive_space_simps [simp]:
  "e_ID (derive_space sim e) = e_ID e" "e_ZoneID (derive_space sim e) = e_ZoneID e"
  "e_Lifecycle (derive_space sim e) = e_Lifecycle e" "e_Position (derive_space sim e) = e_Position e"
  "e_Type (derive_space sim e) = e_Type e" "e_OwnerID (derive_space sim e) = e_OwnerID e"
  "sim_zone sim = Some zn \<Longrightarrow> z_RuntimeID zn \<noteq> '''' \<Longrightarrow> e_RuntimeID (derive_space sim e) = z_RuntimeID zn"
  by (simp_all add: derive_space_def split: option.split)

lemma inv_addEntity:
  assumes "game_inv g" "fresh_id g (e_ID e)" "lifecycle_ok (e_Lifecycle e)"
  shows "game_inv (addEntity e g)"
proof -
  obtain sim g' where es: "ensure_sim (entity_zone e) g = (sim, g')" by (cases "ensure_sim (entity_zone e) g")
  note ok = ensure_sim_ok [OF assms(1) es]
  have "game_inv (put_entity (entity_zone e) sim (derive_space sim (e\<lparr>e_ZoneID := entity_zone e\<rparr>)) g')"
    by (rule inv_put_entity [OF ok(1,2)]) (use ok(3) assms in simp_all)
  with addEntity_core [OF es] show ?thesis using game_inv_core by blast
qed

subsection \<open>Loading a zone, commands and packets\<close>

fun cmd_ok :: "cmd \<Rightarrow> Game \<Rightarrow> bool" where
  \<comment> \<open>an entity is added under a new id that is not a ghost's, with a behaviour in order\<close>
  "cmd_ok (AddCmd e) g \<longleftrightarrow> fresh_id g (e_ID e) \<and> lifecycle_ok (e_Lifecycle e)"
| "cmd_ok (RemoveCmd i) g \<longleftrightarrow> True"

lemma inv_run_cmd: "game_inv g \<Longrightarrow> cmd_ok c g \<Longrightarrow> game_inv (run_cmd c g)"
  by (cases c) (simp_all add: inv_addEntity inv_removeEntity)

fun cmds_ok :: "nat \<Rightarrow> Game \<Rightarrow> bool" where
  "cmds_ok 0 g \<longleftrightarrow> True"
| "cmds_ok (Suc n) g \<longleftrightarrow>
     (case g_cmds g of [] \<Rightarrow> True | c # cs \<Rightarrow> cmd_ok c (g\<lparr>g_cmds := cs\<rparr>) \<and> cmds_ok n (run_cmd c (g\<lparr>g_cmds := cs\<rparr>)))"

lemma inv_apply_cmds: "game_inv g \<Longrightarrow> cmds_ok n g \<Longrightarrow> game_inv (apply_cmds n g)"
proof (induction n arbitrary: g)
  case (Suc n)
  then show ?case by (auto simp: inv_run_cmd intro!: Suc.IH split: list.split)
qed simp

lemma inv_drain: "game_inv g \<Longrightarrow> game_inv (drain c n g)"
proof (induction n arbitrary: g)
  case (Suc n)
  then show ?case by (auto simp: inv_dispatch intro!: Suc.IH split: list.split)
qed simp

lemma inv_alloc_aoi:
  assumes inv: "game_inv g"
    and g': "zcore g' = zcore (g\<lparr>g_aois := (g_aois g)(g_nextAOI g := A), g_nextAOI := g_nextAOI g + 1\<rparr>)"
    and gh: "ghosts_inv (g_ghosts g') (g_ghostStore g')"
  shows "game_inv g'"
proof -
  have ne: "sim_aoi sm < g_nextAOI g" if "fmlookup (g_Zones g) z' = Some sm" for z' sm
    using inv_sim [OF inv that] by (simp add: sim_ok_def)
  note g = g' [unfolded zcore_def, simplified]
  show ?thesis
  proof (rule game_invI)
    fix z sm assume z: "fmlookup (g_Zones g') z = Some sm"
    then show "sim_ok g' z sm"
      using g inv_sim [OF inv, of z sm] ne [of z sm] by (auto simp: sim_ok_def)
    fix z2 s2 assume "fmlookup (g_Zones g') z2 = Some s2" "sim_aoi sm = sim_aoi s2"
    then show "z = z2" using z g inv_inj [OF inv, of z sm z2 s2] by simp
  next
    fix j r assume "fmlookup (g_Entities g') j = Some r"
    then have "fmlookup (g_Entities g) j = Some r" using g by simp
    then show "live_ok g' j r"
    proof (rule inv_liveE [OF inv])
      fix z' sm assume t: "fmlookup (g_entityZone g) j = Some z'" "fmlookup (g_Zones g) z' = Some sm"
        "fmlookup (sim_entities sm) j = Some r" "aoi_id_ok (g_aois g (sim_aoi sm)) j"
        "fmlookup (a_positions (g_aois g (sim_aoi sm))) j = Some (e_Position (g_ents g r))" "plain_id j"
      with ne [OF t(2)] g show ?thesis by (intro live_okI [where z = z' and sim = sm]) simp_all
    qed
  next
    fix z' sm j k assume "fmlookup (g_Zones g') z' = Some sm" "fm_has (g_Entities g') j"
      "in_cell (g_aois g' (sim_aoi sm)) k j \<noteq> 0 \<or> fm_has (sim_entities sm) j"
    then show "fmlookup (g_entityZone g') j = Some z'"
      using g ne [of z' sm] inv_cell [OF inv, of z' sm j k] inv_member [OF inv, of z' sm j] by auto
  next
    fix j z assume "fmlookup (g_entityZone g') j = Some z"
    then show "fm_has (g_Entities g') j" using inv_zone_live [OF inv] g by simp
  qed (use g gh inv in \<open>auto simp: ghosts_inv_def inv_misc\<close>)
qed

fun adds_ok :: "Entity list \<Rightarrow> Game \<Rightarrow> bool" where
  "adds_ok [] g \<longleftrightarrow> True"
| "adds_ok (e # es) g \<longleftrightarrow> cmd_ok (AddCmd e) g \<and> adds_ok es (addEntity e g)"

lemma inv_adds: "game_inv g \<Longrightarrow> adds_ok es g \<Longrightarrow> game_inv (fold addEntity es g)"
  by (induction es arbitrary: g) (simp_all add: inv_addEntity)

definition load_index :: "gob_lib \<Rightarrow> order \<Rightarrow> ZoneSnapshot \<Rightarrow> ZoneID \<Rightarrow> Game \<Rightarrow> Game" where
  \<comment> \<open>the state in which \<open>LoadZoneSnapshot\<close> starts to add the entities\<close>
  "load_index gob ord snap zid g =
     (if fm_has (g_aoiIndex g) zid then g
      else g\<lparr>g_aois := (g_aois g)(g_nextAOI g := aoi_Deserialize gob ord DefaultCellSize (g_aoiRadius g) (zs_aoi_state snap)),
             g_nextAOI := g_nextAOI g + 1, g_aoiIndex := fmupd zid (g_nextAOI g) (g_aoiIndex g),
             g_ghostStore := fmupd zid fmempty (g_ghostStore g)\<rparr>)"

definition snap_zone :: "ZoneSnapshot \<Rightarrow> ZoneID" where
  "snap_zone snap = (case zs_zone_id snap of Some z \<Rightarrow> z | None \<Rightarrow> '''')"

lemma LoadZoneSnapshot_eq:
  "LoadZoneSnapshot gob ord snap g =
     fold addEntity (map (\<lambda>s. entity_of_snapshot s (snap_zone snap)) (zs_entities snap))
       (load_index gob ord snap (snap_zone snap) g)"
  by (simp add: LoadZoneSnapshot_def load_index_def snap_zone_def Let_def fold_map comp_def)

lemma inv_load_index: "game_inv g \<Longrightarrow> game_inv (load_index gob ord snap z g)"
proof (cases "fm_has (g_aoiIndex g) z")
  case False
  assume inv: "game_inv g"
  let ?g = "load_index gob ord snap z g"
  have "zcore ?g = zcore (g\<lparr>g_aois := (g_aois g)(g_nextAOI g := aoi_Deserialize gob ord DefaultCellSize (g_aoiRadius g) (zs_aoi_state snap)),
      g_nextAOI := g_nextAOI g + 1\<rparr>)"
    "ghosts_inv (g_ghosts ?g) (g_ghostStore ?g)"
    using False inv by (auto simp: load_index_def zcore_def game_inv_def ghosts_inv_def split: if_splits)
  from inv_alloc_aoi [OF inv this] show ?thesis .
qed (simp add: load_index_def)

lemma inv_LoadZoneSnapshot:
  "game_inv g \<Longrightarrow> adds_ok (map (\<lambda>s. entity_of_snapshot s (snap_zone snap)) (zs_entities snap))
     (load_index gob ord snap (snap_zone snap) g) \<Longrightarrow> game_inv (LoadZoneSnapshot gob ord snap g)"
  by (simp add: LoadZoneSnapshot_eq inv_adds inv_load_index)

lemma inv_game_tick:
  assumes "game_inv g" "cmds_ok cmdChannelBuffer (g\<lparr>g_lastTickAt := te_clock env ''start''\<rparr>)"
  shows "game_inv (game_tick c json env g)"
proof -
  have 1: "game_inv (drain c n (applyCmds (g\<lparr>g_lastTickAt := te_clock env ''start''\<rparr>)))" for n
    unfolding applyCmds_def
    by (intro inv_drain inv_apply_cmds) (use assms in simp_all)
  have 2: "game_inv (tick_zone env z h)" if "game_inv h" for z h
    using that by (simp add: tick_zone_def inv_detectZoneBoundaries)
  show ?thesis
    unfolding game_tick_def Let_def
    by (simp add: 1 2 inv_SweepDisconnected inv_sweepGhosts inv_fold inv_simulate)
qed

end
