(* ===== verification/Game_Queues.thy ===== *)
theory Game_Queues
  imports Game_Reach
begin

section \<open>Queues, backpressure and reachable states\<close>

text \<open>
  What the operations do to the three bounded queues of the simulation (inbox, commands, events):
  only a tick takes from the inbox and the command queue, events are only ever appended, never
  above the capacity, and each event queued is counted by one \<open>RuntimeEvent\<close> metric. Then the
  reachable states, with the invariant and the bounds.
\<close>

definition is_event :: "metric_call \<Rightarrow> bool" where
  "is_event m \<longleftrightarrow> (case m of RuntimeEvent _ \<Rightarrow> True | _ \<Rightarrow> False)"

definition ev_count :: "metric_call list \<Rightarrow> nat" where
  "ev_count ms = length (filter is_event ms)"

definition quiet :: "Game \<Rightarrow> Game \<Rightarrow> bool" where
  \<comment> \<open>from \<open>b\<close> to \<open>g\<close> only events have been published\<close>
  "quiet b g \<longleftrightarrow> g_cmds g = g_cmds b \<and> g_Inbox g = g_Inbox b
     \<and> (length (g_Events b) \<le> InboxBufferSize \<longrightarrow> length (g_Events g) \<le> InboxBufferSize)
     \<and> (\<exists>new. g_Events g = g_Events b @ new \<and> ev_count (g_metrics g) = ev_count (g_metrics b) + length new)"

definition qcore where
  "qcore g = (g_cmds g, g_Inbox g, g_Events g, g_metrics g)"

lemma quiet_core: "qcore g' = qcore g \<Longrightarrow> quiet b g' = quiet b g"
  by (simp add: qcore_def quiet_def)

lemma quiet_refl [simp]: "quiet b b"
  by (simp add: quiet_def)

lemma quiet_trans: "quiet a b \<Longrightarrow> quiet b c \<Longrightarrow> quiet a c"
  by (auto simp: quiet_def)

lemma quiet_metric: "\<not> is_event m \<Longrightarrow> quiet b g \<Longrightarrow> quiet b (metric m g)"
  by (simp add: quiet_def metric_def ev_count_def)

lemma quiet_publish: "quiet b g \<Longrightarrow> quiet b (publish e g)"
  by (auto simp: quiet_def publish_def metric_def ev_count_def is_event_def go_simps)

lemma quiet_fold: "(\<And>x g. quiet b g \<Longrightarrow> quiet b (f x g)) \<Longrightarrow> quiet b g \<Longrightarrow> quiet b (fold f xs g)"
  by (rule fold_invariant_set)

lemma quiet_frames [simp]:
  "quiet b (g\<lparr>g_aois := x1\<rparr>) = quiet b g" "quiet b (g\<lparr>g_ents := x2\<rparr>) = quiet b g"
  "quiet b (g\<lparr>g_ghosts := x3\<rparr>) = quiet b g" "quiet b (g\<lparr>g_entityAOI := x4\<rparr>) = quiet b g"
  "quiet b (g\<lparr>g_sessionStates := x5\<rparr>) = quiet b g" "quiet b (g\<lparr>g_saves := x6\<rparr>) = quiet b g"
  "quiet b (g\<lparr>g_actions := x7\<rparr>) = quiet b g" "quiet b (g\<lparr>g_panic := x8\<rparr>) = quiet b g"
  "quiet b (g\<lparr>g_tickCount := x9\<rparr>) = quiet b g" "quiet b (g\<lparr>g_lastTickAt := x10\<rparr>) = quiet b g"
  "quiet b (g\<lparr>g_Zones := x11\<rparr>) = quiet b g" "quiet b (g\<lparr>g_entityZone := x12\<rparr>) = quiet b g"
  "quiet b (g\<lparr>g_Entities := x13\<rparr>) = quiet b g" "quiet b (g\<lparr>g_nextEnt := x14\<rparr>) = quiet b g"
  "quiet b (g\<lparr>g_nextAOI := x15\<rparr>) = quiet b g" "quiet b (g\<lparr>g_aoiIndex := x16\<rparr>) = quiet b g"
  "quiet b (g\<lparr>g_ghostStore := x17\<rparr>) = quiet b g" "quiet b (g\<lparr>g_peerZone := x18\<rparr>) = quiet b g"
  "quiet b (g\<lparr>g_querier := x19\<rparr>) = quiet b g" "quiet b (drop_entity i g) = quiet b g"
  by (rule quiet_core, simp add: qcore_def drop_entity_def)+

lemma quiet_addEntity [simp]: "quiet b (addEntity e g) = quiet b g"
  by (rule quiet_core) (simp add: qcore_def addEntity_def ensure_sim_def Let_def split: option.split)

lemma quiet_removeEntity [simp]: "quiet b (removeEntity i g) = quiet b g"
  by (rule quiet_core) (simp add: qcore_def removeEntity_def drop_entity_def Let_def split: option.split)

lemma quiet_aoi_move [simp]: "quiet b (aoi_move k i p g) = quiet b g"
  by (simp add: aoi_move_def split: option.split)

lemma quiet_fan_out: "quiet b g \<Longrightarrow> quiet b (fan_out i mk obs g)"
  by (simp add: fan_out_def quiet_fold quiet_publish)

lemma quiet_enqueueMove: "quiet b g \<Longrightarrow> quiet b (enqueueMove i p g)"
  by (simp add: enqueueMove_def Let_def quiet_fan_out split: option.split)

lemma quiet_dispatch: "quiet b g \<Longrightarrow> quiet b (dispatch c pkt g)"
  by (simp add: dispatch_def dispatch_position_def dispatch_action_def dispatch_state_def Let_def
      quiet_enqueueMove quiet_fan_out split: prod.split option.split sum.split)

lemma quiet_simulate_one: "quiet b g \<Longrightarrow> quiet b (simulate_one rnd dt i g)"
  by (simp add: simulate_one_def Let_def quiet_enqueueMove split: option.split)

lemma quiet_boundary_one: "quiet b g \<Longrightarrow> quiet b (boundary_one z now i g)"
  by (simp add: boundary_one_def Let_def split: option.split)

lemma quiet_visibility_one: "quiet b g \<Longrightarrow> quiet b (visibility_one ord z i g)"
  by (simp add: visibility_one_def Let_def quiet_fold publish_spawn_def publish_despawn_def quiet_publish
      split: option.split)

lemma quiet_sweep_ghost: "quiet b g \<Longrightarrow> quiet b (sweep_ghost now i g)"
  by (simp add: sweep_ghost_def Let_def split: option.split)

lemma quiet_sweep_session: "quiet b g \<Longrightarrow> quiet b (sweep_session now i g)"
  by (simp add: sweep_session_def Let_def split: option.split)

lemma quiet_snapshotAllZones: "quiet b g \<Longrightarrow> quiet b (snapshotAllZones json ord g)"
  by (simp add: snapshotAllZones_def quiet_fold split: option.split sum.split)

lemma quiet_reportGauges: "quiet b g \<Longrightarrow> quiet b (reportGauges ord g)"
  by (simp add: reportGauges_def Let_def quiet_fold quiet_metric is_event_def)

lemma quiet_tick_zone: "quiet b g \<Longrightarrow> quiet b (tick_zone env z g)"
  by (simp add: tick_zone_def updateVisibility_def detectZoneBoundaries_def quiet_fold quiet_boundary_one
      quiet_visibility_one split: option.split)

lemmas quiet_ops = quiet_metric quiet_fold quiet_simulate_one quiet_snapshotAllZones quiet_reportGauges
  quiet_tick_zone quiet_sweep_ghost quiet_sweep_session

subsection \<open>Taking from the queues\<close>

lemma quiet_run_cmd [simp]: "quiet b (run_cmd c g) = quiet b g"
  by (cases c) simp_all

lemma quietD: "quiet b g \<Longrightarrow> g_cmds g = g_cmds b" "quiet b g \<Longrightarrow> g_Inbox g = g_Inbox b"
  by (simp_all add: quiet_def)

lemma apply_cmds_queue: "quiet (g\<lparr>g_cmds := drop n (g_cmds g)\<rparr>) (apply_cmds n g)"
proof (induction n arbitrary: g)
  case (Suc n)
  show ?case
  proof (cases "g_cmds g")
    case Nil
    then show ?thesis by (simp add: quiet_def)
  next
    case (Cons c cs)
    let ?g = "run_cmd c (g\<lparr>g_cmds := cs\<rparr>)"
    have q: "quiet (g\<lparr>g_cmds := cs\<rparr>) ?g" by simp
    then have "quiet (g\<lparr>g_cmds := drop n cs\<rparr>) (?g\<lparr>g_cmds := drop n (g_cmds ?g)\<rparr>)"
      by (simp add: quiet_def)
    with Suc.IH [of ?g] Cons show ?thesis using quiet_trans by simp
  qed
qed (simp add: quiet_def)

lemma drain_queue: "quiet (g\<lparr>g_Inbox := drop n (g_Inbox g)\<rparr>) (drain c n g)"
proof (induction n arbitrary: g)
  case (Suc n)
  show ?case
  proof (cases "g_Inbox g")
    case Nil
    then show ?thesis by (simp add: quiet_def)
  next
    case (Cons p ps)
    let ?g = "dispatch c p (g\<lparr>g_Inbox := ps\<rparr>)"
    have q: "quiet (g\<lparr>g_Inbox := ps\<rparr>) ?g" by (simp add: quiet_dispatch)
    then have "quiet (g\<lparr>g_Inbox := drop n ps\<rparr>) (?g\<lparr>g_Inbox := drop n (g_Inbox ?g)\<rparr>)"
      by (simp add: quiet_def)
    with Suc.IH [of ?g] Cons show ?thesis using quiet_trans by simp
  qed
qed (simp add: quiet_def)

lemma tick_queues:
  "quiet (g\<lparr>g_cmds := drop cmdChannelBuffer (g_cmds g), g_Inbox := drop maxPacketsPerTick (g_Inbox g)\<rparr>)
     (game_tick c json env g)"
proof -
  let ?g0 = "g\<lparr>g_lastTickAt := te_clock env ''start''\<rparr>"
  let ?g1 = "applyCmds ?g0" and ?b = "g\<lparr>g_cmds := drop 256 (g_cmds g), g_Inbox := drop 1024 (g_Inbox g)\<rparr>"
  have q1: "quiet (?g0\<lparr>g_cmds := drop 256 (g_cmds ?g0)\<rparr>) ?g1" unfolding applyCmds_def by (rule apply_cmds_queue)
  have q2: "quiet (?g1\<lparr>g_Inbox := drop 1024 (g_Inbox ?g1)\<rparr>) (drain c 1024 ?g1)" by (rule drain_queue)
  have "quiet ?b (?g1\<lparr>g_Inbox := drop 1024 (g_Inbox ?g1)\<rparr>)"
    using q1 by (simp add: quiet_def)
  from quiet_trans [OF this q2] have "quiet ?b (drain c 1024 ?g1)" .
  then show ?thesis
    unfolding game_tick_def Let_def simulate_def sweepGhosts_def SweepDisconnected_def
    by (simp add: quiet_ops is_event_def)
qed

subsection \<open>Reachable states\<close>

definition enqueue_packet :: "InboundPacket \<Rightarrow> Game \<Rightarrow> Game" where
  \<comment> \<open>a relay puts a packet into the inbox, or drops it when the inbox is full\<close>
  "enqueue_packet pkt g =
     (if \<not> chan_full InboxBufferSize (g_Inbox g) then g\<lparr>g_Inbox := chan_send pkt (g_Inbox g)\<rparr> else g)"

inductive game_reach :: "Game \<Rightarrow> bool" where
  reach_new: "game_reach (game_New sid)"
| reach_tick_rate: "game_reach g \<Longrightarrow> game_reach (WithTickRate d g)"
| reach_snapshotter: "game_reach g \<Longrightarrow> game_reach (WithSnapshotter every g)"
| reach_assign: "game_reach g \<Longrightarrow> AssignZone z g = Inr g' \<Longrightarrow> game_reach g'"
| reach_release: "game_reach g \<Longrightarrow> (\<And>l. is_order (ord l)) \<Longrightarrow> ReleaseZone ord zid g = Inr g' \<Longrightarrow> game_reach g'"
| reach_peer_zone: "game_reach g \<Longrightarrow> game_reach (RegisterPeerZone zid sid g)"
| reach_add: "game_reach g \<Longrightarrow> cmd_ok (AddCmd e) g \<Longrightarrow> game_reach (addEntity e g)"
| reach_remove: "game_reach g \<Longrightarrow> game_reach (removeEntity i g)"
| reach_enqueue_add: "game_reach g \<Longrightarrow> game_reach (EnqueueAddEntity e g)"
| reach_enqueue_remove: "game_reach g \<Longrightarrow> game_reach (EnqueueRemoveEntity i g)"
| reach_packet: "game_reach g \<Longrightarrow> game_reach (enqueue_packet pkt g)"
| reach_consume: "game_reach g \<Longrightarrow> game_reach (g\<lparr>g_Events := drop n (g_Events g)\<rparr>)"
| reach_tick: "game_reach g \<Longrightarrow> cmds_ok cmdChannelBuffer (g\<lparr>g_lastTickAt := te_clock env ''start''\<rparr>) \<Longrightarrow>
    game_reach (game_tick c json env g)"
| reach_disconnect: "game_reach g \<Longrightarrow> game_reach (MarkDisconnected now i g)"
| reach_reconnect: "game_reach g \<Longrightarrow> game_reach (MarkReconnected i g)"
| reach_querier: "game_reach g \<Longrightarrow> game_reach (SetNeighborQuerier q g)"
| reach_reconcile: "game_reach g \<Longrightarrow> game_reach (ReconcileNeighborGhosts o1 oz nz now g)"
| reach_enter: "game_reach g \<Longrightarrow> game_reach (ApplyEntityEnter now zid i typ pos g)"
| reach_leave: "game_reach g \<Longrightarrow> game_reach (ApplyEntityLeave zid i g)"
| reach_update: "game_reach g \<Longrightarrow> game_reach (ApplyEntityUpdate now zid i pos g)"
| reach_migrate_in: "game_reach g \<Longrightarrow> fresh_id g (snap_entity_id snap) \<Longrightarrow> game_reach (MigrateEntityIn snap zid g)"
| reach_migrate_out: "game_reach g \<Longrightarrow> game_reach (MigrateEntityOut i g)"
| reach_load: "game_reach g \<Longrightarrow> adds_ok (map (\<lambda>s. entity_of_snapshot s (snap_zone snap)) (zs_entities snap))
     (load_index gob ord1 snap (snap_zone snap) g) \<Longrightarrow> game_reach (LoadZoneSnapshot gob ord1 snap g)"

definition queues_ok :: "Game \<Rightarrow> bool" where
  "queues_ok g \<longleftrightarrow> length (g_Inbox g) \<le> InboxBufferSize \<and> length (g_Events g) \<le> InboxBufferSize
     \<and> length (g_cmds g) \<le> cmdChannelBuffer"

lemma quiet_queues: "quiet b g \<Longrightarrow> queues_ok b \<Longrightarrow> queues_ok g"
  by (simp add: quiet_def queues_ok_def)

lemma quiet_op_queues:
  "queues_ok g \<Longrightarrow> queues_ok (addEntity e g)" "queues_ok g \<Longrightarrow> queues_ok (removeEntity i g)"
  "queues_ok (g\<lparr>g_peerZone := pz\<rparr>) = queues_ok g" "queues_ok (g\<lparr>g_querier := q\<rparr>) = queues_ok g"
  "queues_ok (g\<lparr>g_sessionStates := ss\<rparr>) = queues_ok g"
  by (rule quiet_queues [of g], simp, assumption)+ (simp_all add: queues_ok_def)

lemma game_inv_New: "game_inv (game_New sid)"
  by (simp add: game_inv_def zones_inv_def ghosts_inv_def game_New_def entity_New_def)

lemma inv_options: "game_inv (WithTickRate d g) = game_inv g" "game_inv (WithSnapshotter every g) = game_inv g"
  by (rule game_inv_core, simp add: gcore_def zcore_def WithTickRate_def WithSnapshotter_def)+

lemma quiet_set_ghosts [simp]: "quiet b (set_ghosts z a as g) = quiet b g"
  by (simp add: set_ghosts_def)

lemma quiet_boundary_ops:
  "quiet g (ReconcileNeighborGhosts o1 oz nz now g)" "quiet g (ApplyEntityEnter now zid i typ pos g)"
  "quiet g (ApplyEntityLeave zid i g)" "quiet g (ApplyEntityUpdate now zid i pos g)"
  "quiet g (LoadZoneSnapshot gob ord1 snap g)"
  by (simp_all add: ReconcileNeighborGhosts_def ApplyEntityEnter_def ApplyEntityLeave_def ApplyEntityUpdate_def
      LoadZoneSnapshot_eq load_index_def Let_def quiet_fold split: option.split prod.split)

lemma quiet_zone_ops:
  "AssignZone z g = Inr g' \<Longrightarrow> quiet g g'" "ReleaseZone ord zid g = Inr g' \<Longrightarrow> quiet g g'"
proof -
  show "AssignZone z g = Inr g' \<Longrightarrow> quiet g g'"
    by (auto simp: AssignZone_def Let_def split: if_splits)
  show "quiet g g'" if r: "ReleaseZone ord zid g = Inr g'"
  proof -
    have "quiet g (fold (\<lambda>eid g. if fmlookup (g_entityZone g) eid \<noteq> Some zid then g else drop_entity eid g) xs g)" for xs
      by (rule quiet_fold) simp_all
    then have "quiet g (fold (\<lambda>gid g. case fmlookup (g_ghosts g) gid of None \<Rightarrow> g
        | Some ghost \<Rightarrow> if gh_originZone ghost = zid then g\<lparr>g_ghosts := fmdrop gid (g_ghosts g)\<rparr> else g) ys
        (fold (\<lambda>eid g. if fmlookup (g_entityZone g) eid \<noteq> Some zid then g else drop_entity eid g) xs g))" for xs ys
      by (rule quiet_fold [rotated]) (simp split: option.split)
    with r show ?thesis by (auto simp: ReleaseZone_def Let_def split: if_splits)
  qed
qed

lemma enqueue_queues: "queues_ok g \<Longrightarrow> queues_ok (enqueueCmd c l g)"
  by (simp add: enqueueCmd_def queues_ok_def metric_def go_simps)

lemma game_reach_ok:
  assumes "game_reach g"
  shows "game_inv g \<and> queues_ok g"
  using assms
proof induction
  case (reach_new sid)
  then show ?case by (simp add: game_inv_New) (simp add: game_New_def queues_ok_def)
next
  case (reach_tick g env c json)
  have "queues_ok (g\<lparr>g_cmds := drop 256 (g_cmds g), g_Inbox := drop 1024 (g_Inbox g)\<rparr>)"
    using reach_tick.IH by (auto simp: queues_ok_def)
  with reach_tick show ?case using inv_game_tick quiet_queues [OF tick_queues] by blast
next
  case (reach_assign g z g')
  then show ?case using inv_AssignZone quiet_queues [OF quiet_zone_ops(1)] by blast
next
  case (reach_release g ord zid g')
  then show ?case using inv_ReleaseZone [of g ord zid g'] quiet_queues [OF quiet_zone_ops(2)] by blast
next
  case (reach_load g snap gob ord1)
  then show ?case using inv_LoadZoneSnapshot quiet_queues [OF quiet_boundary_ops(5)] by blast
next
  case (reach_migrate_in g snap zid)
  then have "game_inv (addEntity (entity_of_snapshot snap zid) g)"
    by (intro inv_addEntity) (simp_all add: entity_of_snapshot_def entity_New_def)
  with reach_migrate_in show ?case by (simp add: MigrateEntityIn_def quiet_queues [of g])
next
  case (reach_packet g pkt)
  then show ?case by (auto simp: enqueue_packet_def queues_ok_def go_simps)
next
  case (reach_tick_rate g d)
  then show ?case by (simp add: inv_options) (simp add: queues_ok_def WithTickRate_def)
next
  case (reach_snapshotter g every)
  then show ?case by (simp add: inv_options) (simp add: queues_ok_def WithSnapshotter_def)
next
  case (reach_consume g n)
  then show ?case by (auto simp: queues_ok_def)
qed (simp_all add: RegisterPeerZone_def inv_addEntity inv_removeEntity EnqueueAddEntity_def EnqueueRemoveEntity_def
      enqueue_queues SetNeighborQuerier_def inv_ReconcileNeighborGhosts inv_ApplyEntity
      MigrateEntityOut_def MarkDisconnected_def MarkReconnected_def
      quiet_queues [OF quiet_boundary_ops(1)] quiet_queues [OF quiet_boundary_ops(2)]
      quiet_queues [OF quiet_boundary_ops(3)] quiet_queues [OF quiet_boundary_ops(4)] quiet_op_queues)

end
