(* ===== verification/Game_Events.thy ===== *)
theory Game_Events
  imports Game_Queues
begin

section \<open>What clients are told\<close>

text \<open>
  The events the simulation publishes: which entity may be shown to which (Space isolation), what
  an entity sees after a visibility update, and which events tell its client about the change.
\<close>

definition event_ok :: "Game \<Rightarrow> Event \<Rightarrow> bool" where
  \<comment> \<open>the event stays in one zone: its observer, if it is an entity, is there; its subject is an
      entity that is there, unless the event only withdraws an id; and it carries the zone's Space\<close>
  "event_ok g ev \<longleftrightarrow> (\<exists>z sim. fmlookup (g_Zones g) z = Some sim
     \<and> (fm_has (g_Entities g) (ev_Observer ev) \<longrightarrow> fmlookup (g_entityZone g) (ev_Observer ev) = Some z)
     \<and> (ev_Kind ev \<noteq> EventDespawn \<longrightarrow> fmlookup (g_entityZone g) (ev_EntityID ev) = Some z)
     \<and> (\<forall>zn. sim_zone sim = Some zn \<longrightarrow> z_RuntimeID zn \<noteq> '''' \<longrightarrow> ev_Space ev = z_RuntimeID zn))"

definition adds_events :: "(Event \<Rightarrow> bool) \<Rightarrow> Game \<Rightarrow> Game \<Rightarrow> bool" where
  "adds_events P b g \<longleftrightarrow> (\<exists>new. g_Events g = g_Events b @ new \<and> (\<forall>ev\<in>set new. P ev))"

lemma adds_refl [simp]: "adds_events P b b"
  by (simp add: adds_events_def)

lemma adds_trans: "adds_events P a b \<Longrightarrow> adds_events P b c \<Longrightarrow> adds_events P a c"
  unfolding adds_events_def by (metis append_assoc set_append UnE)

lemma adds_publish: "adds_events P b g \<Longrightarrow> P ev \<Longrightarrow> adds_events P b (publish ev g)"
  by (auto simp: adds_events_def publish_def metric_def go_simps)

lemma adds_frames [simp]:
  "adds_events P b (g\<lparr>g_ents := x1\<rparr>) = adds_events P b g" "adds_events P b (g\<lparr>g_actions := x2\<rparr>) = adds_events P b g"
  "adds_events P b (g\<lparr>g_entityAOI := x3\<rparr>) = adds_events P b g" "adds_events P b (g\<lparr>g_panic := x4\<rparr>) = adds_events P b g"
  by (simp_all add: adds_events_def)

lemma adds_base: "g_Events b' = g_Events b \<Longrightarrow> adds_events P b' g = adds_events P b g"
  by (simp add: adds_events_def)

lemma zcore_fields:
  assumes "zcore g' = zcore g"
  shows "g_Zones g' = g_Zones g" "g_Entities g' = g_Entities g" "g_entityZone g' = g_entityZone g"
    "g_ents g' = g_ents g" "g_aois g' = g_aois g" "g_aoiRadius g' = g_aoiRadius g"
  using assms by (simp_all add: zcore_def)

lemma event_ok_frame:
  "g_Zones g' = g_Zones g \<Longrightarrow> g_Entities g' = g_Entities g \<Longrightarrow> g_entityZone g' = g_entityZone g \<Longrightarrow>
   event_ok g' = event_ok g"
  by (simp add: event_ok_def fun_eq_iff)

lemma gcore_zcore: "gcore g' = gcore g \<Longrightarrow> zcore g' = zcore g"
  by (simp add: gcore_def)

lemma adds_fan_out:
  assumes "\<And>ob. ob \<in> set obs \<Longrightarrow> P (mk ob)"
  shows "adds_events P g (fan_out i mk obs g)"
proof -
  have "adds_events P b (fold (\<lambda>ob g. if ob = i then g else publish (mk ob) g) obs g)" if "adds_events P b g" for b
    by (rule fold_invariant_set [of "adds_events P b", OF that]) (use assms in \<open>simp add: adds_publish\<close>)
  then show ?thesis by (simp add: fan_out_def)
qed

lemma range_observer:
  assumes "game_inv g" "fmlookup (g_Zones g) z = Some sim"
    and "ob \<in> set (EntitiesInRange (g_aois g (sim_aoi sim)) p r)" "fm_has (g_Entities g) ob"
  shows "fmlookup (g_entityZone g) ob = Some z"
  using EntitiesInRange_in_cell [OF assms(3)] inv_cell [OF assms(1,2,4)] by blast

text \<open>Of the live entities, a range query on the grid of a zone finds exactly those of the zone in range.\<close>

lemma range_live:
  assumes inv: "game_inv g" and z: "fmlookup (g_Zones g) z = Some sim" and j: "fmlookup (g_Entities g) j = Some q"
  shows "j \<in> set (EntitiesInRange (g_aois g (sim_aoi sim)) p (g_aoiRadius g)) \<longleftrightarrow>
    fmlookup (g_entityZone g) j = Some z \<and> in_range p (g_aoiRadius g) (e_Position (g_ents g q))"
proof (cases "fmlookup (g_entityZone g) j = Some z")
  case True
  have "aoi_geo (g_aois g (sim_aoi sim))" "a_radius (g_aois g (sim_aoi sim)) = g_aoiRadius g"
    using inv_sim [OF inv z] by (simp_all add: sim_ok_def)
  moreover have "aoi_id_ok (g_aois g (sim_aoi sim)) j"
    "fmlookup (a_positions (g_aois g (sim_aoi sim))) j = Some (e_Position (g_ents g q))"
    by (rule inv_liveE [OF inv j]; use True z in auto)+
  ultimately show ?thesis using EntitiesInRange_id [of _ j "g_aoiRadius g"] inv_misc(3) [OF inv] True by simp
next
  case False
  then show ?thesis using range_observer [OF inv z] j by (auto simp: fm_has_def)
qed

lemma member_space:
  assumes "game_inv g" "fmlookup (g_Zones g) z = Some sim" "fmlookup (sim_entities sim) i = Some r"
    and "sim_zone sim = Some zn" "z_RuntimeID zn \<noteq> ''''"
  shows "e_RuntimeID (g_ents g r) = z_RuntimeID zn"
  using inv_sim [OF assms(1,2)] assms(3-5) unfolding sim_ok_def by blast

lemma enqueueMove_events:
  assumes inv: "game_inv g" and r: "fmlookup (g_Entities g) i = Some r"
  shows "adds_events (event_ok g) g (enqueueMove i pos g)"
proof (rule inv_liveE [OF inv r])
  fix z sim assume s: "fmlookup (g_entityZone g) i = Some z" "fmlookup (g_Zones g) z = Some sim"
    "fmlookup (sim_entities sim) i = Some r"
  have "event_ok g (move_event (e_RuntimeID (g_ents g r)) i pos ob)"
    if "ob \<in> set (EntitiesInRange (g_aois g (sim_aoi sim)) pos (g_aoiRadius g))" for ob
    unfolding event_ok_def
    by (rule exI [of _ z], rule exI [of _ sim])
      (use s range_observer [OF inv s(2) that] member_space [OF inv s(2,3)] in \<open>simp add: move_event_def\<close>)
  with s r show ?thesis by (simp add: enqueueMove_def Let_def adds_fan_out)
qed

lemma dispatch_state_events:
  assumes inv: "game_inv g"
  shows "adds_events (event_ok g) g (dispatch_state payload st g)"
proof (cases "fmlookup (g_Entities g) (es_entity_id st)")
  case (Some r)
  then show ?thesis
  proof (rule inv_liveE [OF inv])
    let ?i = "es_entity_id st"
    fix z sim assume s: "fmlookup (g_entityZone g) ?i = Some z" "fmlookup (g_Zones g) z = Some sim"
      "fmlookup (sim_entities sim) ?i = Some r" "e_ID (g_ents g r) = ?i"
    have "event_ok g (state_event (g_ents g r) payload ob)"
      if "ob \<in> set (EntitiesInRange (g_aois g (sim_aoi sim)) (e_Position (g_ents g r)) (g_aoiRadius g))" for ob
      unfolding event_ok_def
      by (rule exI [of _ z], rule exI [of _ sim])
        (use s range_observer [OF inv s(2) that] member_space [OF inv s(2,3)] in \<open>simp add: state_event_def\<close>)
    with s Some show ?thesis by (simp add: dispatch_state_def Let_def adds_fan_out)
  qed
qed (simp add: dispatch_state_def)

lemma aoi_move_fields [simp]:
  "g_Zones (aoi_move k i p g) = g_Zones g" "g_Entities (aoi_move k i p g) = g_Entities g"
  "g_entityZone (aoi_move k i p g) = g_entityZone g" "g_Events (aoi_move k i p g) = g_Events g"
  "g_ents (aoi_move k i p g) = g_ents g" "g_actions (aoi_move k i p g) = g_actions g"
  by (simp_all add: aoi_move_def split: option.split)

lemma moved_events:
  assumes "game_inv g" "fmlookup (g_Entities g) i = Some r" "same_identity (g_ents g r) e"
  shows "adds_events (event_ok g) g
    (enqueueMove i (e_Position e) (aoi_move i i (e_Position e) (g\<lparr>g_ents := (g_ents g)(r := e)\<rparr>)))"
proof -
  let ?g = "aoi_move i i (e_Position e) (g\<lparr>g_ents := (g_ents g)(r := e)\<rparr>)"
  have "adds_events (event_ok ?g) ?g (enqueueMove i (e_Position e) ?g)"
    by (rule enqueueMove_events [OF inv_move [OF assms]]) (simp add: assms(2))
  moreover have "event_ok ?g = event_ok g" by (rule event_ok_frame) simp_all
  ultimately show ?thesis using adds_base [of ?g g] by simp
qed

lemma dispatch_events:
  assumes inv: "game_inv g"
  shows "adds_events (event_ok g) g (dispatch c pkt g)"
proof -
  have "adds_events (event_ok g) g (dispatch_position pkt upd g)" for upd
  proof (cases "fmlookup (g_Entities g) (pkt_ClientID pkt)")
    case (Some r)
    have i: "e_ID (g_ents g r) = pkt_ClientID pkt" by (rule inv_liveE [OF inv Some])
    let ?e = "(g_ents g r)\<lparr>e_Position := case eu_position upd of Some p \<Rightarrow> p | None \<Rightarrow> vzero\<rparr>"
    have "same_identity (g_ents g r) ?e" using inv_misc(1) [OF inv] by (simp add: same_identity_def)
    from moved_events [OF inv Some this] Some i show ?thesis by (simp add: dispatch_position_def Let_def)
  qed (simp add: dispatch_position_def)
  moreover have "adds_events (event_ok g) g (dispatch_action pkt act g)" for act
    by (simp add: dispatch_action_def split: option.split)
  ultimately show ?thesis
    using dispatch_state_events [OF inv]
    by (simp add: dispatch_def split: prod.split option.split sum.split)
qed

lemma simulate_one_events:
  assumes inv: "game_inv g"
  shows "adds_events (event_ok g) g (simulate_one rnd dt i g)"
proof (cases "fmlookup (g_Entities g) i")
  case (Some r)
  show ?thesis
  proof (cases "e_Lifecycle (g_ents g r)")
    case None
    with Some show ?thesis by (simp add: simulate_one_def)
  next
    case l: (Some l)
    have "lifecycle_ok (Some l)" using inv_misc(1) [OF inv, of r] l by simp
    from OnSimulate_ok [OF this, of "rnd i" "g_ents g r" dt] l
    obtain e where e: "OnSimulate (rnd i) l (g_ents g r) dt = Some e" "lifecycle_ok (e_Lifecycle e)" by auto
    have "same_identity (g_ents g r) e" using OnSimulate_frame [OF e(1)] e(2) by (simp add: same_identity_def)
    from moved_events [OF inv Some this] e Some l show ?thesis
      by (simp add: simulate_one_def Let_def)
  qed
qed (simp add: simulate_one_def)

definition same_zones :: "Game \<Rightarrow> Game \<Rightarrow> bool" where
  "same_zones a b \<longleftrightarrow> g_Zones b = g_Zones a \<and> g_Entities b = g_Entities a \<and> g_entityZone b = g_entityZone a"

lemma same_zones_core: "gcore b = gcore a \<Longrightarrow> same_zones a b"
  by (simp add: same_zones_def gcore_def zcore_def)

lemma same_zones_simulate_one: "same_zones g (simulate_one rnd dt i g)"
proof -
  have "same_zones h (enqueueMove j p h)" for h j p by (rule same_zones_core) simp
  then show ?thesis
    by (auto simp: simulate_one_def Let_def same_zones_def split: option.split)
qed

lemma fold_events:
  assumes inv: "game_inv g"
    and step: "\<And>x h. x \<in> set xs \<Longrightarrow> game_inv h \<Longrightarrow> same_zones g h \<Longrightarrow>
      game_inv (f x h) \<and> same_zones h (f x h) \<and> adds_events (event_ok h) h (f x h)"
  shows "adds_events (event_ok g) g (fold f xs g) \<and> same_zones g (fold f xs g) \<and> game_inv (fold f xs g)"
proof -
  let ?I = "\<lambda>h. adds_events (event_ok g) g h \<and> same_zones g h \<and> game_inv h"
  have "?I (f x h)" if "?I h" "x \<in> set xs" for x h
  proof -
    have ok: "event_ok h = event_ok g" by (rule event_ok_frame) (use that in \<open>simp_all add: same_zones_def\<close>)
    from step [OF that(2), of h] that ok
    have "game_inv (f x h)" "same_zones h (f x h)" "adds_events (event_ok g) h (f x h)" by simp_all
    with that show ?thesis using adds_trans by (auto simp: same_zones_def)
  qed
  then show ?thesis using fold_invariant_set [of ?I g xs f] inv by (simp add: same_zones_def)
qed

lemma simulate_events: "game_inv g \<Longrightarrow> adds_events (event_ok g) g (simulate ord rnd dt g)"
  unfolding simulate_def
  using fold_events [of g _ "simulate_one rnd dt"] inv_simulate_one simulate_one_events same_zones_simulate_one
  by blast

subsection \<open>Visibility\<close>

definition seen_from :: "Game \<Rightarrow> zoneSim \<Rightarrow> nat \<Rightarrow> EntityID list" where
  \<comment> \<open>the ids in range of an entity of a zone\<close>
  "seen_from g sim r = EntitiesInRange (g_aois g (sim_aoi sim)) (e_Position (g_ents g r)) (g_aoiRadius g)"

definition watch_state :: "Game \<Rightarrow> Entity \<Rightarrow> entityAOIState" where
  "watch_state g e = (case fmlookup (g_entityAOI g) (e_ID e) of Some st \<Rightarrow> st
     | None \<Rightarrow> \<lparr>as_visible = {||}, as_lastPosition = e_Position e\<rparr>)"

lemma visibility_one_eq:
  assumes "fmlookup (g_Zones g) z = Some sim" "fmlookup (sim_entities sim) i = Some r"
  shows "visibility_one ord z i g =
    (let e = g_ents g r; cur = fset_of_list (seen_from g sim r); vis = as_visible (watch_state g e);
         h = fold (publish_spawn e vis) (ord (''current:'' @ i) (fset cur)) g;
         h = fold (publish_despawn e cur) (ord (''visible:'' @ i) (fset vis)) h
     in h\<lparr>g_entityAOI := fmupd (e_ID e) \<lparr>as_visible = cur, as_lastPosition = e_Position e\<rparr> (g_entityAOI h)\<rparr>)"
  using assms by (simp add: visibility_one_def seen_from_def watch_state_def Let_def)

lemma publish_spawn_core [simp]: "gcore (publish_spawn e vis i g) = gcore g"
  "gcore (publish_despawn e cur i g) = gcore g" "g_entityAOI (publish_spawn e vis i g) = g_entityAOI g"
  "g_entityAOI (publish_despawn e cur i g) = g_entityAOI g"
  by (simp_all add: publish_spawn_def publish_despawn_def publish_def metric_def split: option.split)
    (simp_all add: gcore_def zcore_def)

lemma fold_events_core:
  assumes "\<And>x h. gcore (f x h) = gcore h"
    and "\<And>x h. x \<in> set xs \<Longrightarrow> gcore h = gcore g \<Longrightarrow> adds_events P h (f x h)"
  shows "adds_events P g (fold f xs g)"
proof -
  have "adds_events P g (fold f xs h)" if "gcore h = gcore g" "adds_events P g h" for h
    using assms(2) that
  proof (induction xs arbitrary: h)
    case (Cons x xs)
    then have "adds_events P g (f x h)" using adds_trans by (metis list.set_intros(1))
    with Cons show ?case using assms(1) by simp
  qed simp
  then show ?thesis by simp
qed

lemma visibility_one_events:
  assumes inv: "game_inv g" and z: "fmlookup (g_Zones g) z = Some sim" "fmlookup (sim_entities sim) i = Some r"
    and ord: "\<And>l. is_order (ord l)"
  shows "adds_events (event_ok g) g (visibility_one ord z i g)"
proof -
  let ?e = "g_ents g r" and ?cur = "fset_of_list (seen_from g sim r)"
  have i: "e_ID ?e = i" using inv_sim [OF inv z(1)] z(2) unfolding sim_ok_def by blast
  have obs: "fm_has (g_Entities g) i \<Longrightarrow> fmlookup (g_entityZone g) i = Some z"
    using inv_member [OF inv z(1)] z(2) by (simp add: fm_has_def)
  note space = member_space [OF inv z]
  have spawn: "adds_events (event_ok g) h (publish_spawn ?e vis j h)"
    if "j |\<in>| ?cur" "gcore h = gcore g" for j h vis
  proof (cases "j |\<notin>| vis \<and> j \<noteq> i")
    case True
    have f: "g_Entities h = g_Entities g" "g_ents h = g_ents g"
      using zcore_fields [OF gcore_zcore [OF that(2)]] by simp_all
    show ?thesis
    proof (cases "fmlookup (g_Entities g) j")
      case (Some q)
      have "fmlookup (g_entityZone g) j = Some z"
        using range_observer [OF inv z(1)] that(1) Some
        by (simp add: seen_from_def fset_of_list_elem fm_has_def)
      moreover have "e_ID (g_ents g q) = j" by (rule inv_liveE [OF inv Some])
      ultimately have "event_ok g (spawn_event ?e (g_ents g q))"
        unfolding event_ok_def
        by (intro exI [of _ z] exI [of _ sim]) (simp add: z obs i space spawn_event_def)
      with Some True f i show ?thesis by (simp add: publish_spawn_def adds_publish)
    qed (use True f i in \<open>simp add: publish_spawn_def\<close>)
  qed (use i in \<open>auto simp: publish_spawn_def\<close>)
  have despawn: "adds_events (event_ok g) h (publish_despawn ?e cur j h)" for j h cur
  proof -
    have "event_ok g (despawn_event ?e j)" unfolding event_ok_def
      by (intro exI [of _ z] exI [of _ sim]) (simp add: z obs i space despawn_event_def)
    then show ?thesis by (simp add: publish_despawn_def adds_publish)
  qed
  have "adds_events (event_ok g) g (fold (publish_spawn ?e vis) (ord (''current:'' @ i) (fset ?cur)) g)" for vis
    by (rule fold_events_core) (use spawn ord in simp_all)
  moreover have "adds_events (event_ok g) h (fold (publish_despawn ?e ?cur) xs h)" for h xs
    by (rule fold_events_core) (simp_all add: despawn)
  ultimately show ?thesis
    unfolding visibility_one_eq [OF z] Let_def by (simp, blast intro: adds_trans)
qed

lemma updateVisibility_events:
  assumes inv: "game_inv g" and ord: "\<And>l. is_order (ord l)"
  shows "adds_events (event_ok g) g (updateVisibility ord z g)"
proof (cases "fmlookup (g_Zones g) z")
  case (Some sim)
  have step: "game_inv (visibility_one ord z i h) \<and> same_zones h (visibility_one ord z i h)
      \<and> adds_events (event_ok h) h (visibility_one ord z i h)"
    if "i \<in> set (ord ''entities'' (fmdom' (sim_entities sim)))" "game_inv h" "same_zones g h" for i h
  proof -
    have "i \<in> fmdom' (sim_entities sim)" using that(1) ord by simp
    then obtain r where "fmlookup (sim_entities sim) i = Some r" by (auto simp: fmlookup_dom'_iff)
    with that Some ord show ?thesis
      using visibility_one_events [of h z sim i r ord] game_inv_core [OF gcore_visibility_one]
        same_zones_core [OF gcore_visibility_one] by (simp add: same_zones_def)
  qed
  have "adds_events (event_ok g) g (fold (visibility_one ord z) (ord ''entities'' (fmdom' (sim_entities sim))) g)"
    by (rule fold_events [OF inv step, THEN conjunct1])
  with Some show ?thesis by (simp add: updateVisibility_def)
qed (simp add: updateVisibility_def)

lemma visibility_one_AOI:
  assumes "fmlookup (g_Zones g) z = Some sim" "fmlookup (sim_entities sim) i = Some r"
  shows "g_entityAOI (visibility_one ord z i g) = fmupd (e_ID (g_ents g r))
    \<lparr>as_visible = fset_of_list (seen_from g sim r), as_lastPosition = e_Position (g_ents g r)\<rparr> (g_entityAOI g)"
proof -
  have "g_entityAOI (fold (publish_spawn e vis) xs h) = g_entityAOI h"
    "g_entityAOI (fold (publish_despawn e cur) xs h) = g_entityAOI h" for e vis cur xs h
    by (induction xs arbitrary: h) simp_all
  then show ?thesis by (simp add: visibility_one_eq [OF assms] Let_def)
qed

lemma updateVisibility_AOI:
  assumes inv: "game_inv g" and z: "fmlookup (g_Zones g) z = Some sim" "fmlookup (sim_entities sim) i = Some r"
    and ord: "\<And>l. is_order (ord l)"
  shows "fmlookup (g_entityAOI (updateVisibility ord z g)) i =
    Some \<lparr>as_visible = fset_of_list (seen_from g sim r), as_lastPosition = e_Position (g_ents g r)\<rparr>"
proof -
  have "fmlookup (g_entityAOI (fold (visibility_one ord z) xs h)) i =
      (if i \<in> set xs then Some \<lparr>as_visible = fset_of_list (seen_from g sim r), as_lastPosition = e_Position (g_ents g r)\<rparr>
       else fmlookup (g_entityAOI h) i)"
    if "gcore h = gcore g" "set xs \<subseteq> fmdom' (sim_entities sim)" for xs h
    using that
  proof (induction xs arbitrary: h)
    case (Cons j xs)
    note f = zcore_fields [OF gcore_zcore [OF Cons.prems(1)]]
    obtain q where q: "fmlookup (sim_entities sim) j = Some q" using Cons.prems(2) by (auto simp: fmlookup_dom'_iff)
    then have "e_ID (g_ents g q) = j" using inv_sim [OF inv z(1)] unfolding sim_ok_def by blast
    with visibility_one_AOI [of h z sim j q] z q f
    have aoi: "g_entityAOI (visibility_one ord z j h) = fmupd j \<lparr>as_visible = fset_of_list (seen_from g sim q),
        as_lastPosition = e_Position (g_ents g q)\<rparr> (g_entityAOI h)" by (simp add: seen_from_def)
    have "gcore (visibility_one ord z j h) = gcore g" using Cons.prems(1) by simp
    from Cons.IH [OF this] Cons.prems(2) aoi q z(2) show ?case by (cases "i = j") simp_all
  qed simp
  moreover have "i \<in> fmdom' (sim_entities sim)" using z(2) by (simp add: fmlookup_dom'_iff)
  ultimately show ?thesis using z(1) ord by (simp add: updateVisibility_def)
qed


subsection \<open>Exactly which events\<close>

lemma publish_room: "length (g_Events g) < InboxBufferSize \<Longrightarrow> g_Events (publish ev g) = g_Events g @ [ev]"
  by (simp add: publish_def metric_def go_simps)

lemma publish_fields [simp]: "g_Entities (publish ev g) = g_Entities g" "g_ents (publish ev g) = g_ents g"
  "g_entityAOI (publish ev g) = g_entityAOI g"
  by (simp_all add: publish_def metric_def)

lemma spawn_fold:
  "length (g_Events g) + length xs \<le> InboxBufferSize \<Longrightarrow>
   g_Events (fold (publish_spawn e vis) xs g) = g_Events g @
     map (\<lambda>j. spawn_event e (g_ents g (the (fmlookup (g_Entities g) j))))
       (filter (\<lambda>j. j |\<notin>| vis \<and> j \<noteq> e_ID e \<and> fm_has (g_Entities g) j) xs)"
proof (induction xs arbitrary: g)
  case (Cons j xs)
  show ?case
  proof (cases "j |\<notin>| vis \<and> j \<noteq> e_ID e \<and> fm_has (g_Entities g) j")
    case True
    then obtain q where q: "fmlookup (g_Entities g) j = Some q" by (auto simp: fm_has_def)
    with True have p: "publish_spawn e vis j g = publish (spawn_event e (g_ents g q)) g"
      by (simp add: publish_spawn_def)
    have "length (g_Events (publish (spawn_event e (g_ents g q)) g)) + length xs \<le> 4096"
      using Cons.prems by (simp add: publish_room)
    from Cons.IH [OF this] True q p Cons.prems show ?thesis by (simp add: publish_room)
  next
    case False
    then have "publish_spawn e vis j g = g" by (auto simp: publish_spawn_def fm_has_def)
    with Cons False show ?thesis by simp
  qed
qed simp

lemma despawn_fold:
  "length (g_Events g) + length xs \<le> InboxBufferSize \<Longrightarrow>
   g_Events (fold (publish_despawn e cur) xs g) = g_Events g @ map (despawn_event e) (filter (\<lambda>j. j |\<notin>| cur) xs)"
proof (induction xs arbitrary: g)
  case (Cons j xs)
  show ?case
  proof (cases "j |\<notin>| cur")
    case True
    then have p: "publish_despawn e cur j g = publish (despawn_event e j) g" by (simp add: publish_despawn_def)
    have "length (g_Events (publish (despawn_event e j) g)) + length xs \<le> 4096"
      using Cons.prems by (simp add: publish_room)
    from Cons.IH [OF this] True p Cons.prems show ?thesis by (simp add: publish_room)
  next
    case False
    with Cons show ?thesis by (simp add: publish_despawn_def)
  qed
qed simp

lemma length_order: "is_order ord \<Longrightarrow> length (ord (fset S)) = fcard S"
  by (metis distinct_card fcard.rep_eq finite_fset is_orderD is_order_distinct)

lemma visibility_one_exact:
  assumes inv: "game_inv g" and z: "fmlookup (g_Zones g) z = Some sim" "fmlookup (sim_entities sim) i = Some r"
    and ord: "\<And>l. is_order (ord l)"
    and room: "length (g_Events g) + length (seen_from g sim r) + fcard (as_visible (watch_state g (g_ents g r))) \<le> InboxBufferSize"
  shows "\<exists>new. g_Events (visibility_one ord z i g) = g_Events g @ new \<and> distinct new \<and> set new =
    {spawn_event (g_ents g r) (g_ents g q) | j q. j \<in> set (seen_from g sim r) \<and> j |\<notin>| as_visible (watch_state g (g_ents g r))
        \<and> j \<noteq> e_ID (g_ents g r) \<and> fmlookup (g_Entities g) j = Some q}
    \<union> {despawn_event (g_ents g r) j | j. j |\<in>| as_visible (watch_state g (g_ents g r)) \<and> j \<notin> set (seen_from g sim r)}"
proof -
  define e where "e = g_ents g r"
  define vis where "vis = as_visible (watch_state g e)"
  define cur where "cur = fset_of_list (seen_from g sim r)"
  define xs where "xs = ord (''current:'' @ i) (fset cur)"
  define ys where "ys = ord (''visible:'' @ i) (fset vis)"
  define g1 where "g1 = fold (publish_spawn e vis) xs g"
  let ?P = "\<lambda>j. j |\<notin>| vis \<and> j \<noteq> e_ID e \<and> fm_has (g_Entities g) j" and ?ent = "\<lambda>j. g_ents g (the (fmlookup (g_Entities g) j))"
  let ?new = "map (\<lambda>j. spawn_event e (?ent j)) (filter ?P xs) @ map (despawn_event e) (filter (\<lambda>j. j |\<notin>| cur) ys)"
  have "fcard cur \<le> length (seen_from g sim r)" unfolding cur_def
    by (simp add: fcard.rep_eq fset_of_list.rep_eq card_length)
  then have len: "length (g_Events g) + length xs + length ys \<le> 4096"
    using room ord by (simp add: xs_def ys_def length_order vis_def e_def)
  have ev1: "g_Events g1 = g_Events g @ map (\<lambda>j. spawn_event e (?ent j)) (filter ?P xs)"
    unfolding g1_def by (rule spawn_fold) (use len in simp)
  have "length (g_Events g1) = length (g_Events g) + length (filter ?P xs)" by (simp add: ev1)
  with len length_filter_le [of ?P xs] have "length (g_Events g1) + length ys \<le> 4096" by linarith
  then have "g_Events (fold (publish_despawn e cur) ys g1) = g_Events g1 @ map (despawn_event e) (filter (\<lambda>j. j |\<notin>| cur) ys)"
    by (rule despawn_fold)
  then have ev: "g_Events (visibility_one ord z i g) = g_Events g @ ?new"
    unfolding visibility_one_eq [OF z] Let_def e_def [symmetric] vis_def [symmetric] cur_def [symmetric]
      xs_def [symmetric] ys_def [symmetric] g1_def [symmetric] using ev1 by simp
  have sets: "set xs = fset cur" "set ys = fset vis" "distinct xs" "distinct ys"
    using ord by (simp_all add: xs_def ys_def)
  have "e_ID (?ent j) = j" if "fm_has (g_Entities g) j" for j
    using that inv_liveE [OF inv] by (auto simp: fm_has_def)
  then have "inj_on (\<lambda>j. spawn_event e (?ent j)) (set (filter ?P xs))"
    by (auto simp: inj_on_def spawn_event_def)
  then have "distinct ?new"
    using sets by (auto simp: distinct_map inj_on_def despawn_event_def spawn_event_def)
  moreover have "set ?new = {spawn_event e (g_ents g q) | j q. j |\<in>| cur \<and> j |\<notin>| vis \<and> j \<noteq> e_ID e \<and> fmlookup (g_Entities g) j = Some q}
      \<union> {despawn_event e j | j. j |\<in>| vis \<and> j |\<notin>| cur}"
    using sets by (fastforce simp: fm_has_def image_iff)
  ultimately show ?thesis
    using ev unfolding e_def vis_def cur_def by (auto simp: fset_of_list_elem)
qed

end
