(* ===== verification/Game_Props.thy ===== *)
theory Game_Props
  imports Game_Events
begin

section \<open>Properties of the simulation\<close>

text \<open>
  The statements about the simulation, over reachable states (\<open>game_reach\<close>) where they need the
  invariant. \<open>demo2\<close> is a small reachable state, a zone with two avatars, used to show that the
  hypotheses can be met.
\<close>

definition demo_zone :: Zone where
  "demo_zone = zone_New ''r1:0:0'' ''r1'' 0 0 100"

definition demo_avatar :: "EntityID \<Rightarrow> float64 \<Rightarrow> Entity" where
  "demo_avatar i x = (entity_New i ''avatar'' '''')\<lparr>e_ZoneID := ''r1:0:0'', e_OwnerID := i,
     e_Position := \<lparr>vX = x, vY = 0, vZ = 0\<rparr>\<rparr>"

definition demo0 :: Game where
  "demo0 = projr (AssignZone demo_zone (game_New ''gs1''))"

definition demo1 :: Game where
  "demo1 = addEntity (demo_avatar ''a'' 10) demo0"

definition demo2 :: Game where
  "demo2 = addEntity (demo_avatar ''b'' 20) demo1"

lemma demo_ids [simp]: "plain_id ''a''" "plain_id ''b''"
  by (simp_all add: plain_id_def)

lemma demo_avatar_simps [simp]:
  "e_ID (demo_avatar i x) = i" "e_ZoneID (demo_avatar i x) = ''r1:0:0''" "e_Lifecycle (demo_avatar i x) = None"
  "e_Position (demo_avatar i x) = \<lparr>vX = x, vY = 0, vZ = 0\<rparr>" "e_OwnerID (demo_avatar i x) = i"
  "entity_zone (demo_avatar i x) = ''r1:0:0''" "e_Type (demo_avatar i x) = ''avatar''"
  by (simp_all add: demo_avatar_def entity_New_def entity_zone_def)

lemma demo_zone_simps [simp]: "z_ID demo_zone = ''r1:0:0''" "z_RuntimeID demo_zone = ''r1''"
  by (simp_all add: demo_zone_def zone_New_def)

lemma demo0_assign: "AssignZone demo_zone (game_New ''gs1'') = Inr demo0"
  by (simp add: demo0_def AssignZone_def game_New_def Let_def)

lemma demo0_fields [simp]:
  "g_Zones demo0 = fmupd ''r1:0:0'' \<lparr>sim_zone = Some demo_zone, sim_aoi = 0, sim_entities = fmempty\<rparr> fmempty"
  "g_aois demo0 0 = aoi_New 100 300" "g_nextEnt demo0 = 0" "g_nextAOI demo0 = 1" "g_Entities demo0 = fmempty"
  "g_entityZone demo0 = fmempty" "g_aoiRadius demo0 = 300" "g_Events demo0 = []" "g_Inbox demo0 = []" "g_cmds demo0 = []"
  "g_entityAOI demo0 = fmempty" "g_aoiIndex demo0 = fmupd ''r1:0:0'' 0 fmempty" "g_sessionStates demo0 = fmempty"
  "g_ghosts demo0 = fmempty" "g_reconnectWindow demo0 = 30 * Second" "g_tickRate demo0 = 50 * Millisecond"
  "g_ghostTTL demo0 = 5 * Second" "g_lastTickAt demo0 = 0"
  by (simp_all add: demo0_def AssignZone_def game_New_def Let_def)

lemma demo1_fields [simp]:
  "g_Zones demo1 = fmupd ''r1:0:0'' \<lparr>sim_zone = Some demo_zone, sim_aoi = 0, sim_entities = fmupd ''a'' 0 fmempty\<rparr> fmempty"
  "g_aois demo1 0 = aoi_Enter ''a'' \<lparr>vX = 10, vY = 0, vZ = 0\<rparr> (aoi_New 100 300)" "g_nextEnt demo1 = 1"
  "g_Entities demo1 = fmupd ''a'' 0 fmempty" "g_entityZone demo1 = fmupd ''a'' ''r1:0:0'' fmempty"
  "g_ents demo1 0 = (demo_avatar ''a'' 10)\<lparr>e_RuntimeID := ''r1''\<rparr>" "g_aoiRadius demo1 = 300" "g_Events demo1 = []"
  "g_Inbox demo1 = []" "g_cmds demo1 = []" "g_aoiIndex demo1 = fmupd ''r1:0:0'' 0 fmempty" "g_sessionStates demo1 = fmempty"
  "g_ghosts demo1 = fmempty" "g_reconnectWindow demo1 = 30 * Second"
  "g_entityAOI demo1 = fmupd ''a'' \<lparr>as_visible = {||}, as_lastPosition = \<lparr>vX = 10, vY = 0, vZ = 0\<rparr>\<rparr> fmempty"
  by (simp_all add: demo1_def addEntity_def ensure_sim_def derive_space_def Let_def fmupd_idem)

lemma demo2_fields [simp]:
  "g_Zones demo2 = fmupd ''r1:0:0'' \<lparr>sim_zone = Some demo_zone, sim_aoi = 0,
     sim_entities = fmupd ''b'' 1 (fmupd ''a'' 0 fmempty)\<rparr> fmempty"
  "g_aois demo2 0 = aoi_Enter ''b'' \<lparr>vX = 20, vY = 0, vZ = 0\<rparr> (aoi_Enter ''a'' \<lparr>vX = 10, vY = 0, vZ = 0\<rparr> (aoi_New 100 300))"
  "g_Entities demo2 = fmupd ''b'' 1 (fmupd ''a'' 0 fmempty)"
  "g_entityZone demo2 = fmupd ''b'' ''r1:0:0'' (fmupd ''a'' ''r1:0:0'' fmempty)"
  "g_ents demo2 0 = (demo_avatar ''a'' 10)\<lparr>e_RuntimeID := ''r1''\<rparr>"
  "g_ents demo2 1 = (demo_avatar ''b'' 20)\<lparr>e_RuntimeID := ''r1''\<rparr>" "g_aoiRadius demo2 = 300" "g_Events demo2 = []"
  "g_Inbox demo2 = []" "g_cmds demo2 = []" "g_aoiIndex demo2 = fmupd ''r1:0:0'' 0 fmempty" "g_sessionStates demo2 = fmempty"
  "g_ghosts demo2 = fmempty" "g_reconnectWindow demo2 = 30 * Second"
  by (simp_all add: demo2_def addEntity_def ensure_sim_def derive_space_def Let_def fmupd_idem)

lemma demo2_ent [simp]: "g_ents demo2 (Suc 0) = (demo_avatar ''b'' 20)\<lparr>e_RuntimeID := ''r1''\<rparr>"
  using demo2_fields(6) by simp

lemma demo1_reach: "game_reach demo1"
  unfolding demo1_def
  by (rule reach_add [OF reach_assign [OF reach_new demo0_assign]]) (simp add: fresh_id_def)

lemma demo2_reach: "game_reach demo2"
  unfolding demo2_def by (rule reach_add [OF demo1_reach]) (simp add: fresh_id_def in_cell_Enter)

subsection \<open>Where entities are\<close>



text \<open>
  C6. Space isolation: in every reachable state, every entity held by a zone that belongs to a
  Space carries that Space's id, whatever id it was added or migrated with.
\<close>

theorem space_isolation:
  assumes "game_reach g" and "fmlookup (g_Zones g) z = Some sim" and "sim_zone sim = Some zn"
    and "z_RuntimeID zn \<noteq> ''''" and "fmlookup (sim_entities sim) i = Some r"
  shows "e_RuntimeID (g_ents g r) = z_RuntimeID zn"
  using game_reach_ok [OF assms(1)] member_space assms(2-5) by blast

theorem space_isolation_witness: "e_RuntimeID (g_ents demo2 1) = z_RuntimeID demo_zone"
proof -
  have "fmlookup (g_Zones demo2) ''r1:0:0'' = Some \<lparr>sim_zone = Some demo_zone, sim_aoi = 0,
      sim_entities = fmupd ''b'' 1 (fmupd ''a'' 0 fmempty)\<rparr>" by simp
  from space_isolation [OF demo2_reach this, of demo_zone "''b''" 1] show ?thesis by simp
qed



text \<open>
  C8. Visibility is exact: after the visibility update of a zone, the set stored for each entity
  of the zone holds, of the live entities, exactly those of the same zone within the AOI radius of
  it, and the position remembered is its current one.
\<close>

theorem visibility_exact:
  assumes "game_reach g" and "\<And>l. is_order (ord l)"
    and "fmlookup (g_entityZone g) i = Some z" and "fmlookup (g_Entities g) i = Some r"
  shows "\<exists>st. fmlookup (g_entityAOI (updateVisibility ord z g)) i = Some st
    \<and> as_lastPosition st = e_Position (g_ents g r)
    \<and> (\<forall>j q. fmlookup (g_Entities g) j = Some q \<longrightarrow>
         (j |\<in>| as_visible st \<longleftrightarrow> fmlookup (g_entityZone g) j = Some z
            \<and> in_range (e_Position (g_ents g r)) (g_aoiRadius g) (e_Position (g_ents g q))))"
proof -
  have inv: "game_inv g" using game_reach_ok [OF assms(1)] by simp
  obtain sim where s: "fmlookup (g_Zones g) z = Some sim" "fmlookup (sim_entities sim) i = Some r"
    by (rule inv_liveE [OF inv assms(4)]) (use assms(3) in auto)
  have "j \<in> set (seen_from g sim r) \<longleftrightarrow> fmlookup (g_entityZone g) j = Some z
      \<and> in_range (e_Position (g_ents g r)) (g_aoiRadius g) (e_Position (g_ents g q))"
    if j: "fmlookup (g_Entities g) j = Some q" for j q
    using range_live [OF inv s(1) j] by (simp add: seen_from_def)
  then show ?thesis
    using updateVisibility_AOI [OF inv s, of ord, OF assms(2)] by (auto simp: fset_of_list_elem)
qed

theorem visibility_exact_witness:
  "\<exists>st. fmlookup (g_entityAOI (updateVisibility (\<lambda>_. sorted_list_of_set) ''r1:0:0'' demo2)) ''a'' = Some st
     \<and> ''b'' |\<in>| as_visible st"
proof -
  have "fmlookup (g_entityZone demo2) ''a'' = Some ''r1:0:0''" "fmlookup (g_Entities demo2) ''a'' = Some 0"
    and b: "fmlookup (g_Entities demo2) ''b'' = Some 1" by simp_all
  from visibility_exact [OF demo2_reach, of "\<lambda>_. sorted_list_of_set", OF is_order_sorted this(1,2)] b show ?thesis
    by (auto simp: in_range_def)
qed

text \<open>
  C9. The client of an entity is told exactly what changed: when the event queue has room, the
  visibility step of an entity appends one spawn event for each live entity that is now in range,
  was not visible before and is not the entity itself, one despawn event for each id that was
  visible and is no longer in range, each once, and nothing else.
\<close>

theorem visibility_events_exact:
  assumes "game_reach g" and "\<And>l. is_order (ord l)"
    and "fmlookup (g_Zones g) z = Some sim" and "fmlookup (sim_entities sim) i = Some r"
    and "length (g_Events g) + length (seen_from g sim r) + fcard (as_visible (watch_state g (g_ents g r))) \<le> 4096"
  shows "\<exists>new. g_Events (visibility_one ord z i g) = g_Events g @ new \<and> distinct new \<and> set new =
    {spawn_event (g_ents g r) (g_ents g q) | j q. j \<in> set (seen_from g sim r)
        \<and> j |\<notin>| as_visible (watch_state g (g_ents g r))
        \<and> j \<noteq> e_ID (g_ents g r) \<and> fmlookup (g_Entities g) j = Some q}
    \<union> {despawn_event (g_ents g r) j | j. j |\<in>| as_visible (watch_state g (g_ents g r)) \<and> j \<notin> set (seen_from g sim r)}"
proof -
  have inv: "game_inv g" using game_reach_ok [OF assms(1)] by simp
  show ?thesis using visibility_one_exact [OF inv assms(3,4), of ord, OF assms(2)] assms(5) by simp
qed

lemma demo2_seen:
  "seen_from demo2 \<lparr>sim_zone = Some demo_zone, sim_aoi = 0, sim_entities = fmupd ''b'' 1 (fmupd ''a'' 0 fmempty)\<rparr> 0
     = [''a'', ''b'']"
proof -
  let ?A = "g_aois demo2 0"
  have "aoi_inv ?A" by (simp add: aoi_inv_Enter aoi_inv_New)
  from EntitiesInRange_exact [OF this, of 300 "e_Position (g_ents demo2 0)"]
  have "EntitiesInRange ?A (e_Position (g_ents demo2 0)) 300 = sorted_list_of_set
     {i. \<exists>p. fmlookup (a_positions ?A) i = Some p \<and> in_range (e_Position (g_ents demo2 0)) 300 p}" by simp
  also have "{i. \<exists>p. fmlookup (a_positions ?A) i = Some p \<and> in_range (e_Position (g_ents demo2 0)) 300 p} = {''a'', ''b''}"
    by (auto simp: in_range_def split: if_splits)
  also have "sorted_list_of_set {''a'', ''b''} = [''a'', ''b'']" by simp
  finally show ?thesis by (simp add: seen_from_def)
qed

theorem visibility_events_exact_witness:
  "\<exists>ev \<in> set (g_Events (visibility_one (\<lambda>_. sorted_list_of_set) ''r1:0:0'' ''a'' demo2)).
     ev_Kind ev = EventSpawn \<and> ev_Observer ev = ''a'' \<and> ev_EntityID ev = ''b''"
proof -
  let ?sim = "\<lparr>sim_zone = Some demo_zone, sim_aoi = 0, sim_entities = fmupd ''b'' 1 (fmupd ''a'' 0 fmempty)\<rparr>"
  have z: "fmlookup (g_Zones demo2) ''r1:0:0'' = Some ?sim" "fmlookup (sim_entities ?sim) ''a'' = Some 0" by simp_all
  have w: "as_visible (watch_state demo2 (g_ents demo2 0)) = {||}"
    by (simp add: watch_state_def demo2_def addEntity_def ensure_sim_def Let_def)
  from visibility_events_exact [OF demo2_reach, of "\<lambda>_. sorted_list_of_set", OF is_order_sorted z]
  obtain new where new: "g_Events (visibility_one (\<lambda>_. sorted_list_of_set) ''r1:0:0'' ''a'' demo2) = new"
    "{spawn_event (g_ents demo2 0) (g_ents demo2 q) | j q. j \<in> {''a'', ''b''} \<and> j \<noteq> ''a''
        \<and> fmlookup (g_Entities demo2) j = Some q} \<subseteq> set new"
    using demo2_seen w by (auto simp: fcard.rep_eq)
  have "spawn_event (g_ents demo2 0) (g_ents demo2 1) \<in> set new"
    by (rule subsetD [OF new(2)], rule CollectI, rule exI [of _ "''b''"], rule exI [of _ 1]) simp
  then show ?thesis using new(1) by (intro bexI [of _ "spawn_event (g_ents demo2 0) (g_ents demo2 1)"])
    (simp_all add: spawn_event_def)
qed


subsection \<open>The tick\<close>

text \<open>
  C11. Backpressure: a tick takes the 1024 oldest packets of the inbox and leaves the rest in
  order, runs every queued command (the queue holds at most 256), only appends to the event queue
  and never beyond its 4096 slots, counts each queued event with exactly one metric call, and
  simulates at most 250 ms however long the pause before it was, never a negative time when the
  clock did not run backwards.
\<close>

theorem tick_backpressure:
  assumes "game_reach g"
  shows "g_Inbox (game_tick c json env g) = drop 1024 (g_Inbox g)
    \<and> g_cmds (game_tick c json env g) = []
    \<and> (\<exists>new. g_Events (game_tick c json env g) = g_Events g @ new
        \<and> ev_count (g_metrics (game_tick c json env g)) = ev_count (g_metrics g) + length new)
    \<and> length (g_Events (game_tick c json env g)) \<le> 4096
    \<and> tick_delta now g \<le> 250 * Millisecond \<and> (g_lastTickAt g \<le> now \<longrightarrow> 0 \<le> tick_delta now g)"
proof -
  have "queues_ok g" using game_reach_ok [OF assms] by simp
  moreover have "tick_delta now g \<le> 250 * Millisecond" "g_lastTickAt g \<le> now \<longrightarrow> 0 \<le> tick_delta now g"
    by (auto simp: tick_delta_def Let_def time_Sub_nonneg)
  ultimately show ?thesis
    using tick_queues [of g c json env] by (auto simp: quiet_def queues_ok_def)
qed

theorem tick_backpressure_witness:
  "\<forall>c json env. g_cmds (game_tick c json env (EnqueueRemoveEntity ''a'' demo2)) = []"
  using tick_backpressure [OF reach_enqueue_remove [OF demo2_reach]] by blast

text \<open>
  C10. A packet only moves the sender's own entity: dispatching a packet of a client adds and
  removes no entity and changes no entity but the one with the client's id, of that one only the
  position; and it invokes the action of an entity only if the client owns it.
\<close>

theorem dispatch_authority:
  assumes "game_reach g"
  shows "g_Entities (dispatch c pkt g) = g_Entities g \<and> g_entityZone (dispatch c pkt g) = g_entityZone g
    \<and> (\<forall>i r. fmlookup (g_Entities g) i = Some r \<longrightarrow>
         g_ents (dispatch c pkt g) r = g_ents g r
         \<or> i = pkt_ClientID pkt \<and> (\<exists>p. g_ents (dispatch c pkt g) r = (g_ents g r)\<lparr>e_Position := p\<rparr>))
    \<and> (\<exists>acts. g_actions (dispatch c pkt g) = g_actions g @ acts
         \<and> (\<forall>x \<in> set acts. \<exists>r. fmlookup (g_Entities g) (fst x) = Some r \<and> e_OwnerID (g_ents g r) = pkt_ClientID pkt))"
proof -
  have inv: "game_inv g" using game_reach_ok [OF assms] by simp
  have fan: "g_Entities (fan_out i mk obs h) = g_Entities h" "g_entityZone (fan_out i mk obs h) = g_entityZone h"
    "g_ents (fan_out i mk obs h) = g_ents h" for i mk obs h
    using zcore_fields [OF gcore_zcore [OF gcore_fan_out]] by simp_all
  have acts: "g_actions (fan_out i mk obs h) = g_actions h" for i mk obs h
    unfolding fan_out_def by (rule fold_preserves) (simp add: publish_def metric_def)
  have pos: "g_Entities (dispatch_position pkt upd g) = g_Entities g \<and> g_entityZone (dispatch_position pkt upd g) = g_entityZone g
    \<and> (\<forall>i r. fmlookup (g_Entities g) i = Some r \<longrightarrow> g_ents (dispatch_position pkt upd g) r = g_ents g r
         \<or> i = pkt_ClientID pkt \<and> (\<exists>p. g_ents (dispatch_position pkt upd g) r = (g_ents g r)\<lparr>e_Position := p\<rparr>))
    \<and> g_actions (dispatch_position pkt upd g) = g_actions g" for upd
  proof (cases "fmlookup (g_Entities g) (pkt_ClientID pkt)")
    case (Some q)
    have q: "e_ID (g_ents g q) = pkt_ClientID pkt" by (rule inv_liveE [OF inv Some])
    have own: "i = pkt_ClientID pkt" if "fmlookup (g_Entities g) i = Some q" for i
      by (rule inv_liveE [OF inv that]) (use q in simp)
    have mv: "g_Entities (enqueueMove i p h) = g_Entities h" "g_entityZone (enqueueMove i p h) = g_entityZone h"
      "g_ents (enqueueMove i p h) = g_ents h" "g_actions (enqueueMove i p h) = g_actions h" for i p h
      by (simp_all add: enqueueMove_def Let_def fan acts split: option.split)
    define e where "e = (g_ents g q)\<lparr>e_Position := case eu_position upd of Some p \<Rightarrow> p | None \<Rightarrow> vzero\<rparr>"
    have f: "g_Entities (dispatch_position pkt upd g) = g_Entities g" "g_entityZone (dispatch_position pkt upd g) = g_entityZone g"
      "g_actions (dispatch_position pkt upd g) = g_actions g" "g_ents (dispatch_position pkt upd g) = (g_ents g)(q := e)"
      using Some by (simp_all add: dispatch_position_def Let_def mv e_def)
    have "\<exists>p. e = (g_ents g q)\<lparr>e_Position := p\<rparr>" unfolding e_def by blast
    with f own show ?thesis by simp
  qed (simp add: dispatch_position_def)
  have act: "\<exists>acts. g_actions (dispatch_action pkt a g) = g_actions g @ acts
      \<and> (\<forall>x \<in> set acts. \<exists>r. fmlookup (g_Entities g) (fst x) = Some r \<and> e_OwnerID (g_ents g r) = pkt_ClientID pkt)" for a
  proof (cases "fmlookup (g_Entities g) (ea_entity_id a)")
    case (Some q)
    have "e_ID (g_ents g q) = ea_entity_id a" by (rule inv_liveE [OF inv Some])
    with Some show ?thesis by (auto simp: dispatch_action_def split: option.split)
  qed (simp add: dispatch_action_def)
  have frame: "g_Entities (dispatch_action pkt a g) = g_Entities g" "g_entityZone (dispatch_action pkt a g) = g_entityZone g"
    "g_ents (dispatch_action pkt a g) = g_ents g" "g_Entities (dispatch_state pl st g) = g_Entities g"
    "g_entityZone (dispatch_state pl st g) = g_entityZone g" "g_ents (dispatch_state pl st g) = g_ents g"
    "g_actions (dispatch_state pl st g) = g_actions g" for a pl st
    by (simp_all add: dispatch_action_def dispatch_state_def Let_def fan acts split: option.split)
  show ?thesis
    using pos act by (auto simp: dispatch_def frame split: prod.split option.split sum.split)
qed

theorem dispatch_authority_witness:
  "\<forall>c. g_Entities (dispatch c \<lparr>pkt_ClientID = ''a'', pkt_Data = []\<rparr> demo2) = g_Entities demo2"
  using dispatch_authority [OF demo2_reach] by blast

end
