(* ===== verification/Ownership.thy ===== *)
theory Ownership
  imports Types
begin

section \<open>The contract of zone ownership\<close>

text \<open>
  What every table of zone owners promises (\<open>ZoneStore\<close> in \<open>internal/room/store.go\<close> and the
  comment on invariant O-01: a zone has at most one owner), as an abstract machine on a partial map
  from zones to servers and as the locale \<open>ownership\<close>. The in-memory table (\<open>Room_Registry\<close>) and
  the database table (\<open>Storage\<close>) interpret the locale; what is proved here holds for both.
\<close>

datatype own_op = ClaimOp string ServerID | ReleaseOp string ServerID

fun own_apply :: "own_op \<Rightarrow> (string \<Rightarrow> ServerID option) \<Rightarrow> (string \<Rightarrow> ServerID option)" where
  \<comment> \<open>the effect of a successful operation on the abstract table\<close>
  "own_apply (ClaimOp z s) m = m(z := Some s)"
| "own_apply (ReleaseOp z s) m = m(z := None)"

fun own_allowed :: "own_op \<Rightarrow> (string \<Rightarrow> ServerID option) \<Rightarrow> bool" where
  \<comment> \<open>when an operation may succeed: a claim never takes a zone from another server\<close>
  "own_allowed (ClaimOp z s) m \<longleftrightarrow> m z = None \<or> m z = Some s"
| "own_allowed (ReleaseOp z s) m \<longleftrightarrow> m z = Some s"

fun own_trace :: "own_op list \<Rightarrow> (string \<Rightarrow> ServerID option) \<Rightarrow> bool" where
  \<comment> \<open>a run of the abstract machine\<close>
  "own_trace [] m \<longleftrightarrow> True"
| "own_trace (x # xs) m \<longleftrightarrow> own_allowed x m \<and> own_trace xs (own_apply x m)"

type_synonym 's owner_call = "string \<Rightarrow> ServerID \<Rightarrow> 's \<Rightarrow> error option \<times> 's"

fun own_call :: "'s owner_call \<Rightarrow> 's owner_call \<Rightarrow> own_op \<Rightarrow> 's \<Rightarrow> error option \<times> 's" where
  "own_call claim release (ClaimOp z s) st = claim z s st"
| "own_call claim release (ReleaseOp z s) st = release z s st"

fun own_run :: "'s owner_call \<Rightarrow> 's owner_call \<Rightarrow> own_op list \<Rightarrow> 's \<Rightarrow> own_op list \<times> 's" where
  \<comment> \<open>runs the calls in order; the calls that succeeded, and the final state\<close>
  "own_run claim release [] st = ([], st)"
| "own_run claim release (x # xs) st =
     (let r = own_call claim release x st; rest = own_run claim release xs (snd r)
      in (if fst r = None then x # fst rest else fst rest, snd rest))"

fun op_server :: "own_op \<Rightarrow> ServerID" where
  "op_server (ClaimOp z s) = s"
| "op_server (ReleaseOp z s) = s"

definition named :: "own_op list \<Rightarrow> bool" where
  "named ops \<longleftrightarrow> (\<forall>x \<in> set ops. op_server x \<noteq> '''')"

lemma named_simps [simp]: "named []" "named (x # xs) \<longleftrightarrow> op_server x \<noteq> '''' \<and> named xs"
  by (auto simp: named_def)

lemma own_trace_keeps:
  "own_trace xs m \<Longrightarrow> m z = Some a \<Longrightarrow> ReleaseOp z a \<notin> set xs \<Longrightarrow> fold own_apply xs m z = Some a"
proof (induction xs arbitrary: m)
  case (Cons x xs)
  have "own_apply x m z = Some a"
    using Cons.prems by (cases x) auto
  with Cons show ?case by simp
qed simp

lemma own_run_subset: "set (fst (own_run claim release ops s)) \<subseteq> set ops"
proof (induction ops arbitrary: s)
  case (Cons x ops)
  from Cons.IH [of "snd (own_call claim release x s)"] show ?case by (auto simp: Let_def)
qed simp

locale ownership =
  fixes inv :: "'s \<Rightarrow> bool"
    and owner :: "'s \<Rightarrow> string \<Rightarrow> ServerID option"
    and claim :: "'s owner_call"
    and release :: "'s owner_call"
  assumes claim_inv: "inv s \<Longrightarrow> sid \<noteq> '''' \<Longrightarrow> inv (snd (claim z sid s))"
    and release_inv: "inv s \<Longrightarrow> sid \<noteq> '''' \<Longrightarrow> inv (snd (release z sid s))"
    and claim_ok: "inv s \<Longrightarrow> sid \<noteq> '''' \<Longrightarrow> fst (claim z sid s) = None
          \<Longrightarrow> (owner s z = None \<or> owner s z = Some sid) \<and> owner (snd (claim z sid s)) = (owner s)(z := Some sid)"
    and claim_err: "inv s \<Longrightarrow> sid \<noteq> '''' \<Longrightarrow> fst (claim z sid s) = Some e
          \<Longrightarrow> owner (snd (claim z sid s)) = owner s"
    and release_ok: "inv s \<Longrightarrow> sid \<noteq> '''' \<Longrightarrow> fst (release z sid s) = None
          \<Longrightarrow> owner s z = Some sid \<and> owner (snd (release z sid s)) = (owner s)(z := None)"
    and release_err: "inv s \<Longrightarrow> sid \<noteq> '''' \<Longrightarrow> fst (release z sid s) = Some e
          \<Longrightarrow> owner s z \<noteq> Some sid \<and> owner (snd (release z sid s)) = owner s"
begin

lemma call_inv: "inv s \<Longrightarrow> op_server x \<noteq> '''' \<Longrightarrow> inv (snd (own_call claim release x s))"
  by (cases x) (simp_all add: claim_inv release_inv)

lemma call_ok:
  "inv s \<Longrightarrow> op_server x \<noteq> '''' \<Longrightarrow> fst (own_call claim release x s) = None
     \<Longrightarrow> own_allowed x (owner s) \<and> owner (snd (own_call claim release x s)) = own_apply x (owner s)"
  by (cases x) (use claim_ok release_ok in auto)

lemma call_err:
  "inv s \<Longrightarrow> op_server x \<noteq> '''' \<Longrightarrow> fst (own_call claim release x s) = Some e
     \<Longrightarrow> owner (snd (own_call claim release x s)) = owner s"
  by (cases x) (use claim_err release_err in auto)

lemma run_refines:
  "inv s \<Longrightarrow> named ops \<Longrightarrow>
     inv (snd (own_run claim release ops s))
     \<and> own_trace (fst (own_run claim release ops s)) (owner s)
     \<and> owner (snd (own_run claim release ops s)) = fold own_apply (fst (own_run claim release ops s)) (owner s)"
proof (induction ops arbitrary: s)
  case (Cons x ops)
  let ?r = "own_call claim release x s"
  have x: "op_server x \<noteq> ''''" and ops: "named ops" using Cons.prems by simp_all
  have inv': "inv (snd ?r)" by (rule call_inv [OF Cons.prems(1) x])
  note IH = Cons.IH [OF inv' ops]
  show ?case
  proof (cases "fst ?r")
    case None
    with call_ok [OF Cons.prems(1) x None] IH show ?thesis by (simp add: Let_def)
  next
    case (Some e)
    with call_err [OF Cons.prems(1) x Some] IH show ?thesis by (simp add: Let_def)
  qed
qed simp

lemma run_keeps:
  assumes "inv s" "named ops" "owner s z = Some a"
    and "ReleaseOp z a \<notin> set (fst (own_run claim release ops s))"
  shows "owner (snd (own_run claim release ops s)) z = Some a"
  using run_refines [OF assms(1,2)] own_trace_keeps [of _ "owner s" z a, OF _ assms(3,4)] by simp

end

end
