(* ===== verification/Room_Registry.thy ===== *)
theory Room_Registry
  imports Ownership "HOL-Library.Sublist"
begin

section \<open>Nodes, allocation and ownership: \<open>internal/room\<close>\<close>

text \<open>
  The descriptors of game servers, the allocator that picks one of them, the in-memory registry,
  the in-memory table of zone owners and the fan-out of ownership changes to watchers
  (\<open>node.go\<close>, \<open>allocator.go\<close>, \<open>registry.go\<close>). A descriptor is reached through the registry only,
  so the pointers of the source are values here. A watcher's channel is stored under its id.
\<close>

subsection \<open>Nodes\<close>

record NodeCapacity =
  cap_MaxZones :: int
  cap_MaxEntities :: int

record NodeLoad =
  ld_ZoneCount :: int
  ld_ActiveEntities :: int
  ld_ActiveSpaces :: int
  ld_ConnectedUsers :: int
  ld_QueueDepth :: int
  ld_TickDurationMs :: float64

record NodeDescriptor =
  nd_NodeID :: ServerID
  nd_AdvertiseAddr :: string
  nd_Host :: string
  nd_Port :: int
  nd_Version :: string
  nd_Build :: string
  nd_Capacity :: NodeCapacity
  nd_Load :: NodeLoad
  nd_Labels :: "(string, string) fmap"
  nd_Status :: ServerStatus
  nd_StartTime :: Time
  nd_LastHeartbeat :: Time

definition zero_load :: NodeLoad where
  "zero_load = \<lparr>ld_ZoneCount = 0, ld_ActiveEntities = 0, ld_ActiveSpaces = 0, ld_ConnectedUsers = 0,
                ld_QueueDepth = 0, ld_TickDurationMs = 0\<rparr>"

definition zero_node :: NodeDescriptor where
  "zero_node = \<lparr>nd_NodeID = '''', nd_AdvertiseAddr = '''', nd_Host = '''', nd_Port = 0, nd_Version = '''',
                nd_Build = '''', nd_Capacity = \<lparr>cap_MaxZones = 0, cap_MaxEntities = 0\<rparr>, nd_Load = zero_load,
                nd_Labels = fmempty, nd_Status = ServerStatusJoining, nd_StartTime = zero_time,
                nd_LastHeartbeat = zero_time\<rparr>"

definition node_Address :: "NodeDescriptor \<Rightarrow> string" where
  "node_Address d = (if nd_AdvertiseAddr d \<noteq> '''' then nd_AdvertiseAddr d
                     else nd_Host d @ '':'' @ itoa (nd_Port d))"

definition CanAccept :: "NodeDescriptor \<Rightarrow> bool" where
  "CanAccept d =
     (if nd_Status d \<noteq> ServerStatusActive then False
      else if 0 < cap_MaxZones (nd_Capacity d) \<and> cap_MaxZones (nd_Capacity d) \<le> ld_ZoneCount (nd_Load d) then False
      else True)"

subsection \<open>Allocation\<close>

definition loadScore :: "NodeDescriptor \<Rightarrow> float64" where
  "loadScore n = real_of_int (ld_ZoneCount (nd_Load n)) * 100000 + real_of_int (ld_ActiveEntities (nd_Load n))"

fun select_step :: "NodeDescriptor option \<Rightarrow> NodeDescriptor option \<Rightarrow> NodeDescriptor option" where
  \<comment> \<open>one round of the loop: the candidate, the best node so far\<close>
  "select_step None best = best"
| "select_step (Some n) best =
     (if \<not> CanAccept n then best
      else (case best of
              None \<Rightarrow> Some n
            | Some b \<Rightarrow> if loadScore n < loadScore b then Some n else best))"

definition Select :: "NodeDescriptor option list \<Rightarrow> error + NodeDescriptor" where
  "Select candidates =
     (case fold select_step candidates None of
        None \<Rightarrow> Inl ErrNoCapacity
      | Some best \<Rightarrow> Inr best)"

definition IsNodeStatus :: "NodeDescriptor option \<Rightarrow> ServerStatus \<Rightarrow> bool" where
  "IsNodeStatus n s = (case n of None \<Rightarrow> False | Some d \<Rightarrow> nd_Status d = s)"

subsection \<open>The registry\<close>

type_synonym ServerRegistry = "(ServerID, NodeDescriptor) fmap"

definition NewServerRegistry :: ServerRegistry where
  "NewServerRegistry = fmempty"

definition reg_Register :: "Time \<Rightarrow> NodeDescriptor \<Rightarrow> ServerRegistry \<Rightarrow> error option \<times> ServerRegistry" where
  "reg_Register now info reg =
     (if fm_has reg (nd_NodeID info)
      then (Some (Errorf (''node '' @ nd_NodeID info @ '': '') ErrConflict ''''), reg)
      else
        (let info = info\<lparr>nd_LastHeartbeat := now\<rparr>;
             info = (if nd_StartTime info = zero_time then info\<lparr>nd_StartTime := now\<rparr> else info)
         in (None, fmupd (nd_NodeID info) info reg)))"

definition reg_Get :: "ServerRegistry \<Rightarrow> ServerID \<Rightarrow> NodeDescriptor option" where
  "reg_Get reg i = fmlookup reg i"

definition reg_Heartbeat :: "Time \<Rightarrow> ServerID \<Rightarrow> ServerRegistry \<Rightarrow> error option \<times> ServerRegistry" where
  "reg_Heartbeat now i reg =
     (case fmlookup reg i of
        None \<Rightarrow> (Some (Errorf (''node '' @ i @ '': '') ErrNotFound ''''), reg)
      | Some s \<Rightarrow> (None, fmupd i (s\<lparr>nd_LastHeartbeat := now, nd_Status := ServerStatusActive\<rparr>) reg))"

definition reg_UpdateLoad :: "Time \<Rightarrow> ServerID \<Rightarrow> NodeLoad \<Rightarrow> ServerRegistry \<Rightarrow> error option \<times> ServerRegistry" where
  "reg_UpdateLoad now i load reg =
     (case fmlookup reg i of
        None \<Rightarrow> (Some (Errorf (''node '' @ i @ '': '') ErrNotFound ''''), reg)
      | Some s \<Rightarrow> (None, fmupd i (s\<lparr>nd_Load := load, nd_LastHeartbeat := now, nd_Status := ServerStatusActive\<rparr>) reg))"

definition reg_Remove :: "ServerID \<Rightarrow> ServerRegistry \<Rightarrow> ServerRegistry" where
  "reg_Remove i reg = fmdrop i reg"

definition reg_List :: "order \<Rightarrow> ServerRegistry \<Rightarrow> NodeDescriptor list" where
  "reg_List ord reg = map (fm_get zero_node reg) (ord (fmdom' reg))"

definition reg_LeastLoaded :: "order \<Rightarrow> ServerRegistry \<Rightarrow> NodeDescriptor option" where
  "reg_LeastLoaded ord reg =
     (case Select (map Some (reg_List ord reg)) of Inl e \<Rightarrow> None | Inr n \<Rightarrow> Some n)"

subsection \<open>Zone ownership\<close>

type_synonym ZoneOwnership = "(string, ServerID) fmap"

definition NewZoneOwnership :: ZoneOwnership where
  "NewZoneOwnership = fmempty"

definition zo_Claim :: "string \<Rightarrow> ServerID \<Rightarrow> ZoneOwnership \<Rightarrow> error option \<times> ZoneOwnership" where
  "zo_Claim zoneID serverID zo =
     (if fm_has zo zoneID then (Some (Errorf (''zone '' @ zoneID @ '': '') ErrConflict ''''), zo)
      else (None, fmupd zoneID serverID zo))"

definition zo_Release :: "string \<Rightarrow> ServerID \<Rightarrow> ZoneOwnership \<Rightarrow> error option \<times> ZoneOwnership" where
  "zo_Release zoneID serverID zo =
     (case fmlookup zo zoneID of
        None \<Rightarrow> (Some (Errorf (''zone '' @ zoneID @ '': '') ErrNotFound ''''), zo)
      | Some owner \<Rightarrow>
          if owner \<noteq> serverID then (Some (Errorf (''zone '' @ zoneID @ '': '') ErrNotOwned ''''), zo)
          else (None, fmdrop zoneID zo))"

definition zo_Lookup :: "string \<Rightarrow> ZoneOwnership \<Rightarrow> ServerID option" where
  "zo_Lookup zoneID zo = fmlookup zo zoneID"

definition ResolveZone :: "ZoneOwnership \<Rightarrow> ServerRegistry \<Rightarrow> string \<Rightarrow> error + ServerID \<times> string" where
  "ResolveZone zo reg zoneID =
     (case zo_Lookup zoneID zo of
        None \<Rightarrow> Inl (Errorf (''zone '' @ zoneID @ '': '') ErrNotFound '''')
      | Some serverID \<Rightarrow>
          (case reg_Get reg serverID of
             None \<Rightarrow> Inl (Errorf (''node '' @ serverID @ '': '') ErrNotFound '''')
           | Some info \<Rightarrow> Inr (serverID, node_Address info)))"

subsection \<open>Watchers\<close>

record OwnershipChange =
  oc_zone_id :: string
  oc_server_id :: string
  oc_host :: string
  oc_port :: int

record WatcherFanout =
  wf_channels :: "(string, OwnershipChange list) fmap"
  wf_nextID :: int
  wf_closed :: "string list"   \<comment> \<open>the channels closed so far\<close>

abbreviation (input) watcherBuffer :: nat where "watcherBuffer \<equiv> 16"

definition NewWatcherFanout :: WatcherFanout where
  "NewWatcherFanout = \<lparr>wf_channels = fmempty, wf_nextID = 0, wf_closed = []\<rparr>"

definition wf_Subscribe :: "WatcherFanout \<Rightarrow> string \<times> WatcherFanout" where
  "wf_Subscribe f =
     (let f = f\<lparr>wf_nextID := wf_nextID f + 1\<rparr>;
          i = ''w'' @ itoa (wf_nextID f)
      in (i, f\<lparr>wf_channels := fmupd i [] (wf_channels f)\<rparr>))"

definition wf_Unsubscribe :: "string \<Rightarrow> WatcherFanout \<Rightarrow> WatcherFanout" where
  "wf_Unsubscribe i f =
     (case fmlookup (wf_channels f) i of
        None \<Rightarrow> f
      | Some ch \<Rightarrow> f\<lparr>wf_closed := wf_closed f @ [i], wf_channels := fmdrop i (wf_channels f)\<rparr>)"

definition wf_offer :: "OwnershipChange \<Rightarrow> OwnershipChange list \<Rightarrow> OwnershipChange list" where
  "wf_offer change ch = (if chan_full watcherBuffer ch then ch else chan_send change ch)"

definition wf_Broadcast :: "order \<Rightarrow> OwnershipChange \<Rightarrow> WatcherFanout \<Rightarrow> WatcherFanout" where
  "wf_Broadcast ord change f =
     fold (\<lambda>i f. f\<lparr>wf_channels := fmupd i (wf_offer change (fm_get [] (wf_channels f) i)) (wf_channels f)\<rparr>)
          (ord (fmdom' (wf_channels f))) f"

definition wf_Recv :: "string \<Rightarrow> WatcherFanout \<Rightarrow> OwnershipChange option \<times> WatcherFanout" where
  \<comment> \<open>a receive on the channel of a watcher, when something is queued\<close>
  "wf_Recv i f =
     (case fm_get [] (wf_channels f) i of
        [] \<Rightarrow> (None, f)
      | c # cs \<Rightarrow> (Some c, f\<lparr>wf_channels := fmupd i cs (wf_channels f)\<rparr>))"


subsection \<open>Allocation picks the first node of least load\<close>

definition least_first :: "NodeDescriptor option list \<Rightarrow> NodeDescriptor \<Rightarrow> bool" where
  "least_first cs n \<longleftrightarrow> CanAccept n \<and> (\<exists>xs ys. cs = xs @ Some n # ys
     \<and> (\<forall>m. Some m \<in> set xs \<longrightarrow> CanAccept m \<longrightarrow> loadScore n < loadScore m)
     \<and> (\<forall>m. Some m \<in> set ys \<longrightarrow> CanAccept m \<longrightarrow> loadScore n \<le> loadScore m))"

definition none_accepts :: "NodeDescriptor option list \<Rightarrow> bool" where
  "none_accepts cs \<longleftrightarrow> (\<forall>m. Some m \<in> set cs \<longrightarrow> \<not> CanAccept m)"

lemma least_first_minimal: "least_first cs n \<Longrightarrow> Some m \<in> set cs \<Longrightarrow> CanAccept m \<Longrightarrow> loadScore n \<le> loadScore m"
  unfolding least_first_def by (metis Un_iff less_imp_le option.inject order_refl set_ConsD set_append)

lemma least_first_mem: "least_first cs n \<Longrightarrow> Some n \<in> set cs \<and> CanAccept n"
  by (auto simp: least_first_def)

lemma least_first_snoc_better:
  "CanAccept n \<Longrightarrow> (\<forall>m. Some m \<in> set cs \<longrightarrow> CanAccept m \<longrightarrow> loadScore n < loadScore m) \<Longrightarrow> least_first (cs @ [Some n]) n"
  unfolding least_first_def by (intro conjI exI [of _ cs] exI [of _ "[]"]) auto

lemma least_first_snoc_keep:
  assumes "least_first cs b" and "\<And>n. x = Some n \<Longrightarrow> CanAccept n \<Longrightarrow> loadScore b \<le> loadScore n"
  shows "least_first (cs @ [x]) b"
proof -
  obtain xs ys where "cs = xs @ Some b # ys"
    "\<forall>m. Some m \<in> set xs \<longrightarrow> CanAccept m \<longrightarrow> loadScore b < loadScore m"
    "\<forall>m. Some m \<in> set ys \<longrightarrow> CanAccept m \<longrightarrow> loadScore b \<le> loadScore m" "CanAccept b"
    using assms(1) by (auto simp: least_first_def)
  with assms(2) show ?thesis
    unfolding least_first_def by (intro conjI exI [of _ xs] exI [of _ "ys @ [x]"]) auto
qed

lemma fold_select:
  "case fold select_step cs None of None \<Rightarrow> none_accepts cs | Some n \<Rightarrow> least_first cs n"
proof (induction cs rule: rev_induct)
  case (snoc x cs)
  show ?case
  proof (cases "\<exists>n. x = Some n \<and> CanAccept n")
    case False
    then have "fold select_step (cs @ [x]) None = fold select_step cs None" by (cases x) auto
    with snoc False show ?thesis
      by (auto simp: none_accepts_def intro: least_first_snoc_keep split: option.splits)
  next
    case True
    then obtain n where x: "x = Some n" "CanAccept n" by blast
    show ?thesis
    proof (cases "fold select_step cs None")
      case None
      with snoc x show ?thesis by (auto simp: none_accepts_def intro!: least_first_snoc_better)
    next
      case (Some b)
      then have b: "least_first cs b" using snoc by simp
      show ?thesis
      proof (cases "loadScore n < loadScore b")
        case True
        then have "least_first (cs @ [x]) n"
          unfolding x(1) using x(2) least_first_minimal [OF b] by (intro least_first_snoc_better) (auto intro: less_le_trans)
        with True Some x show ?thesis by simp
      next
        case False
        then have "least_first (cs @ [x]) b" using x by (intro least_first_snoc_keep [OF b]) auto
        with False Some x show ?thesis by simp
      qed
    qed
  qed
qed (simp add: none_accepts_def)

lemma least_first_unique:
  assumes "least_first cs n" "least_first cs n'"
  shows "n = n'"
proof -
  obtain xs ys where 1: "cs = xs @ Some n # ys"
    "\<forall>m. Some m \<in> set xs \<longrightarrow> CanAccept m \<longrightarrow> loadScore n < loadScore m"
    using assms(1) by (auto simp: least_first_def)
  obtain xs' ys' where 2: "cs = xs' @ Some n' # ys'"
    "\<forall>m. Some m \<in> set xs' \<longrightarrow> CanAccept m \<longrightarrow> loadScore n' < loadScore m"
    using assms(2) by (auto simp: least_first_def)
  have le: "loadScore n \<le> loadScore n'" "loadScore n' \<le> loadScore n" and acc: "CanAccept n" "CanAccept n'"
    using assms least_first_minimal least_first_mem by blast+
  have "Some n \<notin> set xs'" "Some n' \<notin> set xs" using 1(2) 2(2) le acc by (auto simp: not_less [symmetric])
  with 1(1) 2(1) show ?thesis by (auto simp: append_eq_append_conv2 append_eq_Cons_conv Cons_eq_append_conv)
qed

lemma Select_iff: "Select cs = Inr n \<longleftrightarrow> least_first cs n"
proof (cases "fold select_step cs None")
  case None
  with fold_select [of cs] least_first_mem [of cs n] show ?thesis by (auto simp: Select_def none_accepts_def)
next
  case (Some b)
  with fold_select [of cs] least_first_unique [of cs n b] show ?thesis by (auto simp: Select_def)
qed

lemma Select_Inl_iff: "Select cs = Inl e \<longleftrightarrow> e = ErrNoCapacity \<and> none_accepts cs"
proof (cases "fold select_step cs None")
  case None
  with fold_select [of cs] show ?thesis by (auto simp: Select_def)
next
  case (Some b)
  with fold_select [of cs] least_first_mem [of cs b] show ?thesis by (auto simp: Select_def none_accepts_def)
qed

lemma loadScore_lex:
  assumes "0 \<le> ld_ActiveEntities (nd_Load n)" "ld_ActiveEntities (nd_Load n) < 100000"
    and "0 \<le> ld_ActiveEntities (nd_Load m)" "ld_ActiveEntities (nd_Load m) < 100000"
  shows "loadScore n < loadScore m \<longleftrightarrow> ld_ZoneCount (nd_Load n) < ld_ZoneCount (nd_Load m)
     \<or> ld_ZoneCount (nd_Load n) = ld_ZoneCount (nd_Load m)
       \<and> ld_ActiveEntities (nd_Load n) < ld_ActiveEntities (nd_Load m)"
proof -
  have "loadScore n < loadScore m \<longleftrightarrow>
      ld_ZoneCount (nd_Load n) * 100000 + ld_ActiveEntities (nd_Load n)
        < ld_ZoneCount (nd_Load m) * 100000 + ld_ActiveEntities (nd_Load m)"
    unfolding loadScore_def by (metis (no_types, lifting) of_int_add of_int_less_iff of_int_mult of_int_numeral)
  then show ?thesis using assms by auto
qed


text \<open>
  C27. The allocator is exact: it returns the first candidate, in the order given, among those that
  can accept a zone with the least load score; it fails, with the capacity error, exactly if no
  candidate can accept one. For nodes with fewer than 100000 entities the score orders by the
  number of zones first and by the number of entities second, as its comment says.
\<close>

theorem Select_least_loaded:
  "(Select cs = Inr n \<longleftrightarrow> CanAccept n \<and> (\<exists>xs ys. cs = xs @ Some n # ys
      \<and> (\<forall>m. Some m \<in> set xs \<longrightarrow> CanAccept m \<longrightarrow> loadScore n < loadScore m)
      \<and> (\<forall>m. Some m \<in> set ys \<longrightarrow> CanAccept m \<longrightarrow> loadScore n \<le> loadScore m)))
   \<and> (Select cs = Inl e \<longleftrightarrow> e = ErrNoCapacity \<and> (\<forall>m. Some m \<in> set cs \<longrightarrow> \<not> CanAccept m))
   \<and> (ld_ActiveEntities (nd_Load n) \<in> {0..<100000} \<and> ld_ActiveEntities (nd_Load m) \<in> {0..<100000} \<longrightarrow>
        (loadScore n < loadScore m \<longleftrightarrow> ld_ZoneCount (nd_Load n) < ld_ZoneCount (nd_Load m)
           \<or> ld_ZoneCount (nd_Load n) = ld_ZoneCount (nd_Load m)
             \<and> ld_ActiveEntities (nd_Load n) < ld_ActiveEntities (nd_Load m)))"
  using Select_iff [of cs n] Select_Inl_iff [of cs e] loadScore_lex [of n m]
  by (simp add: least_first_def none_accepts_def)

definition demo_node :: "ServerID \<Rightarrow> int \<Rightarrow> NodeDescriptor" where
  "demo_node i zones = zero_node\<lparr>nd_NodeID := i, nd_Status := ServerStatusActive, nd_Load := zero_load\<lparr>ld_ZoneCount := zones\<rparr>,
     nd_Capacity := \<lparr>cap_MaxZones = 10, cap_MaxEntities = 0\<rparr>\<rparr>"

lemma demo_node_simps [simp]:
  "nd_NodeID (demo_node i k) = i" "nd_Status (demo_node i k) = 1" "loadScore (demo_node i k) = real_of_int k * 100000"
  "CanAccept (demo_node i k) \<longleftrightarrow> k < 10" "nd_Load (demo_node i k) = zero_load\<lparr>ld_ZoneCount := k\<rparr>"
  by (auto simp: demo_node_def zero_node_def zero_load_def loadScore_def CanAccept_def)

theorem Select_least_loaded_witness:
  "Select [Some (demo_node ''a'' 5), None, Some (demo_node ''b'' 2), Some (demo_node ''c'' 2)] = Inr (demo_node ''b'' 2)"
proof -
  have "\<exists>xs ys. [Some (demo_node ''a'' 5), None, Some (demo_node ''b'' 2), Some (demo_node ''c'' 2)] = xs @ Some (demo_node ''b'' 2) # ys
      \<and> (\<forall>m. Some m \<in> set xs \<longrightarrow> CanAccept m \<longrightarrow> loadScore (demo_node ''b'' 2) < loadScore m)
      \<and> (\<forall>m. Some m \<in> set ys \<longrightarrow> CanAccept m \<longrightarrow> loadScore (demo_node ''b'' 2) \<le> loadScore m)"
    by (rule exI [of _ "[Some (demo_node ''a'' 5), None]"], rule exI [of _ "[Some (demo_node ''c'' 2)]"]) auto
  with Select_least_loaded show ?thesis by simp
qed

subsection \<open>The allocator as an interface\<close>

text \<open>
  The \<open>Allocator\<close> interface of \<open>allocator.go\<close>: what its callers, the zone lookup of the room service
  and the sweepers, rely on.
\<close>

locale allocator =
  fixes select :: "NodeDescriptor option list \<Rightarrow> error + NodeDescriptor"
  assumes select_sound: "select cs = Inr n \<Longrightarrow> Some n \<in> set cs \<and> CanAccept n"
    and select_total: "select cs = Inl e \<Longrightarrow> none_accepts cs"
begin

lemma select_of_nodes: "select (map Some ns) = Inr n \<Longrightarrow> n \<in> set ns \<and> CanAccept n"
  using select_sound by fastforce

lemma select_fails: "select (map Some ns) = Inl e \<Longrightarrow> m \<in> set ns \<Longrightarrow> \<not> CanAccept m"
  using select_total by (fastforce simp: none_accepts_def)

end

interpretation ll: allocator Select
  by unfold_locales (use Select_iff Select_Inl_iff least_first_mem in blast)+

subsection \<open>Nodes are scheduled only after a heartbeat\<close>

datatype reg_op =
    RegisterOp Time NodeDescriptor
  | HeartbeatOp Time ServerID
  | UpdateLoadOp Time ServerID NodeLoad
  | RemoveOp ServerID

fun reg_step :: "reg_op \<Rightarrow> ServerRegistry \<Rightarrow> ServerRegistry" where
  "reg_step (RegisterOp t info) reg = snd (reg_Register t info reg)"
| "reg_step (HeartbeatOp t i) reg = snd (reg_Heartbeat t i reg)"
| "reg_step (UpdateLoadOp t i l) reg = snd (reg_UpdateLoad t i l reg)"
| "reg_step (RemoveOp i) reg = reg_Remove i reg"

fun joining_op :: "reg_op \<Rightarrow> bool" where
  \<comment> \<open>a node does not register as active\<close>
  "joining_op (RegisterOp t info) \<longleftrightarrow> nd_Status info \<noteq> ServerStatusActive"
| "joining_op _ \<longleftrightarrow> True"

fun beat_op :: "ServerID \<Rightarrow> reg_op \<Rightarrow> bool" where
  "beat_op i (HeartbeatOp t j) \<longleftrightarrow> i = j"
| "beat_op i (UpdateLoadOp t j l) \<longleftrightarrow> i = j"
| "beat_op i _ \<longleftrightarrow> False"

definition reg_keys :: "ServerRegistry \<Rightarrow> bool" where
  "reg_keys reg \<longleftrightarrow> (\<forall>i n. fmlookup reg i = Some n \<longrightarrow> nd_NodeID n = i)"

lemma reg_keysD: "reg_keys reg \<Longrightarrow> fmlookup reg i = Some n \<Longrightarrow> nd_NodeID n = i"
  by (simp add: reg_keys_def)

lemmas reg_op_defs = reg_Register_def reg_Heartbeat_def reg_UpdateLoad_def reg_Remove_def

lemma reg_step_keys: "reg_keys reg \<Longrightarrow> reg_keys (reg_step op reg)"
  by (cases op) (auto simp: reg_keys_def reg_op_defs Let_def split: option.split if_splits)

lemma reg_List_set:
  assumes "is_order ord"
  shows "n \<in> set (reg_List ord reg) \<longleftrightarrow> (\<exists>i. fmlookup reg i = Some n)"
proof
  assume "n \<in> set (reg_List ord reg)"
  then obtain i where "i \<in> fmdom' reg" "n = fm_get zero_node reg i" using assms by (auto simp: reg_List_def)
  then show "\<exists>i. fmlookup reg i = Some n" by (auto simp: fmlookup_dom'_iff intro!: exI [of _ i])
next
  assume "\<exists>i. fmlookup reg i = Some n"
  then obtain i where i: "fmlookup reg i = Some n" by blast
  then have "i \<in> fmdom' reg" "n = fm_get zero_node reg i" by (auto simp: fmlookup_dom'_iff)
  then show "n \<in> set (reg_List ord reg)" using assms by (auto simp: reg_List_def)
qed

lemma reg_LeastLoaded_Some:
  assumes "is_order ord" "reg_LeastLoaded ord reg = Some n"
  shows "(\<exists>i. fmlookup reg i = Some n) \<and> CanAccept n
    \<and> (\<forall>i m. fmlookup reg i = Some m \<longrightarrow> CanAccept m \<longrightarrow> loadScore n \<le> loadScore m)"
proof -
  have n: "Select (map Some (reg_List ord reg)) = Inr n"
    using assms(2) by (auto simp: reg_LeastLoaded_def split: sum.splits)
  then have "least_first (map Some (reg_List ord reg)) n" by (simp add: Select_iff)
  then have min: "loadScore n \<le> loadScore m" if "m \<in> set (reg_List ord reg)" "CanAccept m" for m
    using that least_first_minimal by fastforce
  from ll.select_of_nodes [OF n] min reg_List_set [OF assms(1)] show ?thesis by blast
qed

lemma reg_LeastLoaded_None:
  assumes "is_order ord" "reg_LeastLoaded ord reg = None" "fmlookup reg i = Some m"
  shows "\<not> CanAccept m"
proof -
  obtain e where "Select (map Some (reg_List ord reg)) = Inl e"
    using assms(2) by (auto simp: reg_LeastLoaded_def split: sum.splits)
  from ll.select_fails [OF this] reg_List_set [OF assms(1)] assms(3) show ?thesis by blast
qed

lemma reg_active_beat:
  assumes "\<forall>op \<in> set ops. joining_op op" "fmlookup (fold reg_step ops NewServerRegistry) i = Some n"
    and "nd_Status n = ServerStatusActive"
  shows "\<exists>op \<in> set ops. beat_op i op"
  using assms
proof (induction ops arbitrary: n rule: rev_induct)
  case (snoc op ops)
  show ?case
  proof (cases "beat_op i op")
    case False
    with snoc.prems have "\<exists>m. fmlookup (fold reg_step ops NewServerRegistry) i = Some m \<and> nd_Status m = ServerStatusActive"
      by (cases op) (auto simp: reg_op_defs Let_def split: option.splits if_splits)
    with snoc.IH snoc.prems(1) show ?thesis by auto
  qed simp
qed (simp add: NewServerRegistry_def)

text \<open>
  A server that registers but never heartbeats is never scheduled: after any sequence of
  registry calls in which nodes do not register as active, the node the registry picks as least
  loaded is registered under its own id, can accept a zone, has sent a heartbeat or a load report,
  and no registered node that can accept one has a smaller load score.
\<close>

theorem scheduled_after_heartbeat:
  assumes "\<forall>op \<in> set ops. joining_op op" and "is_order ord"
    and "reg_LeastLoaded ord (fold reg_step ops NewServerRegistry) = Some n"
  shows "fmlookup (fold reg_step ops NewServerRegistry) (nd_NodeID n) = Some n \<and> CanAccept n
    \<and> (\<exists>op \<in> set ops. beat_op (nd_NodeID n) op)
    \<and> (\<forall>i m. fmlookup (fold reg_step ops NewServerRegistry) i = Some m \<longrightarrow> CanAccept m \<longrightarrow> loadScore n \<le> loadScore m)"
proof -
  have "reg_keys (fold reg_step ops NewServerRegistry)"
    by (rule fold_invariant_set) (auto simp: reg_step_keys, simp add: reg_keys_def NewServerRegistry_def)
  with reg_LeastLoaded_Some [OF assms(2,3)]
  have n: "fmlookup (fold reg_step ops NewServerRegistry) (nd_NodeID n) = Some n" "CanAccept n"
    "\<forall>i m. fmlookup (fold reg_step ops NewServerRegistry) i = Some m \<longrightarrow> CanAccept m \<longrightarrow> loadScore n \<le> loadScore m"
    by (auto dest: reg_keysD)
  moreover from n(2) have "nd_Status n = ServerStatusActive" by (simp add: CanAccept_def split: if_splits)
  ultimately show ?thesis using reg_active_beat [OF assms(1) n(1)] by blast
qed

theorem scheduled_after_heartbeat_witness:
  "\<exists>n. reg_LeastLoaded sorted_list_of_set
      (fold reg_step [RegisterOp 1 (zero_node\<lparr>nd_NodeID := ''gs''\<rparr>), HeartbeatOp 2 ''gs''] NewServerRegistry) = Some n
    \<and> nd_NodeID n = ''gs''"
proof -
  let ?ops = "[RegisterOp 1 (zero_node\<lparr>nd_NodeID := ''gs''\<rparr>), HeartbeatOp 2 ''gs'']"
  obtain n where n: "reg_LeastLoaded sorted_list_of_set (fold reg_step ?ops NewServerRegistry) = Some n"
    by (auto simp: reg_op_defs reg_LeastLoaded_def reg_List_def NewServerRegistry_def Select_def CanAccept_def
        zero_node_def zero_load_def)
  have "\<exists>op \<in> set ?ops. beat_op (nd_NodeID n) op"
    using scheduled_after_heartbeat [OF _ is_order_sorted n] by (simp add: zero_node_def)
  with n show ?thesis by auto
qed


subsection \<open>The in-memory table of owners\<close>

interpretation mem: ownership "\<lambda>_. True" fmlookup zo_Claim zo_Release
  by unfold_locales (auto simp: zo_Claim_def zo_Release_def fm_has_def split: option.splits if_splits)

text \<open>
  The in-memory table implements the abstract ownership machine: whatever calls are made, the
  calls that succeed are a run of the machine from the owners at the start to the owners at the
  end; so a zone has one owner at a time, and it keeps its owner until that owner releases it.
\<close>

theorem zone_ownership_refines:
  assumes "named ops"
  shows "own_trace (fst (own_run zo_Claim zo_Release ops zo)) (fmlookup zo)
    \<and> fmlookup (snd (own_run zo_Claim zo_Release ops zo))
        = fold own_apply (fst (own_run zo_Claim zo_Release ops zo)) (fmlookup zo)
    \<and> (fmlookup zo z = Some a \<and> ReleaseOp z a \<notin> set (fst (own_run zo_Claim zo_Release ops zo))
         \<longrightarrow> fmlookup (snd (own_run zo_Claim zo_Release ops zo)) z = Some a)"
  using mem.run_refines [OF _ assms, of zo] mem.run_keeps [OF _ assms, of zo z a] by simp

theorem zone_ownership_refines_witness:
  "fst (own_run zo_Claim zo_Release [ClaimOp ''z'' ''a'', ClaimOp ''z'' ''b'', ReleaseOp ''z'' ''b'', ReleaseOp ''z'' ''a'']
      NewZoneOwnership) = [ClaimOp ''z'' ''a'', ReleaseOp ''z'' ''a'']
   \<and> own_trace [ClaimOp ''z'' ''a'', ReleaseOp ''z'' ''a''] (fmlookup NewZoneOwnership)"
proof -
  let ?ops = "[ClaimOp ''z'' ''a'', ClaimOp ''z'' ''b'', ReleaseOp ''z'' ''b'', ReleaseOp ''z'' ''a'']"
  have run: "fst (own_run zo_Claim zo_Release ?ops NewZoneOwnership) = [ClaimOp ''z'' ''a'', ReleaseOp ''z'' ''a'']"
    by (simp add: zo_Claim_def zo_Release_def NewZoneOwnership_def Let_def)
  have "named ?ops" by simp
  from zone_ownership_refines [OF this, of NewZoneOwnership] run show ?thesis by simp
qed

subsection \<open>Watchers\<close>

datatype wf_op = WSubscribe | WUnsubscribe string | WBroadcast OwnershipChange | WRecv string

fun wf_step :: "order \<Rightarrow> wf_op \<Rightarrow> WatcherFanout \<Rightarrow> WatcherFanout" where
  "wf_step ord WSubscribe f = snd (wf_Subscribe f)"
| "wf_step ord (WUnsubscribe i) f = wf_Unsubscribe i f"
| "wf_step ord (WBroadcast c) f = wf_Broadcast ord c f"
| "wf_step ord (WRecv i) f = snd (wf_Recv i f)"

fun broadcasts :: "wf_op list \<Rightarrow> OwnershipChange list" where
  "broadcasts [] = []"
| "broadcasts (WBroadcast c # ops) = c # broadcasts ops"
| "broadcasts (_ # ops) = broadcasts ops"

fun wf_got :: "order \<Rightarrow> string \<Rightarrow> wf_op list \<Rightarrow> WatcherFanout \<Rightarrow> OwnershipChange list" where
  \<comment> \<open>what the watcher receives during a run\<close>
  "wf_got ord i [] f = []"
| "wf_got ord i (x # xs) f =
     (if x = WRecv i then (case fst (wf_Recv i f) of None \<Rightarrow> [] | Some c \<Rightarrow> [c]) else []) @ wf_got ord i xs (wf_step ord x f)"

fun wf_lost :: "order \<Rightarrow> string \<Rightarrow> wf_op list \<Rightarrow> WatcherFanout \<Rightarrow> nat" where
  \<comment> \<open>the broadcasts that find the watcher's channel full\<close>
  "wf_lost ord i [] f = 0"
| "wf_lost ord i (x # xs) f =
     (if (\<exists>c. x = WBroadcast c) \<and> chan_full watcherBuffer (fm_get [] (wf_channels f) i) then 1 else 0)
       + wf_lost ord i xs (wf_step ord x f)"

definition watcher_id :: "int \<Rightarrow> string" where
  "watcher_id k = ''w'' @ itoa k"

definition wf_ok :: "WatcherFanout \<Rightarrow> bool" where
  "wf_ok f \<longleftrightarrow> (\<forall>i ch. fmlookup (wf_channels f) i = Some ch \<longrightarrow>
       length ch \<le> watcherBuffer \<and> i \<notin> set (wf_closed f) \<and> (\<exists>k \<le> wf_nextID f. i = watcher_id k))
     \<and> (\<forall>i \<in> set (wf_closed f). \<exists>k \<le> wf_nextID f. i = watcher_id k) \<and> distinct (wf_closed f)"

lemma watcher_id_inj [simp]: "watcher_id j = watcher_id k \<longleftrightarrow> j = k"
  by (simp add: watcher_id_def)

lemma wf_Broadcast_fold:
  "distinct xs \<Longrightarrow> set xs \<subseteq> fmdom' (wf_channels f) \<Longrightarrow>
     fold (\<lambda>i f. f\<lparr>wf_channels := fmupd i (wf_offer c (fm_get [] (wf_channels f) i)) (wf_channels f)\<rparr>) xs f
       = f\<lparr>wf_channels := fmmap_keys (\<lambda>i ch. if i \<in> set xs then wf_offer c ch else ch) (wf_channels f)\<rparr>"
proof (induction xs arbitrary: f)
  case Nil
  have "fmmap_keys (\<lambda>i ch. ch) m = m" for m :: "(string, OwnershipChange list) fmap" by (rule fmap_ext) (simp add: option.map_ident)
  then show ?case by simp
next
  case (Cons x xs)
  obtain ch where ch: "fmlookup (wf_channels f) x = Some ch" using Cons.prems by (auto simp: fmlookup_dom'_iff)
  have "fmmap_keys (\<lambda>i ch. if i \<in> set xs then wf_offer c ch else ch) (fmupd x (wf_offer c ch) (wf_channels f))
      = fmmap_keys (\<lambda>i ch. if i = x \<or> i \<in> set xs then wf_offer c ch else ch) (wf_channels f)"
    using Cons.prems ch by (intro fmap_ext) auto
  moreover have "set xs \<subseteq> fmdom' (wf_channels (f\<lparr>wf_channels := fmupd x (wf_offer c ch) (wf_channels f)\<rparr>))"
    using Cons.prems by auto
  ultimately show ?case using Cons.IH [of "f\<lparr>wf_channels := fmupd x (wf_offer c ch) (wf_channels f)\<rparr>"] Cons.prems ch
    by simp
qed

lemma wf_Broadcast_eq:
  "is_order ord \<Longrightarrow> wf_Broadcast ord c f = f\<lparr>wf_channels := fmmap (wf_offer c) (wf_channels f)\<rparr>"
proof -
  assume ord: "is_order ord"
  have "fmmap_keys (\<lambda>i ch. if i \<in> fmdom' (wf_channels f) then wf_offer c ch else ch) (wf_channels f)
      = fmmap (wf_offer c) (wf_channels f)"
    by (rule fmap_ext) (auto simp: fmlookup_dom'_iff map_option_case split: option.split)
  with wf_Broadcast_fold [of "ord (fmdom' (wf_channels f))" f c] ord show ?thesis
    by (simp add: wf_Broadcast_def)
qed

lemma wf_offer_bound: "length ch \<le> watcherBuffer \<Longrightarrow> length (wf_offer c ch) \<le> watcherBuffer"
  by (simp add: wf_offer_def go_simps)

lemma wf_Subscribe_eq:
  "wf_Subscribe f = (watcher_id (wf_nextID f + 1),
     f\<lparr>wf_nextID := wf_nextID f + 1, wf_channels := fmupd (watcher_id (wf_nextID f + 1)) [] (wf_channels f)\<rparr>)"
  by (simp add: wf_Subscribe_def Let_def watcher_id_def)

lemma wf_step_ok:
  assumes "is_order ord" "wf_ok f"
  shows "wf_ok (wf_step ord x f)"
proof (cases x)
  case WSubscribe
  with assms(2) show ?thesis
    by (fastforce simp: wf_ok_def wf_Subscribe_eq split: if_splits intro: order_trans)
next
  case (WUnsubscribe i)
  with assms(2) show ?thesis by (auto simp: wf_ok_def wf_Unsubscribe_def split: option.splits if_splits)
next
  case (WBroadcast c)
  with assms show ?thesis by (auto simp: wf_ok_def wf_Broadcast_eq intro: wf_offer_bound)
next
  case (WRecv i)
  with assms(2) show ?thesis
    by (cases "fmlookup (wf_channels f) i")
       (fastforce simp: wf_ok_def wf_Recv_def fm_get_def split: list.splits if_splits)+
qed

lemma wf_step_live:
  assumes "is_order ord" "wf_ok f" "fmlookup (wf_channels f) i = Some ch" "x \<noteq> WUnsubscribe i"
  shows "fmlookup (wf_channels (wf_step ord x f)) i = Some
    (case x of WBroadcast c \<Rightarrow> wf_offer c ch | WRecv j \<Rightarrow> if i = j then tl ch else ch | _ \<Rightarrow> ch)"
proof (cases x)
  case WSubscribe
  have "i \<noteq> watcher_id (wf_nextID f + 1)" using assms(2,3) by (fastforce simp: wf_ok_def)
  with WSubscribe assms(3) show ?thesis by (simp add: wf_Subscribe_eq)
next
  case (WUnsubscribe j)
  with assms(3,4) show ?thesis by (simp add: wf_Unsubscribe_def split: option.split)
next
  case (WBroadcast c)
  with assms(1,3) show ?thesis by (simp add: wf_Broadcast_eq)
next
  case (WRecv j)
  with assms(3) show ?thesis by (cases ch) (auto simp: wf_Recv_def split: list.split)
qed

lemma wf_delivery:
  assumes "is_order ord" "wf_ok f" "fmlookup (wf_channels f) i = Some ch" "WUnsubscribe i \<notin> set ops"
  shows "\<exists>ch'. fmlookup (wf_channels (fold (wf_step ord) ops f)) i = Some ch' \<and> length ch' \<le> watcherBuffer
    \<and> subseq (wf_got ord i ops f @ ch') (ch @ broadcasts ops)
    \<and> (wf_lost ord i ops f = 0 \<longrightarrow> wf_got ord i ops f @ ch' = ch @ broadcasts ops)"
  using assms(2-)
proof (induction ops arbitrary: f ch)
  case Nil
  then show ?case by (auto simp: wf_ok_def)
next
  case (Cons x ops)
  let ?f = "wf_step ord x f"
  let ?ch = "case x of WBroadcast c \<Rightarrow> wf_offer c ch | WRecv j \<Rightarrow> if i = j then tl ch else ch | _ \<Rightarrow> ch"
  have "x \<noteq> WUnsubscribe i" and ops: "WUnsubscribe i \<notin> set ops" using Cons.prems(3) by auto
  from this(1) have ch: "fmlookup (wf_channels ?f) i = Some ?ch" by (rule wf_step_live [OF assms(1) Cons.prems(1,2)])
  obtain ch' where IH: "fmlookup (wf_channels (fold (wf_step ord) ops ?f)) i = Some ch'" "length ch' \<le> watcherBuffer"
    "subseq (wf_got ord i ops ?f @ ch') (?ch @ broadcasts ops)"
    "wf_lost ord i ops ?f = 0 \<longrightarrow> wf_got ord i ops ?f @ ch' = ?ch @ broadcasts ops"
    using Cons.IH [OF wf_step_ok [OF assms(1) Cons.prems(1)] ch ops] by (elim exE conjE) 
  show ?case
  proof (cases x)
    case (WBroadcast c)
    have "subseq (?ch @ broadcasts ops) (ch @ broadcasts (x # ops))"
    proof (cases "chan_full watcherBuffer ch")
      case True
      have "subseq (broadcasts ops) (c # broadcasts ops)" by (rule list_emb_Cons) simp
      then have "subseq (ch @ broadcasts ops) (ch @ c # broadcasts ops)" by (intro list_emb_append_mono) simp_all
      with True WBroadcast show ?thesis by (simp add: wf_offer_def)
    qed (simp add: WBroadcast wf_offer_def go_simps)
    with IH(3) have "subseq (wf_got ord i ops ?f @ ch') (ch @ broadcasts (x # ops))" by (rule subseq_order.trans)
    moreover have "wf_lost ord i (x # ops) f = 0 \<Longrightarrow> ?ch = ch @ [c] \<and> wf_lost ord i ops ?f = 0"
      using WBroadcast Cons.prems(2) by (simp add: wf_offer_def chan_send_def split: if_splits)
    ultimately show ?thesis using IH WBroadcast by (intro exI [of _ ch']) auto
  next
    case (WRecv j)
    with IH Cons.prems(2) show ?thesis by (intro exI [of _ ch']) (cases ch; auto simp: wf_Recv_def)
  qed (use IH in auto)
qed


lemma wf_ok_New: "wf_ok NewWatcherFanout"
  by (simp add: wf_ok_def NewWatcherFanout_def)

lemma wf_ok_run: "is_order ord \<Longrightarrow> wf_ok f \<Longrightarrow> wf_ok (fold (wf_step ord) ops f)"
  by (rule fold_invariant_set) (auto intro: wf_step_ok)

text \<open>
  C28. Ownership changes reach the watchers: a new watcher gets an id no watcher had before; while
  it does not unsubscribe, what it has received followed by what waits in its channel is always a
  subsequence, in order, of the changes broadcast since, and is all of them as long as no broadcast
  found its 16 places taken; no channel is ever closed twice.
\<close>

theorem watcher_delivery:
  assumes "is_order ord" and "wf_Subscribe (fold (wf_step ord) before NewWatcherFanout) = (i, f)"
    and "WUnsubscribe i \<notin> set ops"
  shows "\<not> fm_has (wf_channels (fold (wf_step ord) before NewWatcherFanout)) i \<and> i \<notin> set (wf_closed f)
    \<and> (\<exists>q. fmlookup (wf_channels (fold (wf_step ord) ops f)) i = Some q \<and> length q \<le> 16
        \<and> subseq (wf_got ord i ops f @ q) (broadcasts ops)
        \<and> (wf_lost ord i ops f = 0 \<longrightarrow> wf_got ord i ops f @ q = broadcasts ops))
    \<and> distinct (wf_closed (fold (wf_step ord) ops f))"
proof -
  let ?f = "fold (wf_step ord) before NewWatcherFanout"
  have ok: "wf_ok ?f" by (rule wf_ok_run [OF assms(1) wf_ok_New])
  have f: "f = wf_step ord WSubscribe ?f" "i = watcher_id (wf_nextID ?f + 1)"
    and ch: "fmlookup (wf_channels f) i = Some []" using assms(2) by (auto simp: wf_Subscribe_eq)
  have ok': "wf_ok f" unfolding f(1) by (rule wf_step_ok [OF assms(1) ok])
  have "\<not> fm_has (wf_channels ?f) i" unfolding f(2) using ok by (fastforce simp: wf_ok_def fm_has_def)
  moreover have "i \<notin> set (wf_closed f)" using ok' ch by (auto simp: wf_ok_def)
  moreover have "distinct (wf_closed (fold (wf_step ord) ops f))"
    using wf_ok_run [OF assms(1) ok', of ops] by (simp add: wf_ok_def)
  ultimately show ?thesis using wf_delivery [OF assms(1) ok' ch assms(3)] by simp
qed

theorem watcher_delivery_witness:
  "let c = \<lparr>oc_zone_id = ''z'', oc_server_id = ''gs'', oc_host = ''h'', oc_port = 1\<rparr>;
       f = snd (wf_Subscribe NewWatcherFanout); ops = [WBroadcast c, WRecv ''w1'', WBroadcast c]
   in fmlookup (wf_channels (fold (wf_step sorted_list_of_set) ops f)) ''w1'' = Some [c]"
proof -
  define c where "c = \<lparr>oc_zone_id = ''z'', oc_server_id = ''gs'', oc_host = ''h'', oc_port = 1\<rparr>"
  let ?f = "snd (wf_Subscribe NewWatcherFanout)" and ?ops = "[WBroadcast c, WRecv ''w1'', WBroadcast c]"
  have id1: "itoa 1 = ''1''" by (simp add: itoa_def nat_to_string.simps digit_char_def char_of_def bit_0)
  have s: "wf_Subscribe (fold (wf_step sorted_list_of_set) [] NewWatcherFanout) = (''w1'', ?f)"
    by (simp add: wf_Subscribe_def NewWatcherFanout_def Let_def id1)
  have b: "wf_Broadcast sorted_list_of_set c f = f\<lparr>wf_channels := fmmap (wf_offer c) (wf_channels f)\<rparr>" for f
    by (rule wf_Broadcast_eq [OF is_order_sorted])
  have got: "wf_got sorted_list_of_set ''w1'' ?ops ?f = [c]" and lost: "wf_lost sorted_list_of_set ''w1'' ?ops ?f = 0"
    by (simp_all add: b wf_Subscribe_def NewWatcherFanout_def Let_def id1 wf_offer_def wf_Recv_def go_simps fm_get_def)
  obtain q where "fmlookup (wf_channels (fold (wf_step sorted_list_of_set) ?ops ?f)) ''w1'' = Some q"
    "wf_got sorted_list_of_set ''w1'' ?ops ?f @ q = broadcasts ?ops"
    using watcher_delivery [OF is_order_sorted s, of ?ops] lost by auto
  with got show ?thesis by (simp add: Let_def c_def)
qed

end
