(* ===== verification/Gateway_Limits.thy ===== *)
theory Gateway_Limits
  imports Room_Registry
begin

section \<open>The gateway's routing cache and rate limiters: \<open>cache.go\<close>, \<open>ratelimit.go\<close>\<close>

text \<open>
  \<open>RouterCache\<close> remembers the owner of a zone for a while; the buckets of \<open>ratelimit.go\<close> bound how
  many packets a connection and a client may send. Every operation runs under its lock, so it is one
  step; \<open>Get\<close> gives its lock up between reading a stale entry and deleting it, so these are two. The
  function \<open>now\<close> of a bucket is the argument of the calls that use it.
\<close>

subsection \<open>The cache\<close>

record CacheEntry =
  ce_ServerID :: string
  ce_Host :: string
  ce_Port :: int

record cacheItem =
  ci_entry :: CacheEntry
  ci_expiresAt :: Time

record RouterCache =
  rc_ttl :: Duration
  rc_entries :: "(string, cacheItem) fmap"

definition NewRouterCache :: "Duration \<Rightarrow> RouterCache" where
  "NewRouterCache ttl = \<lparr>rc_ttl = ttl, rc_entries = fmempty\<rparr>"

definition rc_Set :: "string \<Rightarrow> string \<Rightarrow> string \<Rightarrow> int \<Rightarrow> Time \<Rightarrow> RouterCache \<Rightarrow> RouterCache" where
  "rc_Set zoneID serverID host port now rc =
     rc\<lparr>rc_entries := fmupd zoneID
          \<lparr>ci_entry = \<lparr>ce_ServerID = serverID, ce_Host = host, ce_Port = port\<rparr>,
           ci_expiresAt = time_Add now (rc_ttl rc)\<rparr> (rc_entries rc)\<rparr>"

definition rc_Invalidate :: "string \<Rightarrow> RouterCache \<Rightarrow> RouterCache" where
  "rc_Invalidate zoneID rc = rc\<lparr>rc_entries := fmdrop zoneID (rc_entries rc)\<rparr>"

definition rc_ApplyChange :: "OwnershipChange \<Rightarrow> Time \<Rightarrow> RouterCache \<Rightarrow> RouterCache" where
  "rc_ApplyChange c now rc = rc_Set (oc_zone_id c) (oc_server_id c) (oc_host c) (oc_port c) now rc"

datatype cache_read = Absent | Stale | Fresh CacheEntry

definition rc_read :: "string \<Rightarrow> Time \<Rightarrow> RouterCache \<Rightarrow> cache_read" where
  \<comment> \<open>what \<open>Get\<close> finds under the read lock\<close>
  "rc_read zoneID now rc =
     (case fmlookup (rc_entries rc) zoneID of
        None \<Rightarrow> Absent
      | Some item \<Rightarrow> if time_After now (ci_expiresAt item) then Stale else Fresh (ci_entry item))"

definition rc_Get :: "string \<Rightarrow> Time \<Rightarrow> RouterCache \<Rightarrow> CacheEntry option \<times> RouterCache" where
  "rc_Get zoneID now rc =
     (case rc_read zoneID now rc of
        Absent \<Rightarrow> (None, rc)
      | Stale \<Rightarrow> (None, rc_Invalidate zoneID rc)
      | Fresh e \<Rightarrow> (Some e, rc))"

subsection \<open>Token buckets\<close>

record tokenBucket =
  tb_tokens :: float64
  tb_rate :: float64
  tb_burst :: float64
  tb_lastTime :: Time

definition newTokenBucket :: "float64 \<Rightarrow> float64 \<Rightarrow> Time \<Rightarrow> tokenBucket" where
  "newTokenBucket rate burst now = \<lparr>tb_tokens = burst, tb_rate = rate, tb_burst = burst, tb_lastTime = now\<rparr>"

definition tb_allow :: "Time \<Rightarrow> tokenBucket \<Rightarrow> bool \<times> tokenBucket" where
  "tb_allow now b =
     (let elapsed = dur_Seconds (time_Sub now (tb_lastTime b));
          b = b\<lparr>tb_lastTime := now\<rparr>;
          b = b\<lparr>tb_tokens := tb_tokens b + elapsed * tb_rate b\<rparr>;
          b = (if tb_burst b < tb_tokens b then b\<lparr>tb_tokens := tb_burst b\<rparr> else b)
      in if tb_tokens b < 1 then (False, b) else (True, b\<lparr>tb_tokens := tb_tokens b - 1\<rparr>))"

record connectionLimiter =
  cl_bucket :: tokenBucket
  cl_drops :: "64 word"

definition newConnectionLimiter :: "float64 \<Rightarrow> float64 \<Rightarrow> Time \<Rightarrow> connectionLimiter" where
  "newConnectionLimiter rate burst now = \<lparr>cl_bucket = newTokenBucket rate burst now, cl_drops = 0\<rparr>"

definition cl_allow :: "Time \<Rightarrow> connectionLimiter \<Rightarrow> bool \<times> connectionLimiter" where
  "cl_allow now l =
     (case tb_allow now (cl_bucket l) of
        (True, b) \<Rightarrow> (True, l\<lparr>cl_bucket := b\<rparr>)
      | (False, b) \<Rightarrow> (False, l\<lparr>cl_bucket := b, cl_drops := cl_drops l + 1\<rparr>))"

record ipBucket =
  ib_bucket :: tokenBucket

record ipLimiter =
  il_mu :: "(string, ipBucket) fmap"
  il_rate :: float64
  il_burst :: float64
  il_drops :: "64 word"

definition newIPLimiter :: "float64 \<Rightarrow> float64 \<Rightarrow> ipLimiter" where
  "newIPLimiter rate burst = \<lparr>il_mu = fmempty, il_rate = rate, il_burst = burst, il_drops = 0\<rparr>"

definition il_allow :: "string \<Rightarrow> Time \<Rightarrow> Time \<Rightarrow> ipLimiter \<Rightarrow> bool \<times> ipLimiter" where
  \<comment> \<open>the clock is read by \<open>newTokenBucket\<close>, whose bucket is kept for a new ip only, and by the bucket\<close>
  "il_allow ip now1 now2 l =
     (let b = fm_get \<lparr>ib_bucket = newTokenBucket (il_rate l) (il_burst l) now1\<rparr> (il_mu l) ip in
      case tb_allow now2 (ib_bucket b) of
        (True, b) \<Rightarrow> (True, l\<lparr>il_mu := fmupd ip \<lparr>ib_bucket = b\<rparr> (il_mu l)\<rparr>)
      | (False, b) \<Rightarrow> (False, l\<lparr>il_mu := fmupd ip \<lparr>ib_bucket = b\<rparr> (il_mu l), il_drops := il_drops l + 1\<rparr>))"

subsection \<open>What the cache promises\<close>

datatype cache_op =
    CSet string string string int
  | CInvalidate string
  | CApply OwnershipChange
  | CGet string
  | CDelete string   \<comment> \<open>the delayed delete of a \<open>Get\<close> that read a stale entry\<close>

fun cache_step :: "cache_op \<Rightarrow> Time \<Rightarrow> RouterCache \<Rightarrow> RouterCache" where
  "cache_step (CSet z s h p) now rc = rc_Set z s h p now rc"
| "cache_step (CInvalidate z) now rc = rc_Invalidate z rc"
| "cache_step (CApply c) now rc = rc_ApplyChange c now rc"
| "cache_step (CGet z) now rc = snd (rc_Get z now rc)"
| "cache_step (CDelete z) now rc = rc_Invalidate z rc"

definition cache_run :: "(Time \<times> cache_op) list \<Rightarrow> RouterCache \<Rightarrow> RouterCache" where
  "cache_run hist rc = fold (\<lambda>(t, x). cache_step x t) hist rc"

fun op_sets :: "cache_op \<Rightarrow> (string \<times> CacheEntry) option" where
  "op_sets (CSet z s h p) = Some (z, \<lparr>ce_ServerID = s, ce_Host = h, ce_Port = p\<rparr>)"
| "op_sets (CApply c) = Some (oc_zone_id c, \<lparr>ce_ServerID = oc_server_id c, ce_Host = oc_host c, ce_Port = oc_port c\<rparr>)"
| "op_sets _ = None"

fun op_clears :: "cache_op \<Rightarrow> string option" where
  "op_clears (CInvalidate z) = Some z"
| "op_clears (CDelete z) = Some z"
| "op_clears _ = None"

definition last_set :: "string \<Rightarrow> (Time \<times> cache_op) list \<Rightarrow> (Time \<times> CacheEntry) option" where
  \<comment> \<open>the abstract cache: the last entry set for the zone, unless it was cleared since\<close>
  "last_set z hist = fold (\<lambda>(t, x) last.
     case op_sets x of
       Some (z', e) \<Rightarrow> if z' = z then Some (t, e) else last
     | None \<Rightarrow> if op_clears x = Some z then None else last) hist None"

fun slot_rel :: "Time \<Rightarrow> Duration \<Rightarrow> cacheItem option \<Rightarrow> (Time \<times> CacheEntry) option \<Rightarrow> bool" where
  \<comment> \<open>an item the cache holds is the abstract one; an item it lacks has expired by now\<close>
  "slot_rel now ttl (Some item) s \<longleftrightarrow> s = Some (ci_expiresAt item - ttl, ci_entry item)"
| "slot_rel now ttl None (Some (t, e)) \<longleftrightarrow> t + ttl < now"
| "slot_rel now ttl None None \<longleftrightarrow> True"

definition cache_rel :: "Time \<Rightarrow> RouterCache \<Rightarrow> (string \<Rightarrow> (Time \<times> CacheEntry) option) \<Rightarrow> bool" where
  "cache_rel now rc spec \<longleftrightarrow> (\<forall>z. slot_rel now (rc_ttl rc) (fmlookup (rc_entries rc) z) (spec z))"

lemma slot_rel_later: "slot_rel now ttl i s \<Longrightarrow> now \<le> now' \<Longrightarrow> slot_rel now' ttl i s"
  by (cases "(now, ttl, i, s)" rule: slot_rel.cases) auto

lemma cache_rel_later: "cache_rel now rc spec \<Longrightarrow> now \<le> now' \<Longrightarrow> cache_rel now' rc spec"
  by (auto simp: cache_rel_def intro: slot_rel_later)

lemma cache_step_ttl [simp]: "rc_ttl (cache_step x t rc) = rc_ttl rc"
  by (cases x) (auto simp: rc_Set_def rc_Invalidate_def rc_ApplyChange_def rc_Get_def split: cache_read.splits)

lemma cache_run_ttl [simp]: "rc_ttl (cache_run hist rc) = rc_ttl rc"
  by (induction hist arbitrary: rc) (auto simp: cache_run_def)

lemma last_set_snoc:
  "last_set z (hist @ [(t, x)]) =
     (case op_sets x of
        Some (z', e) \<Rightarrow> if z' = z then Some (t, e) else last_set z hist
      | None \<Rightarrow> if op_clears x = Some z then None else last_set z hist)"
  by (simp add: last_set_def split: option.split)

lemma cache_rel_step:
  assumes "cache_rel t rc (\<lambda>z. last_set z hist)"
  shows "cache_rel t (cache_step x t rc) (\<lambda>z. last_set z (hist @ [(t, x)]))"
proof -
  have slot: "slot_rel t (rc_ttl rc) (fmlookup (rc_entries rc) z) (last_set z hist)" for z
    using assms by (simp add: cache_rel_def)
  show ?thesis
  proof (cases x)
    case (CGet y)
    have "slot_rel t (rc_ttl rc) None (last_set y hist)" if "rc_read y t rc = Stale"
      using that slot [of y] by (auto simp: rc_read_def go_simps split: option.splits if_splits)
    then show ?thesis using slot CGet
      by (simp add: cache_rel_def last_set_snoc rc_Get_def rc_Invalidate_def split: cache_read.split)
  qed (simp_all add: slot cache_rel_def last_set_snoc rc_Set_def rc_Invalidate_def rc_ApplyChange_def go_simps)
qed

lemma cache_rel_run:
  "sorted (map fst hist) \<Longrightarrow> \<forall>t \<in> set (map fst hist). t \<le> now \<Longrightarrow>
     cache_rel now (cache_run hist (NewRouterCache ttl)) (\<lambda>z. last_set z hist)"
proof (induction hist arbitrary: now rule: rev_induct)
  case Nil
  show ?case by (simp add: cache_rel_def cache_run_def NewRouterCache_def last_set_def)
next
  case (snoc y hist)
  obtain t x where [simp]: "y = (t, x)" by (cases y)
  have "cache_rel t (cache_run hist (NewRouterCache ttl)) (\<lambda>z. last_set z hist)"
    using snoc.prems by (intro snoc.IH) (auto simp: sorted_append)
  from cache_rel_later [OF cache_rel_step [OF this, of x], of now] snoc.prems show ?case
    by (simp add: cache_run_def)
qed

text \<open>
  The routing cache answers with the last entry set for the zone, by \<open>Set\<close> or by an ownership
  change, if that is at most its time to live ago and the entry was not invalidated since, and with
  nothing otherwise, whatever the order of the calls; only the delayed delete of an overtaken \<open>Get\<close>
  can lose an entry, none can bring a wrong or an expired one.
\<close>

theorem router_cache_exact:
  assumes "sorted (map fst hist)" and "\<forall>t \<in> set (map fst hist). t \<le> now"
  shows "fst (rc_Get z now (cache_run hist (NewRouterCache ttl))) =
    (case last_set z hist of
       Some (t, e) \<Rightarrow> if now \<le> t + ttl then Some e else None
     | None \<Rightarrow> None)"
proof -
  let ?rc = "cache_run hist (NewRouterCache ttl)"
  have ttl: "rc_ttl ?rc = ttl" by (simp add: NewRouterCache_def)
  have "slot_rel now ttl (fmlookup (rc_entries ?rc) z) (last_set z hist)"
    using cache_rel_run [OF assms, of ttl] unfolding cache_rel_def ttl by blast
  then show ?thesis
    by (cases "fmlookup (rc_entries ?rc) z"; cases "last_set z hist") (auto simp: rc_Get_def rc_read_def go_simps)
qed

theorem router_cache_exact_witness:
  "fst (rc_Get ''z'' 6 (cache_run [(1, CSet ''z'' ''a'' ''h'' 1), (3, CApply \<lparr>oc_zone_id = ''z'', oc_server_id = ''b'', oc_host = ''i'', oc_port = 2\<rparr>),
       (4, CGet ''z''), (5, CSet ''y'' ''c'' ''k'' 3), (6, CInvalidate ''y'')] (NewRouterCache 3)))
     = Some \<lparr>ce_ServerID = ''b'', ce_Host = ''i'', ce_Port = 2\<rparr>"
  by (subst router_cache_exact) (simp_all add: last_set_def)

subsection \<open>What a limiter promises\<close>

locale limiter =
  fixes allow :: "Time \<Rightarrow> 'b \<Rightarrow> bool \<times> 'b"
    and inv :: "'b \<Rightarrow> bool"
    and budget :: "'b \<Rightarrow> real"
    and rate :: "'b \<Rightarrow> real"
    and clock :: "'b \<Rightarrow> Time"
  assumes allow_inv: "inv b \<Longrightarrow> clock b \<le> t \<Longrightarrow> inv (snd (allow t b))"
    and allow_clock: "clock (snd (allow t b)) = t"
    and allow_rate: "rate (snd (allow t b)) = rate b"
    and allow_budget: "inv b \<Longrightarrow> clock b \<le> t \<Longrightarrow>
      budget (snd (allow t b)) + of_bool (fst (allow t b)) \<le> budget b + rate b * dur_Seconds (t - clock b)"
    and budget_nonneg: "inv b \<Longrightarrow> 0 \<le> budget b"
begin

fun run :: "Time list \<Rightarrow> 'b \<Rightarrow> bool list \<times> 'b" where
  "run [] b = ([], b)"
| "run (t # ts) b = (let r = allow t b; rest = run ts (snd r) in (fst r # fst rest, snd rest))"

lemma run_budget:
  "inv b \<Longrightarrow> sorted (clock b # ts) \<Longrightarrow>
     inv (snd (run ts b)) \<and> budget (snd (run ts b)) + count_list (fst (run ts b)) True
       \<le> budget b + rate b * dur_Seconds (last (clock b # ts) - clock b)"
proof (induction ts arbitrary: b)
  case (Cons t ts)
  let ?b = "snd (allow t b)"
  have t: "clock b \<le> t" "sorted (clock ?b # ts)" using Cons.prems(2) by (simp_all add: allow_clock)
  have IH: "inv (snd (run ts ?b))" "budget (snd (run ts ?b)) + count_list (fst (run ts ?b)) True
       \<le> budget ?b + rate b * dur_Seconds (last (t # ts) - t)"
    using Cons.IH [OF allow_inv [OF Cons.prems(1) t(1)] t(2)] by (simp_all add: allow_clock allow_rate)
  have "dur_Seconds (last (t # ts) - clock b) = dur_Seconds (last (t # ts) - t) + dur_Seconds (t - clock b)"
    by (simp add: go_simps diff_divide_distrib)
  then have "rate b * dur_Seconds (last (t # ts) - clock b)
      = rate b * dur_Seconds (last (t # ts) - t) + rate b * dur_Seconds (t - clock b)"
    by (simp add: distrib_left)
  with IH allow_budget [OF Cons.prems(1) t(1)] show ?case by (auto simp: Let_def)
qed (simp add: go_simps)

lemma run_bound:
  assumes "inv b" "sorted (clock b # ts)"
  shows "count_list (fst (run ts b)) True \<le> budget b + rate b * dur_Seconds (last (clock b # ts) - clock b)"
  using run_budget [OF assms] budget_nonneg [of "snd (run ts b)"] by linarith

lemma run_length [simp]: "length (fst (run ts b)) = length ts"
  by (induction ts arbitrary: b) (simp_all add: Let_def)

end

definition tb_ok :: "tokenBucket \<Rightarrow> bool" where
  "tb_ok b \<longleftrightarrow> 0 \<le> tb_tokens b \<and> tb_tokens b \<le> tb_burst b \<and> 0 \<le> tb_rate b"

lemma tb_ok_new: "0 \<le> rate \<Longrightarrow> 0 \<le> burst \<Longrightarrow> tb_ok (newTokenBucket rate burst now)"
  by (simp add: tb_ok_def newTokenBucket_def)

lemma tb_allow_fields [simp]:
  "tb_lastTime (snd (tb_allow t b)) = t" "tb_rate (snd (tb_allow t b)) = tb_rate b" "tb_burst (snd (tb_allow t b)) = tb_burst b"
  by (simp_all add: tb_allow_def Let_def)

lemma elapsed_bounds:
  "u \<le> t \<Longrightarrow> 0 \<le> dur_Seconds (time_Sub t u) \<and> dur_Seconds (time_Sub t u) \<le> dur_Seconds (t - u)"
  using time_Sub_nonneg [of u t] by (auto simp: go_simps time_Sub_def sat64_def)

lemma tb_allow_ok:
  assumes "tb_ok b" "tb_lastTime b \<le> t"
  shows "tb_ok (snd (tb_allow t b))"
    and "tb_tokens (snd (tb_allow t b)) + of_bool (fst (tb_allow t b)) \<le> tb_tokens b + tb_rate b * dur_Seconds (t - tb_lastTime b)"
proof -
  let ?e = "dur_Seconds (time_Sub t (tb_lastTime b))"
  have "0 \<le> ?e * tb_rate b" "?e * tb_rate b \<le> tb_rate b * dur_Seconds (t - tb_lastTime b)"
    using elapsed_bounds [OF assms(2)] assms(1) by (auto simp: tb_ok_def mult.commute intro: mult_left_mono)
  with assms(1) show "tb_ok (snd (tb_allow t b))"
    and "tb_tokens (snd (tb_allow t b)) + of_bool (fst (tb_allow t b)) \<le> tb_tokens b + tb_rate b * dur_Seconds (t - tb_lastTime b)"
    by (auto simp: tb_allow_def Let_def tb_ok_def)
qed

interpretation tb: limiter tb_allow tb_ok tb_tokens tb_rate tb_lastTime
  by unfold_locales (simp_all add: tb_allow_ok, simp add: tb_ok_def)

lemma cl_allow_eq:
  "cl_allow t l = (fst (tb_allow t (cl_bucket l)),
     l\<lparr>cl_bucket := snd (tb_allow t (cl_bucket l)), cl_drops := cl_drops l + of_bool (\<not> fst (tb_allow t (cl_bucket l)))\<rparr>)"
  by (simp add: cl_allow_def split: prod.split bool.split)

interpretation cl: limiter cl_allow "\<lambda>l. tb_ok (cl_bucket l)" "\<lambda>l. tb_tokens (cl_bucket l)" "\<lambda>l. tb_rate (cl_bucket l)" "\<lambda>l. tb_lastTime (cl_bucket l)"
  by unfold_locales (simp_all add: cl_allow_eq tb_allow_ok tb.budget_nonneg)

text \<open>A caller that waits long enough is never refused.\<close>

lemma tb_allow_spaced:
  assumes "tb_ok b" "1 \<le> tb_burst b" "1 \<le> tb_rate b" "tb_lastTime b \<le> t"
    and "1 \<le> tb_rate b * dur_Seconds (t - tb_lastTime b)"
  shows "fst (tb_allow t b)"
proof -
  have "1 \<le> tb_rate b * dur_Seconds (time_Sub t (tb_lastTime b))"
  proof (cases "t - tb_lastTime b < 2 ^ 63")
    case True
    with assms(4,5) show ?thesis by simp
  next
    case False
    then have "1 \<le> dur_Seconds (time_Sub t (tb_lastTime b))"
      by (simp add: time_Sub_def sat64_def go_simps)
    with assms(3) mult_mono [of 1 "tb_rate b" 1] show ?thesis by simp
  qed
  with assms(1,2) show ?thesis by (auto simp: tb_allow_def Let_def tb_ok_def mult.commute)
qed

subsection \<open>The limiter per client\<close>

record ip_call =
  ic_ip :: string
  ic_now1 :: Time
  ic_now2 :: Time

fun il_run :: "ip_call list \<Rightarrow> ipLimiter \<Rightarrow> (string \<times> bool) list \<times> ipLimiter" where
  "il_run [] l = ([], l)"
| "il_run (c # cs) l =
     (let r = il_allow (ic_ip c) (ic_now1 c) (ic_now2 c) l; rest = il_run cs (snd r)
      in ((ic_ip c, fst r) # fst rest, snd rest))"

definition answers :: "string \<Rightarrow> (string \<times> bool) list \<Rightarrow> bool list" where
  "answers ip rs = map snd (filter (\<lambda>r. fst r = ip) rs)"

definition calls_of :: "string \<Rightarrow> ip_call list \<Rightarrow> ip_call list" where
  "calls_of ip cs = filter (\<lambda>c. ic_ip c = ip) cs"

definition bucket_for :: "string \<Rightarrow> Time \<Rightarrow> ipLimiter \<Rightarrow> tokenBucket" where
  "bucket_for ip t l = ib_bucket (fm_get \<lparr>ib_bucket = newTokenBucket (il_rate l) (il_burst l) t\<rparr> (il_mu l) ip)"

lemma il_allow_eq:
  "il_allow ip t1 t2 l =
     (let r = tb_allow t2 (bucket_for ip t1 l)
      in (fst r, l\<lparr>il_mu := fmupd ip \<lparr>ib_bucket = snd r\<rparr> (il_mu l), il_drops := il_drops l + of_bool (\<not> fst r)\<rparr>))"
  by (simp add: il_allow_def bucket_for_def Let_def split: prod.split bool.split)

lemma bucket_for_allow [simp]:
  "bucket_for ip t (snd (il_allow ip' t1 t2 l)) = (if ip = ip' then snd (tb_allow t2 (bucket_for ip t1 l)) else bucket_for ip t l)"
  by (simp add: il_allow_eq Let_def bucket_for_def)

lemma il_run_project:
  \<comment> \<open>the answers to one client are those of a bucket of its own\<close>
  "answers ip (fst (il_run cs l)) =
     (case calls_of ip cs of [] \<Rightarrow> [] | c # _ \<Rightarrow> fst (tb.run (map ic_now2 (calls_of ip cs)) (bucket_for ip (ic_now1 c) l)))"
proof (induction cs arbitrary: l)
  case (Cons c cs)
  let ?l = "snd (il_allow (ic_ip c) (ic_now1 c) (ic_now2 c) l)"
  show ?case
  proof (cases "ic_ip c = ip")
    case True
    have f: "fst (il_allow ip t1 t2 l) = fst (tb_allow t2 (bucket_for ip t1 l))" for t1 t2 by (simp add: il_allow_eq Let_def)
    show ?thesis using Cons.IH [of ?l] True
      by (simp add: Let_def answers_def calls_of_def f split: list.split)
  next
    case False
    then show ?thesis using Cons.IH [of ?l]
      by (simp add: Let_def answers_def calls_of_def split: list.split)
  qed
qed (simp add: answers_def calls_of_def)

lemma il_run_drops:
  "il_drops (snd (il_run cs l)) = il_drops l + of_nat (count_list (map snd (fst (il_run cs l))) False)"
  by (induction cs arbitrary: l) (auto simp: Let_def il_allow_eq)

lemma tb_run_spaced:
  assumes "tb_ok b" "1 \<le> tb_burst b" "1 \<le> tb_rate b" "sorted (tb_lastTime b # ts)" "sorted_wrt (\<lambda>t u. 1 \<le> tb_rate b * dur_Seconds (u - t)) ts"
    and "ts \<noteq> [] \<Longrightarrow> 1 \<le> tb_tokens b \<or> 1 \<le> tb_rate b * dur_Seconds (hd ts - tb_lastTime b)"
  shows "list_all (\<lambda>x. x) (fst (tb.run ts b))"
  using assms
proof (induction ts arbitrary: b)
  case (Cons t ts)
  let ?b = "snd (tb_allow t b)"
  have t: "tb_lastTime b \<le> t" using Cons.prems(4) by simp
  have "fst (tb_allow t b)"
  proof (cases "1 \<le> tb_tokens b")
    case True
    with Cons.prems(1,2) elapsed_bounds [OF t] show ?thesis
      by (auto simp: tb_allow_def Let_def tb_ok_def not_less intro: add_increasing2)
  next
    case False
    with Cons.prems t show ?thesis by (intro tb_allow_spaced) simp_all
  qed
  moreover have "list_all (\<lambda>x. x) (fst (tb.run ts ?b))"
    using Cons.prems t by (intro Cons.IH) (auto simp: tb_allow_ok neq_Nil_conv)
  ultimately show ?case by (simp add: Let_def)
qed simp

text \<open>
  C35. The limiter per client bounds each client and only that client. Whatever calls of other clients
  come between, a client is allowed at most the burst and the rate times the time since its first
  call; with a rate and a burst of at least 1, a client whose calls are at least one over the rate
  apart is never refused; and the counter of drops is the number of refusals.
\<close>

theorem ip_limiter_bounds:
  assumes "0 \<le> rate" and "0 \<le> burst" and "calls_of ip cs = c # rest"
    and "sorted (ic_now1 c # map ic_now2 (calls_of ip cs))"
  shows "count_list (answers ip (fst (il_run cs (newIPLimiter rate burst)))) True
      \<le> burst + rate * dur_Seconds (ic_now2 (last (calls_of ip cs)) - ic_now1 c)
    \<and> (1 \<le> rate \<and> 1 \<le> burst \<and> sorted_wrt (\<lambda>t u. 1 \<le> rate * dur_Seconds (u - t)) (map ic_now2 (calls_of ip cs))
         \<longrightarrow> answers ip (fst (il_run cs (newIPLimiter rate burst))) = replicate (length (calls_of ip cs)) True)
    \<and> il_drops (snd (il_run cs (newIPLimiter rate burst)))
        = of_nat (count_list (map snd (fst (il_run cs (newIPLimiter rate burst)))) False)"
proof -
  let ?ts = "map ic_now2 (calls_of ip cs)" and ?b = "newTokenBucket rate burst (ic_now1 c)"
  have b: "bucket_for ip (ic_now1 c) (newIPLimiter rate burst) = ?b"
    by (simp add: bucket_for_def newIPLimiter_def)
  have ans: "answers ip (fst (il_run cs (newIPLimiter rate burst))) = fst (tb.run ?ts ?b)"
    by (simp only: il_run_project assms(3) list.case b)
  have ok: "tb_ok ?b" "tb_lastTime ?b = ic_now1 c" "tb_rate ?b = rate" "tb_burst ?b = burst" "tb_tokens ?b = burst"
    using tb_ok_new [OF assms(1,2)] by (simp_all add: newTokenBucket_def)
  have sorted: "sorted (tb_lastTime ?b # ?ts)" using assms(4) ok(2) by simp
  have last: "last (ic_now1 c # ?ts) = ic_now2 (last (calls_of ip cs))"
    using assms(3) by (simp add: last_map)
  have bound: "count_list (fst (tb.run ?ts ?b)) True \<le> burst + rate * dur_Seconds (ic_now2 (last (calls_of ip cs)) - ic_now1 c)"
    using tb.run_bound [OF ok(1) sorted] unfolding ok last .
  have all: "fst (tb.run ?ts ?b) = replicate (length (calls_of ip cs)) True"
    if "1 \<le> rate" "1 \<le> burst" "sorted_wrt (\<lambda>t u. 1 \<le> rate * dur_Seconds (u - t)) ?ts"
  proof -
    have "list_all (\<lambda>x. x) (fst (tb.run ?ts ?b))"
      by (rule tb_run_spaced [OF ok(1) _ _ sorted]) (use that ok in simp_all)
    then show ?thesis by (intro replicate_eqI) (auto simp: list_all_iff)
  qed
  show ?thesis
    unfolding ans using bound all by (auto simp: il_run_drops newIPLimiter_def)
qed

definition demo_calls :: "ip_call list" where
  "demo_calls = [\<lparr>ic_ip = ''a'', ic_now1 = 0, ic_now2 = 0\<rparr>, \<lparr>ic_ip = ''b'', ic_now1 = 0, ic_now2 = 0\<rparr>,
     \<lparr>ic_ip = ''a'', ic_now1 = 1000000000, ic_now2 = 1000000000\<rparr>]"

theorem ip_limiter_bounds_witness:
  "count_list (answers ''a'' (fst (il_run demo_calls (newIPLimiter 1 1)))) True \<le> (1 + 1 * dur_Seconds 1000000000 :: real)
     \<and> answers ''a'' (fst (il_run demo_calls (newIPLimiter 1 1))) = [True, True]"
proof -
  have c: "calls_of ''a'' demo_calls = [\<lparr>ic_ip = ''a'', ic_now1 = 0, ic_now2 = 0\<rparr>, \<lparr>ic_ip = ''a'', ic_now1 = 1000000000, ic_now2 = 1000000000\<rparr>]"
    by (simp add: calls_of_def demo_calls_def)
  have "sorted (ic_now1 \<lparr>ic_ip = ''a'', ic_now1 = 0, ic_now2 = 0\<rparr> # map ic_now2 (calls_of ''a'' demo_calls))" by (simp add: c)
  from ip_limiter_bounds [OF _ _ c this, of 1 1] show ?thesis by (simp add: c go_simps)
qed

end
