(* ===== verification/Base64.thy ===== *)
theory Base64
  imports Prelude
begin

section \<open>The library's \<open>base64.RawURLEncoding\<close>\<close>

text \<open>
  Session tokens are written, and the keys of a key set are read, in the URL alphabet without
  padding. The decoder is the one of the Go library: it skips line breaks, refuses every other
  character that is not of the alphabet, and ignores the unused bits of a last partial group.
\<close>

definition b64_alphabet :: string where
  "b64_alphabet = ''ABCDEFGHIJKLMNOPQRSTUVWXYZabcdefghijklmnopqrstuvwxyz0123456789-_''"

definition b64_char :: "nat \<Rightarrow> char" where
  "b64_char n = b64_alphabet ! n"

definition b64_val :: "char \<Rightarrow> nat option" where
  "b64_val c = map_of (zip b64_alphabet [0..<64]) c"

fun b64_encode :: "bytes \<Rightarrow> string" where
  "b64_encode [] = []"
| "b64_encode [a] = [b64_char (unat a div 4), b64_char (unat a mod 4 * 16)]"
| "b64_encode [a, b] =
     [b64_char (unat a div 4), b64_char (unat a mod 4 * 16 + unat b div 16), b64_char (unat b mod 16 * 4)]"
| "b64_encode (a # b # c # bs) =
     [b64_char (unat a div 4), b64_char (unat a mod 4 * 16 + unat b div 16),
      b64_char (unat b mod 16 * 4 + unat c div 64), b64_char (unat c mod 64)] @ b64_encode bs"

fun b64_bytes :: "nat list \<Rightarrow> bytes option" where
  "b64_bytes [] = Some []"
| "b64_bytes [x] = None"
| "b64_bytes [x, y] = Some [of_nat (x * 4 + y div 16)]"
| "b64_bytes [x, y, z] = Some [of_nat (x * 4 + y div 16), of_nat (y mod 16 * 16 + z div 4)]"
| "b64_bytes (x # y # z # w # rest) =
     (case b64_bytes rest of
        None \<Rightarrow> None
      | Some bs \<Rightarrow> Some ([of_nat (x * 4 + y div 16), of_nat (y mod 16 * 16 + z div 4), of_nat (z mod 4 * 64 + w)] @ bs))"

definition b64_decode :: "string \<Rightarrow> bytes option" where
  "b64_decode s =
     (let vs = map b64_val (filter (\<lambda>c. of_char c \<notin> {10, 13 :: nat}) s)
      in if None \<in> set vs then None else b64_bytes (map the vs))"

lemma length_b64_alphabet [simp]: "length b64_alphabet = 64"
  by (simp add: b64_alphabet_def)

lemma distinct_b64_alphabet: "distinct b64_alphabet"
  by (simp add: b64_alphabet_def)

lemma b64_val_char [simp]: "n < 64 \<Longrightarrow> b64_val (b64_char n) = Some n"
  by (simp add: b64_val_def b64_char_def map_of_zip_nth distinct_b64_alphabet)

lemma b64_char_in [simp]: "n < 64 \<Longrightarrow> b64_char n \<in> set b64_alphabet"
  by (simp add: b64_char_def)

lemma b64_no_breaks: "\<forall>c \<in> set b64_alphabet. of_char c \<notin> {10, 13 :: nat}"
  by (simp add: b64_alphabet_def)

lemma unat8 [simp]: "unat (a :: 8 word) < 256"
proof -
  have "unat a < 2 ^ LENGTH(8)" by (rule unsigned_less)
  then show ?thesis by simp
qed

lemma b64_parts [simp]:
  fixes a b c :: "8 word"
  shows "unat a div 4 < 64" "unat a mod 4 * 16 < 64" "unat a mod 4 * 16 + unat b div 16 < 64"
    "unat b mod 16 * 4 < 64" "unat b mod 16 * 4 + unat c div 64 < 64" "unat c mod 64 < 64"
  using unat8 [of a] unat8 [of b] unat8 [of c] by linarith+

lemma b64_encode_alphabet: "set (b64_encode bs) \<subseteq> set b64_alphabet"
  by (induction bs rule: b64_encode.induct) simp_all

lemma b64_high [simp]: "unat (b :: 8 word) div 16 < 16" "unat (b :: 8 word) div 64 < 4"
  using unat8 [of b] by linarith+

lemma b64_values:
  "None \<notin> set (map b64_val (b64_encode bs)) \<and> b64_bytes (map (the \<circ> b64_val) (b64_encode bs)) = Some bs"
  by (induction bs rule: b64_encode.induct) simp_all

lemma b64_decode_encode [simp]: "b64_decode (b64_encode bs) = Some bs"
proof -
  have "filter (\<lambda>c. of_char c \<notin> {10, 13 :: nat}) (b64_encode bs) = b64_encode bs"
    using b64_no_breaks b64_encode_alphabet [of bs] by (intro filter_True) blast
  then show ?thesis using b64_values [of bs] by (simp add: b64_decode_def)
qed

lemma b64_encode_inj [simp]: "b64_encode bs = b64_encode cs \<longleftrightarrow> bs = cs"
  using b64_decode_encode by (metis option.inject)

lemma length_b64_encode: "length (b64_encode bs) = (4 * length bs + 2) div 3"
  by (induction bs rule: b64_encode.induct) simp_all

end
