(* ===== verification/Auth.thy ===== *)
theory Auth
  imports Types Base64
begin

section \<open>Tokens: \<open>internal/auth\<close>\<close>

text \<open>
  The claims of a player's token and the key sets of an issuer. Parsing a token is
  \<open>jwt.Parse\<close> of a library; it is the parameter \<open>Parse\<close>, and \<open>jwt_law\<close> states what its
  documentation says: the token is read, the key function is asked for the key, and the token is
  returned, as valid, exactly if its signature and its time claims check with that key. The time
  \<open>now\<close> is the time of the call.
\<close>

datatype signing_method = SigningMethodHMAC | SigningMethodEd25519 | OtherMethod

datatype json_value = JString string | JNumber real | JBool bool | JNull | JOther

datatype jwt_claims = MapClaims "(string, json_value) fmap" | OtherClaims

datatype jwt_key = Secret bytes | PublicKey bytes

record jwt_token =
  tk_Method :: signing_method
  tk_alg :: string
  tk_Claims :: jwt_claims
  tk_Valid :: bool

type_synonym Keyfunc = "jwt_token \<Rightarrow> error + jwt_key"
type_synonym jwt_parser = "string \<Rightarrow> Keyfunc \<Rightarrow> error + jwt_token"

definition jwt_law :: "jwt_parser \<Rightarrow> (string \<Rightarrow> jwt_token option) \<Rightarrow> (string \<Rightarrow> jwt_key \<Rightarrow> bool) \<Rightarrow> bool" where
  "jwt_law Parse unverified verifies \<longleftrightarrow>
     (\<forall>s kf t. Parse s kf = Inr t \<longleftrightarrow>
        (\<exists>u key. unverified s = Some u \<and> kf u = Inr key \<and> verifies s key \<and> t = u\<lparr>tk_Valid := True\<rparr>))"

subsection \<open>\<open>auth.go\<close>\<close>

record Claims =
  cm_RuntimeID :: string
  cm_PlayerID :: string
  cm_ZoneID :: string

definition getString :: "(string, json_value) fmap \<Rightarrow> string \<Rightarrow> string" where
  "getString claims key =
     (case fmlookup claims key of
        None \<Rightarrow> ''''
      | Some v \<Rightarrow> (case v of JString s \<Rightarrow> s | _ \<Rightarrow> ''''))"

definition hmac_key :: "bytes \<Rightarrow> Keyfunc" where
  "hmac_key secret t =
     (if tk_Method t \<noteq> SigningMethodHMAC then Inl (ErrText (''unexpected signing method: '' @ tk_alg t))
      else Inr (Secret secret))"

definition ValidateToken :: "jwt_parser \<Rightarrow> string \<Rightarrow> bytes \<Rightarrow> error + Claims" where
  "ValidateToken Parse tokenStr secret =
     (case Parse tokenStr (hmac_key secret) of
        Inl err \<Rightarrow> Inl (Errorf ''parse token: '' err '''')
      | Inr token \<Rightarrow>
          (case tk_Claims token of
             OtherClaims \<Rightarrow> Inl (ErrText ''invalid token claims'')
           | MapClaims claims \<Rightarrow>
               if \<not> tk_Valid token then Inl (ErrText ''invalid token claims'')
               else Inr \<lparr>cm_RuntimeID = getString claims ''runtime_id'',
                         cm_PlayerID = getString claims ''player_id'',
                         cm_ZoneID = getString claims ''zone_id''\<rparr>))"

subsection \<open>\<open>jwks.go\<close>\<close>

record jwk =
  jk_Kid :: string
  jk_Kty :: string
  jk_Crv :: string
  jk_Alg :: string
  jk_X :: string

type_synonym jwksResponse = "jwk list"

record JWKSProvider =
  jp_url :: string
  jp_ttl :: Duration
  jp_keys :: "(string, bytes) fmap"
  jp_fetched :: Time

definition NewJWKSProvider :: "string \<Rightarrow> Duration \<Rightarrow> JWKSProvider" where
  "NewJWKSProvider url ttl = \<lparr>jp_url = url, jp_ttl = ttl, jp_keys = fmempty, jp_fetched = zero_time\<rparr>"

fun jwks_keys :: "jwk list \<Rightarrow> (string, bytes) fmap \<Rightarrow> (string, bytes) fmap" where
  \<comment> \<open>the loop over the keys of the response\<close>
  "jwks_keys [] keys = keys"
| "jwks_keys (k # ks) keys =
     (if jk_Alg k \<noteq> ''EdDSA'' \<or> jk_Crv k \<noteq> ''Ed25519'' then jwks_keys ks keys
      else
        (case b64_decode (jk_X k) of
           None \<Rightarrow> jwks_keys ks keys
         | Some x \<Rightarrow> if length x \<noteq> 32 then jwks_keys ks keys else jwks_keys ks (fmupd (jk_Kid k) x keys)))"

datatype jwks_answer =
    BadRequest error          \<comment> \<open>the request cannot be made\<close>
  | NoResponse error          \<comment> \<open>the request fails\<close>
  | BadBody error             \<comment> \<open>the body is not the JSON of a key set\<close>
  | Keys jwksResponse

definition Refresh :: "(string \<Rightarrow> jwks_answer) \<Rightarrow> Time \<Rightarrow> JWKSProvider \<Rightarrow> error option \<times> JWKSProvider" where
  "Refresh get now p =
     (case get (jp_url p) of
        BadRequest err \<Rightarrow> (Some err, p)
      | NoResponse err \<Rightarrow> (Some (Errorf ''jwks fetch: '' err ''''), p)
      | BadBody err \<Rightarrow> (Some (Errorf ''jwks decode: '' err ''''), p)
      | Keys body \<Rightarrow> (None, p\<lparr>jp_keys := jwks_keys body fmempty, jp_fetched := now\<rparr>))"

definition Verifier :: "JWKSProvider \<Rightarrow> Time \<Rightarrow> string \<Rightarrow> Keyfunc" where
  "Verifier p now kid t =
     (if tk_Method t \<noteq> SigningMethodEd25519
      then Inl (ErrText (''unexpected signing method '' @ tk_alg t @ '' (EdDSA required)''))
      else if jp_ttl p < time_Sub now (jp_fetched p)
      then Inl (ErrText ''jwks cache stale past ttl, refusing to verify'')
      else
        (case fmlookup (jp_keys p) kid of
           None \<Rightarrow> Inl (ErrText (''unknown kid '' @ kid))
         | Some k \<Rightarrow> Inr (PublicKey k)))"

subsection \<open>Which tokens are accepted\<close>

lemma ValidateToken_iff:
  assumes "jwt_law Parse unverified verifies"
  shows "ValidateToken Parse s secret = Inr c \<longleftrightarrow>
    (\<exists>u claims. unverified s = Some u \<and> tk_Method u = SigningMethodHMAC \<and> verifies s (Secret secret)
       \<and> tk_Claims u = MapClaims claims
       \<and> c = \<lparr>cm_RuntimeID = getString claims ''runtime_id'', cm_PlayerID = getString claims ''player_id'',
              cm_ZoneID = getString claims ''zone_id''\<rparr>)"
proof
  assume "ValidateToken Parse s secret = Inr c"
  then obtain t claims where t: "Parse s (hmac_key secret) = Inr t" "tk_Claims t = MapClaims claims"
      and c: "c = \<lparr>cm_RuntimeID = getString claims ''runtime_id'', cm_PlayerID = getString claims ''player_id'',
              cm_ZoneID = getString claims ''zone_id''\<rparr>"
    by (auto simp: ValidateToken_def split: sum.splits jwt_claims.splits if_splits)
  from t(1) assms obtain u key where "unverified s = Some u" "hmac_key secret u = Inr key" "verifies s key" "t = u\<lparr>tk_Valid := True\<rparr>"
    by (auto simp: jwt_law_def)
  with t(2) c show "\<exists>u claims. unverified s = Some u \<and> tk_Method u = SigningMethodHMAC \<and> verifies s (Secret secret)
       \<and> tk_Claims u = MapClaims claims
       \<and> c = \<lparr>cm_RuntimeID = getString claims ''runtime_id'', cm_PlayerID = getString claims ''player_id'',
              cm_ZoneID = getString claims ''zone_id''\<rparr>"
    by (auto simp: hmac_key_def split: if_splits)
next
  assume "\<exists>u claims. unverified s = Some u \<and> tk_Method u = SigningMethodHMAC \<and> verifies s (Secret secret)
       \<and> tk_Claims u = MapClaims claims
       \<and> c = \<lparr>cm_RuntimeID = getString claims ''runtime_id'', cm_PlayerID = getString claims ''player_id'',
              cm_ZoneID = getString claims ''zone_id''\<rparr>"
  then obtain u claims where u: "unverified s = Some u" "hmac_key secret u = Inr (Secret secret)" "verifies s (Secret secret)"
       "tk_Claims u = MapClaims claims"
       and c: "c = \<lparr>cm_RuntimeID = getString claims ''runtime_id'', cm_PlayerID = getString claims ''player_id'',
              cm_ZoneID = getString claims ''zone_id''\<rparr>"
    by (auto simp: hmac_key_def)
  from assms u(1-3) have "Parse s (hmac_key secret) = Inr (u\<lparr>tk_Valid := True\<rparr>)"
    unfolding jwt_law_def by blast
  with u(4) c show "ValidateToken Parse s secret = Inr c" by (simp add: ValidateToken_def)
qed

definition usable :: "jwk \<Rightarrow> (string \<times> bytes) option" where
  \<comment> \<open>the keys of a key set that count: Ed25519 keys of the right size\<close>
  "usable k =
     (if jk_Alg k = ''EdDSA'' \<and> jk_Crv k = ''Ed25519''
      then (case b64_decode (jk_X k) of Some x \<Rightarrow> if length x = 32 then Some (jk_Kid k, x) else None | None \<Rightarrow> None)
      else None)"

definition published :: "jwksResponse \<Rightarrow> string \<Rightarrow> bytes option" where
  \<comment> \<open>the key of a key set by its id; the last one counts\<close>
  "published body kid = map_of (rev (List.map_filter usable body)) kid"

lemma jwks_keys_lookup:
  "fmlookup (jwks_keys ks keys) kid = (case published ks kid of Some x \<Rightarrow> Some x | None \<Rightarrow> fmlookup keys kid)"
  by (induction ks arbitrary: keys)
    (auto simp: published_def usable_def List.map_filter_simps map_add_def split: option.splits)

lemma published_size: "published body kid = Some k \<Longrightarrow> length k = 32"
  by (auto simp: published_def set_map_filter usable_def dest!: map_of_SomeD split: if_splits option.splits)

definition refresh_run :: "(Time \<times> (string \<Rightarrow> jwks_answer)) list \<Rightarrow> JWKSProvider \<Rightarrow> JWKSProvider" where
  "refresh_run calls p = fold (\<lambda>(now, get) p. snd (Refresh get now p)) calls p"

definition fetched_body :: "string \<Rightarrow> Time \<times> (string \<Rightarrow> jwks_answer) \<Rightarrow> (Time \<times> jwksResponse) option" where
  "fetched_body url c = (case snd c url of Keys body \<Rightarrow> Some (fst c, body) | _ \<Rightarrow> None)"

lemma refresh_run_last:
  "jp_url (refresh_run calls p) = jp_url p \<and> jp_ttl (refresh_run calls p) = jp_ttl p \<and>
   (case List.map_filter (fetched_body (jp_url p)) calls of
      [] \<Rightarrow> refresh_run calls p = p
    | fs \<Rightarrow> jp_fetched (refresh_run calls p) = fst (last fs) \<and> jp_keys (refresh_run calls p) = jwks_keys (snd (last fs)) fmempty)"
proof (induction calls arbitrary: p)
  case (Cons c calls)
  obtain now get where c: "c = (now, get)" by (cases c)
  let ?p = "snd (Refresh get now p)"
  have "jp_url ?p = jp_url p" "jp_ttl ?p = jp_ttl p" by (auto simp: Refresh_def split: jwks_answer.split)
  with Cons.IH [of ?p] show ?case
    by (auto simp: c refresh_run_def List.map_filter_simps fetched_body_def Refresh_def split: jwks_answer.splits list.splits)
qed (simp add: refresh_run_def)

text \<open>
  C36. A token is accepted with a key set exactly if it is signed with EdDSA by a key of the last key
  set that was fetched, the key is an Ed25519 key of 32 bytes published there under the key id asked
  for, and that fetch is not longer ago than the time to live. Failed fetches change nothing, and
  before the first fetch no token is accepted.
\<close>

theorem jwks_verifier_exact:
  assumes "jwt_law Parse unverified verifies"
  shows "Parse s (Verifier (refresh_run calls (NewJWKSProvider url ttl)) now kid) = Inr t \<longleftrightarrow>
    (let fs = List.map_filter (fetched_body url) calls in
     fs \<noteq> [] \<and> time_Sub now (fst (last fs)) \<le> ttl \<and>
     (\<exists>u k. published (snd (last fs)) kid = Some k \<and> length k = 32 \<and> unverified s = Some u
        \<and> tk_Method u = SigningMethodEd25519 \<and> verifies s (PublicKey k) \<and> t = u\<lparr>tk_Valid := True\<rparr>))"
proof -
  let ?fs = "List.map_filter (fetched_body url) calls"
  define p where "p = refresh_run calls (NewJWKSProvider url ttl)"
  have ttl: "jp_ttl p = ttl" and none: "?fs = [] \<Longrightarrow> jp_keys p = fmempty"
    and some: "?fs \<noteq> [] \<Longrightarrow> jp_fetched p = fst (last ?fs) \<and> jp_keys p = jwks_keys (snd (last ?fs)) fmempty"
    using refresh_run_last [of calls "NewJWKSProvider url ttl"]
    by (auto simp: NewJWKSProvider_def p_def split: list.splits)
  have key: "Verifier p now kid u = Inr key \<longleftrightarrow> tk_Method u = SigningMethodEd25519 \<and> ?fs \<noteq> [] \<and>
      time_Sub now (fst (last ?fs)) \<le> ttl \<and> (\<exists>k. published (snd (last ?fs)) kid = Some k \<and> key = PublicKey k)" for u key
    using none some by (cases "?fs = []") (auto simp: Verifier_def ttl jwks_keys_lookup split: option.splits)
  show ?thesis
    using assms unfolding jwt_law_def p_def [symmetric] by (auto simp: key Let_def dest: published_size)
qed

definition demo_token :: jwt_token where
  "demo_token = \<lparr>tk_Method = SigningMethodEd25519, tk_alg = ''EdDSA'', tk_Claims = MapClaims fmempty, tk_Valid = False\<rparr>"

definition demo_parse :: "string \<Rightarrow> Keyfunc \<Rightarrow> error + jwt_token" where
  "demo_parse s kf =
     (case kf demo_token of
        Inl err \<Rightarrow> Inl err
      | Inr key \<Rightarrow> if key = PublicKey (replicate 32 7) then Inr (demo_token\<lparr>tk_Valid := True\<rparr>) else Inl (ErrText ''signature is invalid''))"

lemma demo_parse_law: "jwt_law demo_parse (\<lambda>_. Some demo_token) (\<lambda>_ key. key = PublicKey (replicate 32 7))"
  by (auto simp: jwt_law_def demo_parse_def split: sum.splits)

theorem jwks_verifier_exact_witness:
  "demo_parse ''token'' (Verifier (refresh_run
       [(10, \<lambda>_. Keys [\<lparr>jk_Kid = ''k1'', jk_Kty = ''OKP'', jk_Crv = ''Ed25519'', jk_Alg = ''EdDSA'', jk_X = b64_encode (replicate 32 7)\<rparr>]),
        (20, \<lambda>_. NoResponse (ErrText ''timeout''))] (NewJWKSProvider ''u'' 60)) 70 ''k1'') = Inr (demo_token\<lparr>tk_Valid := True\<rparr>)"
  unfolding jwks_verifier_exact [OF demo_parse_law]
  by (simp add: List.map_filter_simps fetched_body_def published_def usable_def Let_def demo_token_def)

end
