(* ===== verification/Gateway.thy ===== *)
theory Gateway
  imports Gateway_Limits Auth
begin

section \<open>The gateway: \<open>internal/session\<close>, \<open>internal/gateway\<close> and \<open>apps/gateway\<close>\<close>

text \<open>
  The pool of sessions, the HTTP handlers and the relay between a client's WebSocket and the stream to
  a game server. The WebSocket library, gRPC and the lookup of a zone are parameters: what they answer
  is an argument of the step that asks. A handler for \<open>/ws\<close> counts itself among the connections while it
  runs; so it is the composition of the step up to that, the work, and the step on return, and the
  steps of several requests interleave. The goroutines of a relay are steps of one relay state.
\<close>

subsection \<open>Sessions\<close>

record Session =
  sn_ClientID :: string
  sn_PlayerID :: string
  sn_ZoneID :: ZoneID
  sn_ServerID :: ServerID
  sn_Closed :: bool

definition NewSession :: "string \<Rightarrow> string \<Rightarrow> ZoneID \<Rightarrow> ServerID \<Rightarrow> Session" where
  "NewSession clientID playerID zoneID serverID =
     \<lparr>sn_ClientID = clientID, sn_PlayerID = playerID, sn_ZoneID = zoneID, sn_ServerID = serverID, sn_Closed = False\<rparr>"

definition session_Close :: "Session \<Rightarrow> Session" where
  "session_Close s = s\<lparr>sn_Closed := True\<rparr>"

type_synonym Pool = "(string, Session) fmap"

definition NewPool :: Pool where
  "NewPool = fmempty"

definition pool_Add :: "Session \<Rightarrow> Pool \<Rightarrow> Pool" where
  "pool_Add s p = fmupd (sn_ClientID s) s p"

definition pool_Get :: "string \<Rightarrow> Pool \<Rightarrow> Session option" where
  "pool_Get clientID p = fmlookup p clientID"

definition pool_Remove :: "string \<Rightarrow> Pool \<Rightarrow> Pool" where
  "pool_Remove clientID p = fmdrop clientID p"

definition pool_Count :: "Pool \<Rightarrow> int" where
  "pool_Count p = fm_len p"

subsection \<open>The handler\<close>

record gw_metrics =
  gm_ActiveConnections :: int
  gm_Dropped :: "(string, int) fmap"
  gm_Packets :: "(string, int) fmap"

record 's Handler =
  h_cache :: RouterCache
  h_lookuper :: "string \<Rightarrow> 's \<Rightarrow> (error + string) \<times> 's"
  h_jwtSecret :: bytes
  h_pool :: Pool
  h_draining :: bool
  h_conns :: int
  h_softLimit :: int
  h_readyFn :: "('s \<Rightarrow> bool) option"
  h_connLimitRate :: float64
  h_ipLimiter :: "ipLimiter option"
  h_reg :: "gw_metrics option"

definition NewHandler :: "RouterCache \<Rightarrow> (string \<Rightarrow> 's \<Rightarrow> (error + string) \<times> 's) \<Rightarrow> bytes \<Rightarrow> 's Handler" where
  "NewHandler cache lookuper jwtSecret =
     \<lparr>h_cache = cache, h_lookuper = lookuper, h_jwtSecret = jwtSecret, h_pool = NewPool, h_draining = False,
      h_conns = 0, h_softLimit = 9000, h_readyFn = None, h_connLimitRate = 100,
      h_ipLimiter = Some (newIPLimiter 500 500), h_reg = None\<rparr>"

definition SetDraining :: "bool \<Rightarrow> 's Handler \<Rightarrow> 's Handler" where
  "SetDraining v h = h\<lparr>h_draining := v\<rparr>"

definition SetReadyFn :: "('s \<Rightarrow> bool) \<Rightarrow> 's Handler \<Rightarrow> 's Handler" where
  "SetReadyFn fn h = h\<lparr>h_readyFn := Some fn\<rparr>"

definition SetMetrics :: "gw_metrics \<Rightarrow> 's Handler \<Rightarrow> 's Handler" where
  "SetMetrics reg h = h\<lparr>h_reg := Some reg\<rparr>"

definition ConnCount :: "'s Handler \<Rightarrow> int" where
  "ConnCount h = h_conns h"

record http_request =
  rq_Method :: string
  rq_Path :: string
  rq_token :: string   \<comment> \<open>the query parameter; empty if it is missing\<close>

datatype http_answer =
    Answer int string            \<comment> \<open>a status and a text\<close>
  | JsonAnswer int "(string \<times> string) list"
  | Upgraded nat                 \<comment> \<open>the connection is a WebSocket now\<close>
  | AcceptFailed error           \<comment> \<open>the WebSocket library has refused the request\<close>

definition status_page :: "string \<Rightarrow> http_request \<Rightarrow> http_answer" where
  "status_page s r =
     (if rq_Method r \<noteq> ''GET'' then Answer 405 ''method not allowed'' else JsonAnswer 200 [(''status'', s)])"

definition handleHealth :: "http_request \<Rightarrow> http_answer" where
  "handleHealth r = status_page ''ok'' r"

definition handleLive :: "http_request \<Rightarrow> http_answer" where
  "handleLive r = status_page ''alive'' r"

definition handleReady :: "'s Handler \<Rightarrow> 's \<Rightarrow> http_request \<Rightarrow> http_answer" where
  "handleReady h st r =
     (if rq_Method r \<noteq> ''GET'' then Answer 405 ''method not allowed''
      else if h_draining h then Answer 503 ''''
      else if (case h_readyFn h of Some fn \<Rightarrow> \<not> fn st | None \<Rightarrow> False) then Answer 503 ''''
      else if h_softLimit h \<le> h_conns h then Answer 503 ''''
      else Answer 200 '''')"

record relay_start =
  \<comment> \<open>the arguments of \<open>go h.relayWS\<close>, and the read limit set on the connection\<close>
  rt_conn :: nat
  rt_readLimit :: int
  rt_clientID :: string
  rt_addr :: string
  rt_claims :: Claims

definition count_active :: "int \<Rightarrow> 's Handler \<Rightarrow> 's Handler" where
  "count_active d h =
     h\<lparr>h_conns := h_conns h + d,
       h_reg := map_option (\<lambda>m. m\<lparr>gm_ActiveConnections := gm_ActiveConnections m + d\<rparr>) (h_reg h)\<rparr>"

definition ws_begin :: "jwt_parser \<Rightarrow> http_request \<Rightarrow> 's Handler \<Rightarrow> (http_answer + Claims) \<times> 's Handler" where
  "ws_begin Parse r h =
     (if h_draining h then (Inl (Answer 503 ''draining''), h)
      else if rq_token r = '''' then (Inl (Answer 400 ''missing token''), h)
      else
        (case ValidateToken Parse (rq_token r) (h_jwtSecret h) of
           Inl err \<Rightarrow> (Inl (Answer 401 ''invalid token''), h)
         | Inr claims \<Rightarrow> (Inr claims, count_active 1 h)))"

definition ws_serve :: "(error + nat) \<Rightarrow> Claims \<Rightarrow> 's Handler \<Rightarrow> 's \<Rightarrow> (http_answer \<times> relay_start option) \<times> 's Handler \<times> 's" where
  "ws_serve accept claims h st =
     (case h_lookuper h (cm_ZoneID claims) st of
        (Inl err, st) \<Rightarrow> ((Answer 503 ''zone not available'', None), h, st)
      | (Inr addr, st) \<Rightarrow>
          (case accept of
             Inl err \<Rightarrow> ((AcceptFailed err, None), h, st)
           | Inr c \<Rightarrow>
               let clientID = cm_PlayerID claims;
                   sess = NewSession clientID (cm_PlayerID claims) (cm_ZoneID claims) ''''
               in ((Upgraded c, Some \<lparr>rt_conn = c, rt_readLimit = 64 * 1024, rt_clientID = clientID, rt_addr = addr, rt_claims = claims\<rparr>),
                   h\<lparr>h_pool := pool_Add sess (h_pool h)\<rparr>, st)))"

definition handleWS :: "jwt_parser \<Rightarrow> (error + nat) \<Rightarrow> http_request \<Rightarrow> 's Handler \<Rightarrow> 's
    \<Rightarrow> (http_answer \<times> relay_start option) \<times> 's Handler \<times> 's" where
  "handleWS Parse accept r h st =
     (case ws_begin Parse r h of
        (Inl a, h) \<Rightarrow> ((a, None), h, st)
      | (Inr claims, h) \<Rightarrow>
          (case ws_serve accept claims h st of (res, h, st) \<Rightarrow> (res, count_active (- 1) h, st)))"

definition ServeHTTP :: "jwt_parser \<Rightarrow> (error + nat) \<Rightarrow> http_request \<Rightarrow> 's Handler \<Rightarrow> 's
    \<Rightarrow> (http_answer \<times> relay_start option) \<times> 's Handler \<times> 's" where
  \<comment> \<open>the routes of the mux, for a path without redundant elements\<close>
  "ServeHTTP Parse accept r h st =
     (if rq_Path r = ''/health'' then ((handleHealth r, None), h, st)
      else if rq_Path r = ''/live'' then ((handleLive r, None), h, st)
      else if rq_Path r = ''/ready'' then ((handleReady h st r, None), h, st)
      else if rq_Path r = ''/ws'' then handleWS Parse accept r h st
      else ((Answer 404 ''404 page not found'', None), h, st))"

subsection \<open>The watch of ownership changes\<close>

datatype watch_attempt =
    WatchFailed error
  | WatchStream "(Time \<times> OwnershipChange) list" error   \<comment> \<open>the changes received, with the time, and how the stream ended\<close>

fun ownership_watch :: "(watch_attempt \<times> bool) list \<Rightarrow> RouterCache \<Rightarrow> bool \<times> RouterCache" where
  \<comment> \<open>the flag: while it waited after the attempt, the context was done; the result: whether the loop has returned\<close>
  "ownership_watch [] cache = (False, cache)"
| "ownership_watch ((WatchFailed err, ctx_done) # as) cache =
     (if ctx_done then (True, cache) else ownership_watch as cache)"
| "ownership_watch ((WatchStream changes err, ctx_done) # as) cache =
     (let cache = fold (\<lambda>(now, c). rc_ApplyChange c now) changes cache
      in if ctx_done then (True, cache) else ownership_watch as cache)"

definition StartOwnershipWatch :: "(watch_attempt \<times> bool) list \<Rightarrow> 's Handler \<Rightarrow> 's Handler" where
  "StartOwnershipWatch as h = h\<lparr>h_cache := snd (ownership_watch as (h_cache h))\<rparr>"

subsection \<open>The relay\<close>

abbreviation (input) KIND_DATA :: int where "KIND_DATA \<equiv> 1"
abbreviation (input) KIND_CONNECT :: int where "KIND_CONNECT \<equiv> 2"
abbreviation (input) KIND_DISCONNECT :: int where "KIND_DISCONNECT \<equiv> 3"
abbreviation (input) KIND_RECONNECT :: int where "KIND_RECONNECT \<equiv> 4"
abbreviation (input) KIND_PEER_DISCONNECTED :: int where "KIND_PEER_DISCONNECTED \<equiv> 5"

record ConnectMeta =
  cn_PlayerId :: string
  cn_RuntimeId :: string
  cn_ZoneId :: string

record RelayPacket =
  rp_ClientId :: string
  rp_Kind :: int
  rp_Payload :: bytes
  rp_Meta :: "ConnectMeta option"

definition packet :: "string \<Rightarrow> int \<Rightarrow> RelayPacket" where
  "packet clientID kind = \<lparr>rp_ClientId = clientID, rp_Kind = kind, rp_Payload = [], rp_Meta = None\<rparr>"

datatype relay_phase = Relaying | Leaving | Gone

record relay =
  rl_clientID :: string
  rl_sent :: "RelayPacket list"       \<comment> \<open>packets the stream to the game server has taken\<close>
  rl_written :: "bytes list"          \<comment> \<open>messages written to the client\<close>
  rl_connLimiter :: connectionLimiter
  rl_errCh :: "error list"
  rl_reader :: bool                   \<comment> \<open>the goroutine that reads from the client runs\<close>
  rl_writer :: bool                   \<comment> \<open>the goroutine that writes to the client runs\<close>
  rl_main :: relay_phase

definition relay_leave :: "string \<Rightarrow> 's Handler \<Rightarrow> 's Handler" where
  \<comment> \<open>the deferred function\<close>
  "relay_leave clientID h = h\<lparr>h_pool := pool_Remove clientID (h_pool h)\<rparr>"

record relay_setup =
  \<comment> \<open>what the calls before the goroutines start return, and the time the limiter is made\<close>
  ru_dial :: "error option"
  ru_stream :: "error option"
  ru_connect :: "error option"
  ru_now :: Time

definition relay_open :: "relay_setup \<Rightarrow> relay_start \<Rightarrow> 's Handler \<Rightarrow> relay option \<times> 's Handler" where
  "relay_open u s h =
     (if ru_dial u \<noteq> None then (None, relay_leave (rt_clientID s) h)
      else if ru_stream u \<noteq> None then (None, relay_leave (rt_clientID s) h)
      else
        let connectMeta = \<lparr>cn_PlayerId = cm_PlayerID (rt_claims s), cn_RuntimeId = cm_RuntimeID (rt_claims s), cn_ZoneId = cm_ZoneID (rt_claims s)\<rparr>;
            connect = (packet (rt_clientID s) KIND_CONNECT)\<lparr>rp_Meta := Some connectMeta\<rparr>
        in (Some \<lparr>rl_clientID = rt_clientID s, rl_sent = (if ru_connect u = None then [connect] else []), rl_written = [],
                 rl_connLimiter = newConnectionLimiter 100 100 (ru_now u), rl_errCh = [], rl_reader = True, rl_writer = True,
                 rl_main = Relaying\<rparr>, h))"

definition count_dropped :: "string \<Rightarrow> 's Handler \<Rightarrow> 's Handler" where
  "count_dropped label h =
     h\<lparr>h_reg := map_option (\<lambda>m. m\<lparr>gm_Dropped := fmupd label (fm_get 0 (gm_Dropped m) label + 1) (gm_Dropped m)\<rparr>) (h_reg h)\<rparr>"

definition count_packet :: "string \<Rightarrow> 's Handler \<Rightarrow> 's Handler" where
  "count_packet label h =
     h\<lparr>h_reg := map_option (\<lambda>m. m\<lparr>gm_Packets := fmupd label (fm_get 0 (gm_Packets m) label + 1) (gm_Packets m)\<rparr>) (h_reg h)\<rparr>"

definition cancelled :: "relay \<Rightarrow> error option \<Rightarrow> error option" where
  \<comment> \<open>once the relay has cancelled its context, sends and writes fail\<close>
  "cancelled rl e = (if rl_main rl = Gone then Some (ErrText ''context canceled'') else e)"

record client_read =
  \<comment> \<open>an iteration of the reader: what \<open>Read\<close> returns, the clock readings of the limiters, what \<open>Send\<close> returns\<close>
  cr_data :: "error + bytes"
  cr_now :: Time
  cr_ip_now1 :: Time
  cr_ip_now2 :: Time
  cr_send :: "error option"

definition ip_allow :: "string \<Rightarrow> client_read \<Rightarrow> 's Handler \<Rightarrow> bool \<times> 's Handler" where
  "ip_allow ip r h =
     (case h_ipLimiter h of
        None \<Rightarrow> (True, h)
      | Some l \<Rightarrow> (case il_allow ip (cr_ip_now1 r) (cr_ip_now2 r) l of (ok, l) \<Rightarrow> (ok, h\<lparr>h_ipLimiter := Some l\<rparr>)))"

definition relay_read :: "client_read \<Rightarrow> relay \<Rightarrow> 's Handler \<Rightarrow> relay \<times> 's Handler" where
  "relay_read r rl h =
     (case cr_data r of
        Inl err \<Rightarrow> (rl\<lparr>rl_errCh := chan_send err (rl_errCh rl), rl_reader := False\<rparr>, h)
      | Inr data \<Rightarrow>
          (case cl_allow (cr_now r) (rl_connLimiter rl) of
             (False, l) \<Rightarrow> (rl\<lparr>rl_connLimiter := l\<rparr>, count_dropped ''packets_in_rate'' h)
           | (True, l) \<Rightarrow>
               let rl = rl\<lparr>rl_connLimiter := l\<rparr> in
               (case ip_allow (rl_clientID rl) r h of
                  (False, h) \<Rightarrow> (rl, count_dropped ''packets_in_ip_rate'' h)
                | (True, h) \<Rightarrow>
                    (case cancelled rl (cr_send r) of
                       Some err \<Rightarrow> (rl\<lparr>rl_errCh := chan_send err (rl_errCh rl), rl_reader := False\<rparr>, h)
                     | None \<Rightarrow>
                         (rl\<lparr>rl_sent := rl_sent rl @ [(packet (rl_clientID rl) KIND_DATA)\<lparr>rp_Payload := data\<rparr>]\<rparr>,
                          count_packet ''in'' h)))))"

definition relay_write :: "(error + RelayPacket) \<Rightarrow> error option \<Rightarrow> relay \<Rightarrow> 's Handler \<Rightarrow> relay \<times> 's Handler" where
  "relay_write recv res rl h =
     (case recv of
        Inl err \<Rightarrow> (rl\<lparr>rl_errCh := chan_send err (rl_errCh rl), rl_writer := False\<rparr>, h)
      | Inr pkt \<Rightarrow>
          (case cancelled rl res of
             Some err \<Rightarrow> (rl\<lparr>rl_errCh := chan_send err (rl_errCh rl), rl_writer := False\<rparr>, h)
           | None \<Rightarrow> (rl\<lparr>rl_written := rl_written rl @ [rp_Payload pkt]\<rparr>, count_packet ''out'' h)))"

datatype relay_event =
    ClientReads client_read
  | ServerSends "error + RelayPacket" "error option"
  | MainWakes "error option"      \<comment> \<open>an error arrives; the last packet is sent, whatever that returns\<close>
  | MainReturns                   \<comment> \<open>the deferred calls\<close>

fun relay_step :: "relay_event \<Rightarrow> relay \<Rightarrow> 's Handler \<Rightarrow> relay \<times> 's Handler" where
  "relay_step (ClientReads r) rl h = (if rl_reader rl then relay_read r rl h else (rl, h))"
| "relay_step (ServerSends recv res) rl h = (if rl_writer rl then relay_write recv res rl h else (rl, h))"
| "relay_step (MainWakes res) rl h =
     (if rl_main rl = Relaying \<and> rl_errCh rl \<noteq> []
      then (rl\<lparr>rl_errCh := tl (rl_errCh rl), rl_main := Leaving,
               rl_sent := rl_sent rl @ (if res = None then [packet (rl_clientID rl) KIND_PEER_DISCONNECTED] else [])\<rparr>, h)
      else (rl, h))"
| "relay_step MainReturns rl h =
     (if rl_main rl = Leaving then (rl\<lparr>rl_main := Gone\<rparr>, relay_leave (rl_clientID rl) h) else (rl, h))"

subsection \<open>The lookup of a zone over gRPC\<close>

record zone_answer =
  za_advertise_addr :: string
  za_host :: string
  za_port :: int

definition roomLookuper_LookupZone :: "(string \<Rightarrow> 's \<Rightarrow> (error + zone_answer) \<times> 's) \<Rightarrow> string \<Rightarrow> 's \<Rightarrow> (error + string) \<times> 's" where
  "roomLookuper_LookupZone client zoneID st =
     (case client zoneID st of
        (Inl err, st) \<Rightarrow> (Inl err, st)
      | (Inr resp, st) \<Rightarrow>
          if za_advertise_addr resp \<noteq> '''' then (Inr (za_advertise_addr resp), st)
          else (Inr (za_host resp @ '':'' @ itoa (za_port resp)), st))"

end
