(* ===== verification/Game_Server.thy ===== *)
theory Game_Server
  imports Game_Boundary Gateway
begin

section \<open>The game server process: \<open>apps/game-server\<close>, and the client \<open>tools/client\<close>\<close>

text \<open>
  The send queue of a client, the registry of clients, the \<open>Relay\<close> stream and the other handlers, the
  translation of events to packets, the recovery from a snapshot, and the two loops of the test
  client. Entries of the registry are shared by pointer between the registry and the goroutine that
  sends, so they live in a store; a closed \<open>done\<close> channel is a flag, and closing it again panics in Go
  (\<open>cr_panic\<close>). The goroutine that sends may take elements from a queue between the steps of
  \<open>push\<close>; how many is an argument. Protobuf encoders and decoders are parameters.
\<close>

subsection \<open>The send queue\<close>

record boundedSendQueue =
  sq_ch :: "bytes list"
  sq_cap :: nat
  sq_drops :: "64 word"
  sq_taken :: "bytes list"     \<comment> \<open>what has been received from the channel so far\<close>

definition newBoundedSendQueue :: "nat \<Rightarrow> boundedSendQueue" where
  "newBoundedSendQueue capacity = \<lparr>sq_ch = [], sq_cap = capacity, sq_drops = 0, sq_taken = []\<rparr>"

definition sq_receive :: "nat \<Rightarrow> boundedSendQueue \<Rightarrow> boundedSendQueue" where
  \<comment> \<open>the receiver takes up to \<open>n\<close> elements\<close>
  "sq_receive n q = q\<lparr>sq_ch := drop n (sq_ch q), sq_taken := sq_taken q @ take n (sq_ch q)\<rparr>"

definition push :: "nat \<Rightarrow> nat \<Rightarrow> bytes \<Rightarrow> boundedSendQueue \<Rightarrow> boundedSendQueue" where
  "push n1 n2 data q =
     (if \<not> chan_full (sq_cap q) (sq_ch q) then q\<lparr>sq_ch := chan_send data (sq_ch q)\<rparr>
      else
        let q = sq_receive n1 q;
            q = (case sq_ch q of [] \<Rightarrow> q | oldest # rest \<Rightarrow> q\<lparr>sq_ch := rest, sq_drops := sq_drops q + 1\<rparr>);
            q = sq_receive n2 q
        in if \<not> chan_full (sq_cap q) (sq_ch q) then q\<lparr>sq_ch := chan_send data (sq_ch q)\<rparr>
           else q\<lparr>sq_drops := sq_drops q + 1\<rparr>)"

subsection \<open>The registry of clients\<close>

record clientEntry =
  en_q :: boundedSendQueue
  en_done :: bool              \<comment> \<open>the channel \<open>done\<close> is closed\<close>

record clientRegistry =
  cr_clients :: "(string, nat) fmap"
  cr_entries :: "nat \<Rightarrow> clientEntry"
  cr_next :: nat
  cr_panic :: bool

definition newClientRegistry :: clientRegistry where
  "newClientRegistry =
     \<lparr>cr_clients = fmempty, cr_entries = (\<lambda>_. \<lparr>en_q = newBoundedSendQueue 64, en_done = False\<rparr>), cr_next = 0, cr_panic = False\<rparr>"

definition register :: "string \<Rightarrow> clientRegistry \<Rightarrow> nat \<times> clientRegistry" where
  "register i r =
     (let a = cr_next r
      in (a, r\<lparr>cr_entries := (cr_entries r)(a := \<lparr>en_q = newBoundedSendQueue 64, en_done = False\<rparr>),
               cr_next := a + 1, cr_clients := fmupd i a (cr_clients r)\<rparr>))"

definition close_done :: "nat \<Rightarrow> clientRegistry \<Rightarrow> clientRegistry" where
  "close_done a r =
     (if en_done (cr_entries r a) then r\<lparr>cr_panic := True\<rparr>
      else r\<lparr>cr_entries := (cr_entries r)(a := (cr_entries r a)\<lparr>en_done := True\<rparr>)\<rparr>)"

definition unregister :: "string \<Rightarrow> clientRegistry \<Rightarrow> clientRegistry" where
  "unregister i r =
     (case fmlookup (cr_clients r) i of
        None \<Rightarrow> r
      | Some e \<Rightarrow> (close_done e r)\<lparr>cr_clients := fmdrop i (cr_clients r)\<rparr>)"

definition on_queue :: "(boundedSendQueue \<Rightarrow> boundedSendQueue) \<Rightarrow> nat \<Rightarrow> clientRegistry \<Rightarrow> clientRegistry" where
  "on_queue f a r = r\<lparr>cr_entries := (cr_entries r)(a := (cr_entries r a)\<lparr>en_q := f (en_q (cr_entries r a))\<rparr>)\<rparr>"

definition cr_send :: "nat \<Rightarrow> nat \<Rightarrow> string \<Rightarrow> bytes \<Rightarrow> clientRegistry \<Rightarrow> clientRegistry" where
  "cr_send n1 n2 i data r =
     (case fmlookup (cr_clients r) i of
        None \<Rightarrow> r
      | Some e \<Rightarrow> on_queue (push n1 n2 data) e r)"

subsection \<open>Events as packets: \<open>relay.go\<close>\<close>

record proto_enc =
  pe_gzip :: gzip_lib
  pe_snapshot :: "EntitySnapshot \<Rightarrow> error + bytes"
  pe_entityid :: "string \<Rightarrow> error + bytes"
  pe_update :: "EntityUpdate \<Rightarrow> int \<Rightarrow> error + bytes"           \<comment> \<open>with the timestamp\<close>
  pe_action :: "EntityAction \<Rightarrow> int \<Rightarrow> error + bytes"

definition marshalled :: "error + bytes \<Rightarrow> bytes" where
  \<comment> \<open>\<open>b, _ := proto.Marshal(m)\<close>: nil on an error\<close>
  "marshalled r = (case r of Inr b \<Rightarrow> b | Inl _ \<Rightarrow> [])"

definition encodeSpawnEvent :: "proto_enc \<Rightarrow> Event \<Rightarrow> bytes" where
  "encodeSpawnEvent p evt =
     (let b = marshalled (pe_snapshot p \<lparr>snap_entity_id = ev_EntityID evt, snap_type = ev_Type evt, snap_position = Some (ev_Position evt)\<rparr>)
      in Encode (pe_gzip p) PacketIDEntitySpawn b False 0)"

definition encodeDespawnEvent :: "proto_enc \<Rightarrow> EntityID \<Rightarrow> bytes" where
  "encodeDespawnEvent p i = Encode (pe_gzip p) PacketIDEntityDespawn (marshalled (pe_entityid p i)) False 0"

definition encodeMoveEvent :: "proto_enc \<Rightarrow> EntityID \<Rightarrow> Vector3 \<Rightarrow> bytes" where
  "encodeMoveEvent p i pos =
     (let b = marshalled (pe_update p \<lparr>eu_entity_id = i, eu_position = Some pos\<rparr> 0)
      in Encode (pe_gzip p) PacketIDEntityMove b False 0)"

definition encodeEvent :: "proto_enc \<Rightarrow> Event \<Rightarrow> bytes option" where
  "encodeEvent p evt =
     (if ev_Kind evt = EventSpawn then Some (encodeSpawnEvent p evt)
      else if ev_Kind evt = EventDespawn then Some (encodeDespawnEvent p (ev_EntityID evt))
      else if ev_Kind evt = EventMove then Some (encodeMoveEvent p (ev_EntityID evt) (ev_Position evt))
      else if ev_Kind evt = EventState then Some (Encode (pe_gzip p) PacketIDEntityState (ev_Payload evt) False 0)
      else None)"

subsection \<open>The server\<close>

record gameServerServer =
  gs_game :: Game
  gs_clients :: clientRegistry
  gs_reg :: "int option"        \<comment> \<open>the counter of packets dropped at the inbox, if there is a metrics registry\<close>

definition newGameServerServer :: "Game \<Rightarrow> int option \<Rightarrow> gameServerServer" where
  "newGameServerServer g reg = \<lparr>gs_game = g, gs_clients = newClientRegistry, gs_reg = reg\<rparr>"

definition drainEvents :: "proto_enc \<Rightarrow> nat \<Rightarrow> nat \<Rightarrow> gameServerServer \<Rightarrow> gameServerServer" where
  \<comment> \<open>one round of the loop, when there is an event\<close>
  "drainEvents p n1 n2 s =
     (case g_Events (gs_game s) of
        [] \<Rightarrow> s
      | evt # rest \<Rightarrow>
          let s = s\<lparr>gs_game := (gs_game s)\<lparr>g_Events := rest\<rparr>\<rparr>
          in (case encodeEvent p evt of
                None \<Rightarrow> s
              | Some data \<Rightarrow> s\<lparr>gs_clients := cr_send n1 n2 (ev_Observer evt) data (gs_clients s)\<rparr>))"

record sender =
  \<comment> \<open>a goroutine started for a connect packet\<close>
  sd_id :: string
  sd_entry :: nat
  sd_running :: bool

record relay_server =
  \<comment> \<open>a call of \<open>Relay\<close>\<close>
  rv_owned :: "string list"
  rv_senders :: "sender list"
  rv_sent :: "RelayPacket list"
  rv_returned :: "error option"

definition relay_cleanup :: "string list \<Rightarrow> gameServerServer \<Rightarrow> gameServerServer" where
  "relay_cleanup owned s =
     fold (\<lambda>i s. s\<lparr>gs_clients := unregister i (gs_clients s), gs_game := EnqueueRemoveEntity i (gs_game s)\<rparr>) owned s"

definition relay_connect :: "RelayPacket \<Rightarrow> relay_server \<Rightarrow> gameServerServer \<Rightarrow> relay_server \<times> gameServerServer" where
  "relay_connect pkt v s =
     (let i = rp_ClientId pkt;
          (entry, clients) = register i (gs_clients s);
          runtime = (case rp_Meta pkt of Some m \<Rightarrow> cn_RuntimeId m | None \<Rightarrow> '''')
      in (v\<lparr>rv_owned := rv_owned v @ [i], rv_senders := rv_senders v @ [\<lparr>sd_id = i, sd_entry = entry, sd_running = True\<rparr>]\<rparr>,
          s\<lparr>gs_clients := clients, gs_game := EnqueueAddEntity (entity_New i ''avatar'' runtime) (gs_game s)\<rparr>))"

definition relay_data :: "RelayPacket \<Rightarrow> gameServerServer \<Rightarrow> gameServerServer" where
  "relay_data pkt s =
     (if \<not> chan_full InboxBufferSize (g_Inbox (gs_game s))
      then s\<lparr>gs_game := (gs_game s)\<lparr>g_Inbox := chan_send \<lparr>pkt_ClientID = rp_ClientId pkt, pkt_Data = rp_Payload pkt\<rparr> (g_Inbox (gs_game s))\<rparr>\<rparr>
      else s\<lparr>gs_reg := map_option (\<lambda>n. n + 1) (gs_reg s)\<rparr>)"

definition relay_receive :: "Time \<Rightarrow> error + RelayPacket \<Rightarrow> relay_server \<Rightarrow> gameServerServer \<Rightarrow> relay_server \<times> gameServerServer" where
  \<comment> \<open>one round of the loop\<close>
  "relay_receive now recv v s =
     (case recv of
        Inl err \<Rightarrow> (v\<lparr>rv_returned := Some err\<rparr>, relay_cleanup (rv_owned v) s)
      | Inr pkt \<Rightarrow>
          if rp_Kind pkt = KIND_CONNECT then relay_connect pkt v s
          else if rp_Kind pkt = KIND_DATA then (v, relay_data pkt s)
          else if rp_Kind pkt = KIND_RECONNECT then (v, s\<lparr>gs_game := MarkReconnected (rp_ClientId pkt) (gs_game s)\<rparr>)
          else if rp_Kind pkt = KIND_PEER_DISCONNECTED then (v, s\<lparr>gs_game := MarkDisconnected now (rp_ClientId pkt) (gs_game s)\<rparr>)
          else if rp_Kind pkt = KIND_DISCONNECT
          then (v, s\<lparr>gs_clients := unregister (rp_ClientId pkt) (gs_clients s),
                     gs_game := EnqueueRemoveEntity (rp_ClientId pkt) (gs_game s)\<rparr>)
          else (v, s))"

definition sender_stop :: "nat \<Rightarrow> relay_server \<Rightarrow> gameServerServer \<Rightarrow> relay_server \<times> gameServerServer" where
  "sender_stop k v s =
     (v\<lparr>rv_senders := (rv_senders v)[k := (rv_senders v ! k)\<lparr>sd_running := False\<rparr>]\<rparr>,
      s\<lparr>gs_clients := unregister (sd_id (rv_senders v ! k)) (gs_clients s)\<rparr>)"

definition sender_send :: "nat \<Rightarrow> error option \<Rightarrow> relay_server \<Rightarrow> gameServerServer \<Rightarrow> relay_server \<times> gameServerServer" where
  \<comment> \<open>the case of data in the queue\<close>
  "sender_send k res v s =
     (let sd = rv_senders v ! k in
      case sq_ch (en_q (cr_entries (gs_clients s) (sd_entry sd))) of
        [] \<Rightarrow> (v, s)
      | data # _ \<Rightarrow>
          let s = s\<lparr>gs_clients := on_queue (sq_receive 1) (sd_entry sd) (gs_clients s)\<rparr>
          in (case res of
                Some err \<Rightarrow> sender_stop k v s
              | None \<Rightarrow> (v\<lparr>rv_sent := rv_sent v @ [(packet (sd_id sd) KIND_DATA)\<lparr>rp_Payload := data\<rparr>]\<rparr>, s)))"

datatype stream_event =
    Receives Time "error + RelayPacket"
  | SenderSends nat "error option"
  | SenderCtxDone nat       \<comment> \<open>the context of the stream is done\<close>
  | SenderDone nat          \<comment> \<open>the entry's \<open>done\<close> is closed\<close>

fun stream_step :: "stream_event \<Rightarrow> relay_server \<Rightarrow> gameServerServer \<Rightarrow> relay_server \<times> gameServerServer" where
  "stream_step (Receives now recv) v s = (if rv_returned v = None then relay_receive now recv v s else (v, s))"
| "stream_step (SenderSends k res) v s =
     (if k < length (rv_senders v) \<and> sd_running (rv_senders v ! k) then sender_send k res v s else (v, s))"
| "stream_step (SenderCtxDone k) v s =
     (if k < length (rv_senders v) \<and> sd_running (rv_senders v ! k) then sender_stop k v s else (v, s))"
| "stream_step (SenderDone k) v s =
     (if k < length (rv_senders v) \<and> sd_running (rv_senders v ! k) \<and> en_done (cr_entries (gs_clients s) (sd_entry (rv_senders v ! k)))
      then sender_stop k v s else (v, s))"

subsection \<open>The other handlers\<close>

record AssignZoneRequest =
  azr_zone_id :: string
  azr_runtime_id :: string
  azr_grid_x :: int
  azr_grid_y :: int
  azr_zone_size :: float64

definition gs_AssignZone :: "AssignZoneRequest \<Rightarrow> gameServerServer \<Rightarrow> bool \<times> gameServerServer" where
  "gs_AssignZone req s =
     (let z = zone_New (azr_zone_id req) (azr_runtime_id req) (azr_grid_x req) (azr_grid_y req) (azr_zone_size req) in
      case AssignZone z (gs_game s) of
        Inl err \<Rightarrow> (False, s)
      | Inr g \<Rightarrow> (True, s\<lparr>gs_game := g\<rparr>))"

definition gs_ReleaseZone :: "(string \<Rightarrow> order) \<Rightarrow> string \<Rightarrow> gameServerServer \<Rightarrow> bool \<times> gameServerServer" where
  "gs_ReleaseZone ord zid s =
     (case ReleaseZone ord zid (gs_game s) of
        Inl err \<Rightarrow> (False, s)
      | Inr g \<Rightarrow> (True, s\<lparr>gs_game := g\<rparr>))"

definition gs_QueryEntities :: "order \<Rightarrow> int \<Rightarrow> int \<Rightarrow> float64 \<Rightarrow> gameServerServer \<Rightarrow> EntitySnapshot list" where
  \<comment> \<open>the loop over the zones leaves after the first\<close>
  "gs_QueryEntities ord gridX gridY radius s =
     (case ord (fmdom' (g_Zones (gs_game s))) of
        [] \<Rightarrow> []
      | zid # _ \<Rightarrow> queryLocal (gs_game s) zid gridX gridY radius)"

definition gs_NotifyEntityEnter :: "Time \<Rightarrow> string \<Rightarrow> string \<Rightarrow> Vector3 option \<Rightarrow> gameServerServer \<Rightarrow> gameServerServer" where
  "gs_NotifyEntityEnter now zid i pos s = s\<lparr>gs_game := ApplyEntityEnter now zid i '''' (pos_or_zero pos) (gs_game s)\<rparr>"

definition gs_NotifyEntityLeave :: "string \<Rightarrow> string \<Rightarrow> gameServerServer \<Rightarrow> gameServerServer" where
  "gs_NotifyEntityLeave zid i s = s\<lparr>gs_game := ApplyEntityLeave zid i (gs_game s)\<rparr>"

definition gs_SendEntityUpdate :: "Time \<Rightarrow> EntityUpdate \<Rightarrow> gameServerServer \<Rightarrow> bool \<times> gameServerServer" where
  "gs_SendEntityUpdate now req s =
     (case eu_position req of
        None \<Rightarrow> (False, s)
      | Some pos \<Rightarrow>
          let zoneID = ZoneOf (gs_game s) (eu_entity_id req)
          in (True, s\<lparr>gs_game := ApplyEntityUpdate now zoneID (eu_entity_id req) pos (gs_game s)\<rparr>))"

definition gs_MigrateEntity :: "EntitySnapshot option \<Rightarrow> string \<Rightarrow> gameServerServer \<Rightarrow> gameServerServer" where
  "gs_MigrateEntity snap target s =
     (let snap = (case snap of Some x \<Rightarrow> x | None \<Rightarrow> \<lparr>snap_entity_id = '''', snap_type = '''', snap_position = None\<rparr>)
      in s\<lparr>gs_game := MigrateEntityIn snap target (gs_game s)\<rparr>)"

fun gs_ZoneStateSync :: "gob_lib \<Rightarrow> order \<Rightarrow> ((error + ZoneSnapshot) \<times> error option) list \<Rightarrow> gameServerServer \<Rightarrow> error option \<times> gameServerServer" where
  \<comment> \<open>what the stream receives, and the error of the context if it is done by then\<close>
  "gs_ZoneStateSync gob ord [] s = (None, s)"
| "gs_ZoneStateSync gob ord ((Inl err, ctx) # evs) s = (Some err, s)"
| "gs_ZoneStateSync gob ord ((Inr snap, ctx) # evs) s =
     (case ctx of
        Some err \<Rightarrow> (Some err, s)
      | None \<Rightarrow> gs_ZoneStateSync gob ord evs (s\<lparr>gs_game := LoadZoneSnapshot gob ord snap (gs_game s)\<rparr>))"

subsection \<open>Recovery and NPCs: the end of \<open>main.go\<close>\<close>

record NPCSpec =
  ns_Type :: string
  ns_Behavior :: string
  ns_Position :: Vector3
  ns_Waypoints :: "Vector3 list"
  ns_Radius :: float64

definition newBehaviorFor :: "NPCSpec \<Rightarrow> Behavior" where
  "newBehaviorFor spec =
     (if ns_Behavior spec = ''patrol'' then Patrol \<lparr>p_Speed = 10, p_Waypoints = ns_Waypoints spec, p_target = 0\<rparr>
      else if ns_Behavior spec = ''wander''
      then Wander \<lparr>w_Origin = ns_Position spec, w_Radius = ns_Radius spec, w_Speed = 10, w_rng = False, w_target = vzero, w_pause = 0\<rparr>
      else Idle \<lparr>i_BobAmplitude = 1 / 2, i_BobFreq = 2, i_phase = 0\<rparr>)"

definition bytes_of :: "string \<Rightarrow> bytes" where
  "bytes_of s = map (\<lambda>c. of_nat (of_char c)) s"

definition string_of :: "bytes \<Rightarrow> string" where
  "string_of b = map (\<lambda>x. char_of (unat x)) b"

definition npc_of :: "string \<Rightarrow> NPCSpec \<Rightarrow> Entity" where
  "npc_of i spec =
     (entity_New i (ns_Type spec) '''')\<lparr>e_Position := ns_Position spec,
        e_Attrs := fmupd ''behavior'' (bytes_of (ns_Behavior spec)) fmempty,
        e_Lifecycle := Some (NPCLifecycle (Some (newBehaviorFor spec)))\<rparr>"

definition hydrateFromSnapshot :: "(bytes \<Rightarrow> error + snapRow list) \<Rightarrow> bytes \<Rightarrow> Game \<Rightarrow> Game" where
  "hydrateFromSnapshot unmarshal data g =
     (case unmarshal data of
        Inl err \<Rightarrow> g
      | Inr rows \<Rightarrow>
          fold (\<lambda>r. addEntity (npc_of (row_id r) \<lparr>ns_Type = row_type r, ns_Behavior = string_of (row_behavior r),
                  ns_Position = row_pos r, ns_Waypoints = [], ns_Radius = 0\<rparr>)) rows g)"

definition recover :: "(bytes \<Rightarrow> error + snapRow list) \<Rightarrow> error + bytes \<Rightarrow> (string \<times> NPCSpec) list \<Rightarrow> Game \<Rightarrow> Game" where
  \<comment> \<open>crash recovery in \<open>main\<close>: from the latest snapshot, or else the NPCs of the configuration with new ids\<close>
  "recover unmarshal latest specs g =
     (case latest of
        Inr snap \<Rightarrow> hydrateFromSnapshot unmarshal snap g
      | Inl err \<Rightarrow> fold (\<lambda>(i, spec). addEntity (npc_of i spec)) specs g)"

subsection \<open>The client\<close>

record proto_dec =
  pd_gzip :: gzip_lib
  pd_snapshot :: "bytes \<Rightarrow> error + EntitySnapshot"
  pd_entityid :: "bytes \<Rightarrow> error + string"
  pd_update :: "bytes \<Rightarrow> error + EntityUpdate"
  pd_action :: "bytes \<Rightarrow> error + EntityAction"
  pd_state :: "bytes \<Rightarrow> error + string \<times> nat"       \<comment> \<open>the entity and the number of attributes\<close>

datatype client_log =
    SPAWN string string Vector3
  | MOVE string Vector3
  | DESPAWN string
  | ACTION string string
  | STATE string nat
  | UNKNOWN PacketID nat
  | LogError string error

definition client_read_one :: "proto_dec \<Rightarrow> bytes \<Rightarrow> client_log" where
  \<comment> \<open>one round of the read loop: what it prints\<close>
  "client_read_one p msg =
     (case Decode (pd_gzip p) msg of (v, pid, payload, z, seq, err) \<Rightarrow>
        case err of
          Some e \<Rightarrow> LogError ''decode error'' e
        | None \<Rightarrow>
            if pid = PacketIDEntitySpawn then
              (case pd_snapshot p payload of
                 Inl e \<Rightarrow> LogError ''unmarshal spawn'' e
               | Inr snap \<Rightarrow> SPAWN (snap_type snap) (snap_entity_id snap) (pos_or_zero (snap_position snap)))
            else if pid = PacketIDEntityMove then
              (case pd_update p payload of
                 Inl e \<Rightarrow> LogError ''unmarshal move'' e
               | Inr upd \<Rightarrow> MOVE (eu_entity_id upd) (pos_or_zero (eu_position upd)))
            else if pid = PacketIDEntityDespawn then
              (case pd_entityid p payload of
                 Inl e \<Rightarrow> LogError ''unmarshal despawn'' e
               | Inr i \<Rightarrow> DESPAWN i)
            else if pid = PacketIDEntityAction then
              (case pd_action p payload of
                 Inl e \<Rightarrow> LogError ''unmarshal action'' e
               | Inr act \<Rightarrow> ACTION (ea_entity_id act) (ea_action act))
            else if pid = PacketIDEntityState then
              (case pd_state p payload of
                 Inl e \<Rightarrow> LogError ''unmarshal state'' e
               | Inr (i, n) \<Rightarrow> STATE i n)
            else UNKNOWN pid (length payload))"

definition client_corner :: "int \<Rightarrow> Vector3" where
  "client_corner tick =
     (let phase = tick mod 4;
          (x, z) = (if phase = 0 then (100, 100) else if phase = 1 then (110, 100) else if phase = 2 then (110, 110) else (100, 110))
      in \<lparr>vX = x, vY = 0, vZ = z\<rparr>)"

definition client_write_one :: "proto_enc \<Rightarrow> string \<Rightarrow> string \<Rightarrow> int \<Rightarrow> int \<Rightarrow> (bytes \<Rightarrow> error option) \<Rightarrow> bytes list \<times> bool" where
  \<comment> \<open>one tick of the write loop, for the player and the action of the flags: the frames written and
      whether the loop goes on; \<open>write\<close> is the write on the connection, \<open>ms\<close> the clock\<close>
  "client_write_one p player action tick ms write =
     (case pe_update p \<lparr>eu_entity_id = player, eu_position = Some (client_corner tick)\<rparr> ms of
        Inl err \<Rightarrow> ([], True)
      | Inr payload \<Rightarrow>
          let frame = Encode (pe_gzip p) PacketIDPositionUpdate payload False 0 in
          if write frame \<noteq> None then ([], False)
          else if action \<noteq> '''' \<and> tick + 1 = 1 then
            let actPayload = marshalled (pe_action p \<lparr>ea_entity_id = player, ea_action = action, ea_payload = []\<rparr> ms);
                actFrame = Encode (pe_gzip p) PacketIDEntityAction actPayload False 1
            in (if write actFrame = None then [frame, actFrame] else [frame], True)
          else ([frame], True))"

end
