(* ===== verification/Game_Server_Props.thy ===== *)
theory Game_Server_Props
  imports Game_Server "HOL-Library.Sublist"
begin

section \<open>What the game server process promises\<close>

text \<open>
  The send queue keeps the newest messages, no client gets a message meant for another, whatever the
  interleaving of streams, senders and ticks, and what a client reads is what the event said.
\<close>

subsection \<open>The send queue\<close>

datatype sq_op =
    Push nat nat bytes
  | Take nat

fun sq_step :: "sq_op \<Rightarrow> boundedSendQueue \<Rightarrow> boundedSendQueue" where
  "sq_step (Push n1 n2 data) q = push n1 n2 data q"
| "sq_step (Take n) q = sq_receive n q"

definition sq_run :: "sq_op list \<Rightarrow> boundedSendQueue \<Rightarrow> boundedSendQueue" where
  "sq_run xs q = fold sq_step xs q"

fun op_data :: "sq_op \<Rightarrow> bytes option" where
  "op_data (Push n1 n2 data) = Some data"
| "op_data (Take n) = None"

definition pushed :: "sq_op list \<Rightarrow> bytes list" where
  "pushed xs = List.map_filter op_data xs"

lemma pushed_simps [simp]:
  "pushed [] = []" "pushed (xs @ [Push n1 n2 d]) = pushed xs @ [d]" "pushed (xs @ [Take n]) = pushed xs"
  by (simp_all add: pushed_def List.map_filter_def)

definition sq_all :: "boundedSendQueue \<Rightarrow> bytes list" where
  "sq_all q = sq_taken q @ sq_ch q"

lemma sq_receive_simps [simp]:
  "sq_all (sq_receive n q) = sq_all q" "sq_cap (sq_receive n q) = sq_cap q" "sq_drops (sq_receive n q) = sq_drops q"
  "sq_ch (sq_receive n q) = drop n (sq_ch q)"
  by (simp_all add: sq_receive_def sq_all_def)

definition sq_ok :: "bytes list \<Rightarrow> boundedSendQueue \<Rightarrow> bool" where
  "sq_ok ds q \<longleftrightarrow> length (sq_ch q) \<le> sq_cap q \<and> subseq (sq_all q) ds
     \<and> (ds \<noteq> [] \<longrightarrow> sq_all q \<noteq> [] \<and> last (sq_all q) = last ds)
     \<and> of_nat (length ds) = of_nat (length (sq_all q)) + sq_drops q"

lemma push_full:
  assumes "length (sq_ch q) = sq_cap q" "1 \<le> sq_cap q"
  obtains (took) "sq_all (push n1 n2 d q) = sq_all q @ [d]" "sq_drops (push n1 n2 d q) = sq_drops q"
      "length (sq_ch (push n1 n2 d q)) \<le> sq_cap q"
  | (dropped) xs x ys where "sq_all q = xs @ x # ys" "sq_all (push n1 n2 d q) = xs @ ys @ [d]"
      "sq_drops (push n1 n2 d q) = sq_drops q + 1" "length (sq_ch (push n1 n2 d q)) \<le> sq_cap q"
proof (cases "drop n1 (sq_ch q)")
  case Nil
  then show ?thesis using assms
    by (intro took) (simp_all add: push_def go_simps Let_def sq_receive_def sq_all_def)
next
  case (Cons x ys)
  then have "length (drop n1 (sq_ch q)) = length (x # ys)" by simp
  then have len: "length ys < sq_cap q" using assms by simp
  have "sq_ch q = take n1 (sq_ch q) @ x # ys" using Cons append_take_drop_id [of n1 "sq_ch q"] by simp
  then show ?thesis using assms Cons len
    by (intro dropped [of "sq_taken q @ take n1 (sq_ch q)" x ys])
      (simp_all add: push_def go_simps Let_def sq_receive_def sq_all_def)
qed

lemma push_cap [simp]: "sq_cap (push n1 n2 d q) = sq_cap q"
  by (simp add: push_def Let_def split: list.split)

lemma sq_ok_push:
  assumes "sq_ok ds q" "1 \<le> sq_cap q"
  shows "sq_ok (ds @ [d]) (push n1 n2 d q)"
proof (cases "length (sq_ch q) < sq_cap q")
  case True
  then have "push n1 n2 d q = q\<lparr>sq_ch := sq_ch q @ [d]\<rparr>" by (simp add: push_def go_simps)
  with assms(1) True show ?thesis by (simp add: sq_ok_def sq_all_def list_emb_append_mono flip: append_assoc)
next
  case False
  then have full: "length (sq_ch q) = sq_cap q" using assms(1) by (simp add: sq_ok_def)
  show ?thesis
    using full assms(2)
  proof (cases rule: push_full [where ?n1.0 = n1 and ?n2.0 = n2 and d = d])
    case took
    with assms(1) show ?thesis by (simp add: sq_ok_def list_emb_append_mono)
  next
    case (dropped xs x ys)
    have "subseq (xs @ ys) (xs @ x # ys)" by (intro list_emb_append_mono) (simp_all add: list_emb_Cons)
    then have "subseq (xs @ ys) ds" using assms(1) dropped(1) by (auto simp: sq_ok_def intro: subseq_order.order_trans)
    then have "subseq ((xs @ ys) @ [d]) (ds @ [d])" by (intro list_emb_append_mono) simp_all
    with assms(1) dropped show ?thesis by (simp add: sq_ok_def)
  qed
qed

lemma sq_run_ok:
  assumes "1 \<le> cap"
  shows "sq_ok (pushed xs) (sq_run xs (newBoundedSendQueue cap)) \<and> sq_cap (sq_run xs (newBoundedSendQueue cap)) = cap"
proof (induction xs rule: rev_induct)
  case Nil
  show ?case by (simp add: sq_run_def sq_ok_def newBoundedSendQueue_def sq_all_def)
next
  case (snoc x xs)
  show ?case
  proof (cases x)
    case (Push n1 n2 d)
    then show ?thesis using snoc assms sq_ok_push by (simp add: sq_run_def)
  next
    case (Take n)
    have "sq_ok (pushed xs) q \<Longrightarrow> sq_ok (pushed xs) (sq_receive n q)" for q by (auto simp: sq_ok_def)
    with Take snoc show ?thesis by (simp add: sq_run_def)
  qed
qed

lemma sq_run_alone:
  assumes "1 \<le> cap" "\<forall>x \<in> set xs. \<exists>d. x = Push 0 0 d"
  shows "sq_ch (sq_run xs (newBoundedSendQueue cap)) = drop (length xs - cap) (pushed xs)
    \<and> sq_cap (sq_run xs (newBoundedSendQueue cap)) = cap \<and> length (pushed xs) = length xs"
  using assms(2)
proof (induction xs rule: rev_induct)
  case Nil
  show ?case by (simp add: sq_run_def newBoundedSendQueue_def)
next
  case (snoc x xs)
  obtain d where x: "x = Push 0 0 d" using snoc.prems by auto
  let ?q = "sq_run xs (newBoundedSendQueue cap)"
  have q: "sq_ch ?q = drop (length xs - cap) (pushed xs)" "sq_cap ?q = cap" "length (pushed xs) = length xs"
    using snoc.IH snoc.prems by simp_all
  have run: "sq_run (xs @ [x]) (newBoundedSendQueue cap) = push 0 0 d ?q" by (simp add: sq_run_def x)
  show ?case
  proof (cases "length xs < cap")
    case True
    then show ?thesis unfolding run using q by (simp add: push_def go_simps x newBoundedSendQueue_def)
  next
    case False
    then obtain y ys where ys: "drop (length xs - cap) (pushed xs) = y # ys"
      using q(3) assms(1) by (cases "drop (length xs - cap) (pushed xs)") auto
    then have "ys = drop (Suc (length xs - cap)) (pushed xs)" by (metis drop_Suc drop_tl list.sel(3))
    moreover have "length ys < cap" using arg_cong [OF ys, of length] q(3) False assms(1) by simp
    ultimately show ?thesis unfolding run using q ys False
      by (simp add: push_def go_simps x newBoundedSendQueue_def Let_def sq_receive_def Suc_diff_le)
  qed
qed

text \<open>
  C14. The send queue of a client never holds more than its capacity and drops only the oldest. While
  the sender takes messages at any moment, the messages taken and then those waiting are messages
  pushed, in order and each once, the newest one is always among them, and the counter says how many
  are missing. While nothing is taken the queue holds the newest messages, as many as fit.
\<close>

theorem send_queue_newest:
  assumes "1 \<le> cap" and "q = sq_run xs (newBoundedSendQueue cap)"
  shows "length (sq_ch q) \<le> cap \<and> subseq (sq_taken q @ sq_ch q) (pushed xs)
    \<and> (pushed xs \<noteq> [] \<longrightarrow> sq_taken q @ sq_ch q \<noteq> [] \<and> last (sq_taken q @ sq_ch q) = last (pushed xs))
    \<and> of_nat (length (pushed xs)) = of_nat (length (sq_taken q) + length (sq_ch q)) + sq_drops q
    \<and> ((\<forall>x \<in> set xs. \<exists>d. x = Push 0 0 d) \<longrightarrow> sq_ch q = drop (length xs - cap) (pushed xs))"
proof -
  have "sq_ch q = drop (length xs - cap) (pushed xs)" if "\<forall>x \<in> set xs. \<exists>d. x = Push 0 0 d"
    using sq_run_alone [OF assms(1) that] by (simp add: assms(2))
  then show ?thesis using sq_run_ok [OF assms(1), of xs] unfolding assms(2) [symmetric] sq_ok_def sq_all_def by simp
qed

theorem send_queue_newest_witness:
  "sq_ch (sq_run [Push 0 0 [1], Push 0 0 [2], Push 0 0 [3]] (newBoundedSendQueue 2)) = [[2], [3]]"
  using send_queue_newest [of 2 _ "[Push 0 0 [1], Push 0 0 [2], Push 0 0 [3]]", OF _ refl]
  by (simp add: pushed_def List.map_filter_def)


subsection \<open>Who gets which message\<close>

datatype server_event =
    OnStream nat stream_event
  | Drains nat nat                     \<comment> \<open>a round of \<open>drainEvents\<close>\<close>
  | Simulates "Game \<Rightarrow> Game"           \<comment> \<open>a tick or another handler changes the simulation\<close>

record server =
  sr_s :: gameServerServer
  sr_streams :: "nat \<Rightarrow> relay_server"

fun server_step :: "proto_enc \<Rightarrow> server_event \<Rightarrow> server \<Rightarrow> server" where
  "server_step p (OnStream k ev) S =
     (case stream_step ev (sr_streams S k) (sr_s S) of
        (v, s) \<Rightarrow> S\<lparr>sr_s := s, sr_streams := (sr_streams S)(k := v)\<rparr>)"
| "server_step p (Drains n1 n2) S = S\<lparr>sr_s := drainEvents p n1 n2 (sr_s S)\<rparr>"
| "server_step p (Simulates f) S = S\<lparr>sr_s := (sr_s S)\<lparr>gs_game := f (gs_game (sr_s S))\<rparr>\<rparr>"

definition server_run :: "proto_enc \<Rightarrow> server_event list \<Rightarrow> server \<Rightarrow> server" where
  "server_run p evs S = fold (server_step p) evs S"

definition new_stream :: relay_server where
  "new_stream = \<lparr>rv_owned = [], rv_senders = [], rv_sent = [], rv_returned = None\<rparr>"

definition server_start :: "Game \<Rightarrow> int option \<Rightarrow> server" where
  "server_start g reg = \<lparr>sr_s = newGameServerServer g reg, sr_streams = (\<lambda>_. new_stream)\<rparr>"

definition event_for :: "proto_enc \<Rightarrow> string \<Rightarrow> bytes \<Rightarrow> bool" where
  "event_for p i data \<longleftrightarrow> (\<exists>evt. ev_Observer evt = i \<and> encodeEvent p evt = Some data)"

definition queue_ok :: "proto_enc \<Rightarrow> string \<Rightarrow> boundedSendQueue \<Rightarrow> bool" where
  "queue_ok p i q \<longleftrightarrow> sq_cap q = 64 \<and> length (sq_ch q) \<le> 64 \<and> (\<forall>data \<in> set (sq_ch q). event_for p i data)"

text \<open>In the invariants \<open>own\<close> says for which client an entry was made.\<close>

definition reg_ok :: "proto_enc \<Rightarrow> (nat \<Rightarrow> string) \<Rightarrow> clientRegistry \<Rightarrow> bool" where
  "reg_ok p own r \<longleftrightarrow> \<not> cr_panic r
     \<and> (\<forall>i a. fmlookup (cr_clients r) i = Some a \<longrightarrow> a < cr_next r \<and> \<not> en_done (cr_entries r a) \<and> own a = i)
     \<and> (\<forall>a. queue_ok p (own a) (en_q (cr_entries r a)))"

definition stream_ok :: "proto_enc \<Rightarrow> (nat \<Rightarrow> string) \<Rightarrow> nat \<Rightarrow> relay_server \<Rightarrow> bool" where
  "stream_ok p own n v \<longleftrightarrow>
     (\<forall>sd \<in> set (rv_senders v). sd_entry sd < n \<and> own (sd_entry sd) = sd_id sd)
   \<and> (\<forall>pkt \<in> set (rv_sent v). rp_Kind pkt = KIND_DATA \<and> event_for p (rp_ClientId pkt) (rp_Payload pkt))"

lemma stream_ok_extend:
  "stream_ok p own n v \<Longrightarrow> n \<le> n' \<Longrightarrow> (\<And>a. a < n \<Longrightarrow> own' a = own a) \<Longrightarrow> stream_ok p own' n' v"
  by (auto simp: stream_ok_def)

lemma queue_ok_new [simp]: "queue_ok p i (newBoundedSendQueue 64)"
  by (simp add: queue_ok_def newBoundedSendQueue_def)

lemma queue_ok_receive: "queue_ok p i q \<Longrightarrow> queue_ok p i (sq_receive n q)"
  by (auto simp: queue_ok_def dest: in_set_dropD)

lemma set_push: "set (sq_ch (push n1 n2 d q)) \<subseteq> insert d (set (sq_ch q))"
  using set_drop_subset [of n1 "sq_ch q"]
  by (auto simp: push_def go_simps Let_def split: list.splits dest!: in_set_dropD)

lemma queue_ok_push:
  assumes "queue_ok p i q" "event_for p i d"
  shows "queue_ok p i (push n1 n2 d q)"
proof -
  have "length (sq_ch (push n1 n2 d q)) \<le> 64"
  proof (cases "length (sq_ch q) < sq_cap q")
    case True
    with assms(1) show ?thesis by (simp add: push_def go_simps queue_ok_def)
  next
    case False
    then have "length (sq_ch q) = sq_cap q" "1 \<le> sq_cap q" using assms(1) by (simp_all add: queue_ok_def)
    then show ?thesis
      by (cases rule: push_full [where ?n1.0 = n1 and ?n2.0 = n2 and d = d]) (use assms(1) in \<open>simp_all add: queue_ok_def\<close>)
  qed
  with assms set_push [of n1 n2 d q] show ?thesis by (auto simp: queue_ok_def)
qed

lemma reg_ok_register:
  "reg_ok p own r \<Longrightarrow> reg_ok p (own(cr_next r := i)) (snd (register i r))"
  "fst (register i r) = cr_next r" "cr_next (snd (register i r)) = Suc (cr_next r)"
  by (fastforce simp: reg_ok_def register_def Let_def less_Suc_eq)+

lemma reg_ok_unregister:
  assumes "reg_ok p own r"
  shows "reg_ok p own (unregister i r)" "cr_next (unregister i r) = cr_next r" "\<not> fm_has (cr_clients (unregister i r)) i"
proof -
  show "reg_ok p own (unregister i r)"
  proof (cases "fmlookup (cr_clients r) i")
    case (Some e)
    then have e: "own e = i" "\<not> en_done (cr_entries r e)" using assms by (auto simp: reg_ok_def)
    have "a \<noteq> e" if "fmlookup (cr_clients r) j = Some a" "j \<noteq> i" for j a
      using that e(1) assms by (auto simp: reg_ok_def)
    moreover have "queue_ok p i (en_q (cr_entries r e))" using assms unfolding reg_ok_def e(1) [symmetric] by blast
    ultimately show ?thesis using assms Some e by (auto simp: reg_ok_def unregister_def close_done_def split: if_splits)
  qed (use assms in \<open>simp add: unregister_def\<close>)
  show "cr_next (unregister i r) = cr_next r" by (simp add: unregister_def close_done_def split: option.split)
  show "\<not> fm_has (cr_clients (unregister i r)) i" by (simp add: unregister_def fm_has_def split: option.split)
qed

lemma reg_ok_queue:
  "reg_ok p own r \<Longrightarrow> (queue_ok p (own a) (en_q (cr_entries r a)) \<Longrightarrow> queue_ok p (own a) (f (en_q (cr_entries r a))))
     \<Longrightarrow> reg_ok p own (on_queue f a r)"
  by (simp add: reg_ok_def on_queue_def)

lemma on_queue_next [simp]: "cr_next (on_queue f a r) = cr_next r"
  by (simp add: on_queue_def)

definition server_ok :: "proto_enc \<Rightarrow> (nat \<Rightarrow> string) \<Rightarrow> server \<Rightarrow> bool" where
  "server_ok p own S \<longleftrightarrow> reg_ok p own (gs_clients (sr_s S)) \<and> (\<forall>k. stream_ok p own (cr_next (gs_clients (sr_s S))) (sr_streams S k))"

lemma cleanup_ok:
  "reg_ok p own (gs_clients s) \<Longrightarrow>
     reg_ok p own (gs_clients (relay_cleanup ids s)) \<and> cr_next (gs_clients (relay_cleanup ids s)) = cr_next (gs_clients s)
     \<and> fmdom' (cr_clients (gs_clients (relay_cleanup ids s))) \<subseteq> fmdom' (cr_clients (gs_clients s)) - set ids"
proof (induction ids arbitrary: s)
  case (Cons i ids)
  let ?s = "s\<lparr>gs_clients := unregister i (gs_clients s), gs_game := EnqueueRemoveEntity i (gs_game s)\<rparr>"
  have step: "relay_cleanup (i # ids) s = relay_cleanup ids ?s" by (simp add: relay_cleanup_def)
  have "fmdom' (cr_clients (unregister i (gs_clients s))) = fmdom' (cr_clients (gs_clients s)) - {i}"
    by (auto simp: unregister_def fmlookup_dom'_iff split: option.split)
  with Cons.IH [of ?s] reg_ok_unregister [OF Cons.prems, of i] show ?case unfolding step by auto
qed (simp add: relay_cleanup_def)

lemma stop_ok:
  assumes "reg_ok p own (gs_clients s)" "stream_ok p own (cr_next (gs_clients s)) v" "k < length (rv_senders v)" "sender_stop k v s = (v', s')"
  shows "reg_ok p own (gs_clients s') \<and> cr_next (gs_clients s') = cr_next (gs_clients s) \<and> stream_ok p own (cr_next (gs_clients s)) v'"
proof -
  have v': "v' = v\<lparr>rv_senders := (rv_senders v)[k := (rv_senders v ! k)\<lparr>sd_running := False\<rparr>]\<rparr>"
    and s': "s' = s\<lparr>gs_clients := unregister (sd_id (rv_senders v ! k)) (gs_clients s)\<rparr>"
    using assms(4) by (simp_all add: sender_stop_def)
  have "stream_ok p own (cr_next (gs_clients s)) v'"
    unfolding v' using assms(2) nth_mem [OF assms(3)] by (auto simp: stream_ok_def dest!: set_update_subset_insert [THEN subsetD])
  then show ?thesis using reg_ok_unregister [OF assms(1)] by (simp add: s')
qed


definition extends :: "nat \<Rightarrow> (nat \<Rightarrow> string) \<Rightarrow> (nat \<Rightarrow> string) \<Rightarrow> bool" where
  "extends n own own' \<longleftrightarrow> (\<forall>a<n. own' a = own a)"

lemma extends_refl [simp]: "extends n own own"
  by (simp add: extends_def)

lemma send_ok:
  assumes "reg_ok p own (gs_clients s)" "stream_ok p own (cr_next (gs_clients s)) v" "k < length (rv_senders v)" "sender_send k res v s = (v', s')"
  shows "reg_ok p own (gs_clients s') \<and> cr_next (gs_clients s') = cr_next (gs_clients s) \<and> stream_ok p own (cr_next (gs_clients s)) v'"
proof -
  let ?sd = "rv_senders v ! k"
  let ?q = "en_q (cr_entries (gs_clients s) (sd_entry ?sd))"
  let ?s = "s\<lparr>gs_clients := on_queue (sq_receive 1) (sd_entry ?sd) (gs_clients s)\<rparr>"
  have sd: "own (sd_entry ?sd) = sd_id ?sd" using assms(2) nth_mem [OF assms(3)] by (auto simp: stream_ok_def)
  have taken: "reg_ok p own (gs_clients ?s)" "cr_next (gs_clients ?s) = cr_next (gs_clients s)"
    using reg_ok_queue [OF assms(1) queue_ok_receive] by simp_all
  show ?thesis
  proof (cases "sq_ch ?q")
    case Nil
    then show ?thesis using assms by (simp add: sender_send_def Let_def)
  next
    case (Cons data rest)
    have "queue_ok p (own (sd_entry ?sd)) ?q" using assms(1) by (simp add: reg_ok_def)
    then have data: "event_for p (sd_id ?sd) data" using Cons sd by (simp add: queue_ok_def)
    show ?thesis
    proof (cases res)
      case None
      then have "v' = v\<lparr>rv_sent := rv_sent v @ [(packet (sd_id ?sd) KIND_DATA)\<lparr>rp_Payload := data\<rparr>]\<rparr>" "s' = ?s"
        using assms(4) Cons by (simp_all add: sender_send_def Let_def)
      then show ?thesis using assms(2) taken data by (auto simp: stream_ok_def packet_def)
    next
      case (Some err)
      then have "sender_stop k v ?s = (v', s')" using assms(4) Cons by (simp add: sender_send_def Let_def)
      then show ?thesis using stop_ok [OF taken(1) _ assms(3), of v' s'] assms(2) taken(2) by simp
    qed
  qed
qed

lemma receive_ok:
  assumes "reg_ok p own (gs_clients s)" "stream_ok p own (cr_next (gs_clients s)) v" "relay_receive now recv v s = (v', s')"
  shows "\<exists>own'. reg_ok p own' (gs_clients s') \<and> cr_next (gs_clients s) \<le> cr_next (gs_clients s') \<and> stream_ok p own' (cr_next (gs_clients s')) v'
    \<and> extends (cr_next (gs_clients s)) own own'"
proof (cases recv)
  case (Inl err)
  then show ?thesis using assms cleanup_ok [OF assms(1), of "rv_owned v"]
    by (intro exI [of _ own]) (auto simp: relay_receive_def stream_ok_def)
next
  case (Inr pkt)
  show ?thesis
  proof (cases "rp_Kind pkt = KIND_CONNECT")
    case True
    let ?n = "cr_next (gs_clients s)" and ?i = "rp_ClientId pkt"
    let ?own = "own(?n := ?i)"
    obtain r where r: "register ?i (gs_clients s) = (?n, r)"
      using reg_ok_register(2) [of ?i "gs_clients s"] by (cases "register ?i (gs_clients s)") simp
    have "stream_ok p ?own (Suc ?n) v" by (rule stream_ok_extend [OF assms(2)]) simp_all
    moreover have "v' = v\<lparr>rv_owned := rv_owned v @ [?i], rv_senders := rv_senders v @ [\<lparr>sd_id = ?i, sd_entry = ?n, sd_running = True\<rparr>]\<rparr>"
      "gs_clients s' = r"
      using assms(3) Inr True r by (auto simp: relay_receive_def relay_connect_def Let_def)
    ultimately show ?thesis using reg_ok_register(1) [OF assms(1), of ?i] reg_ok_register(3) [of ?i "gs_clients s"] r
      by (intro exI [of _ ?own]) (auto simp: stream_ok_def extends_def)
  next
    case False
    have "gs_clients (relay_data pkt s) = gs_clients s" by (simp add: relay_data_def)
    then show ?thesis using assms Inr False reg_ok_unregister [OF assms(1)]
      by (intro exI [of _ own]) (auto simp: relay_receive_def split: if_splits)
  qed
qed

lemma stream_step_ok:
  assumes "reg_ok p own (gs_clients s)" "stream_ok p own (cr_next (gs_clients s)) v" "stream_step ev v s = (v', s')"
  shows "\<exists>own'. reg_ok p own' (gs_clients s') \<and> cr_next (gs_clients s) \<le> cr_next (gs_clients s') \<and> stream_ok p own' (cr_next (gs_clients s')) v'
    \<and> extends (cr_next (gs_clients s)) own own'"
proof -
  have idle: "?thesis" if "v' = v" "s' = s" using assms that extends_refl by blast
  show ?thesis
  proof (cases ev)
    case (Receives now recv)
    then show ?thesis using idle receive_ok [OF assms(1,2)] assms(3) by (simp split: if_splits)
  next
    case (SenderSends k res)
    then show ?thesis using idle send_ok [OF assms(1,2), of k res v' s'] assms(3) by (auto split: if_splits intro: exI [of _ own])
  next
    case (SenderCtxDone k)
    then show ?thesis using idle stop_ok [OF assms(1,2), of k v' s'] assms(3) by (auto split: if_splits intro: exI [of _ own])
  next
    case (SenderDone k)
    then show ?thesis using idle stop_ok [OF assms(1,2), of k v' s'] assms(3) by (auto split: if_splits intro: exI [of _ own])
  qed
qed

lemma drain_ok:
  assumes "reg_ok p own (gs_clients s)"
  shows "reg_ok p own (gs_clients (drainEvents p n1 n2 s)) \<and> cr_next (gs_clients (drainEvents p n1 n2 s)) = cr_next (gs_clients s)"
proof -
  have "reg_ok p own (cr_send n1 n2 (ev_Observer evt) data (gs_clients s)) \<and> cr_next (cr_send n1 n2 (ev_Observer evt) data (gs_clients s)) = cr_next (gs_clients s)"
    if "encodeEvent p evt = Some data" for evt data
  proof (cases "fmlookup (cr_clients (gs_clients s)) (ev_Observer evt)")
    case (Some e)
    then have "own e = ev_Observer evt" using assms by (simp add: reg_ok_def)
    with that have "event_for p (own e) data" by (auto simp: event_for_def)
    with reg_ok_queue [OF assms queue_ok_push] Some show ?thesis by (simp add: cr_send_def)
  qed (use assms in \<open>simp add: cr_send_def\<close>)
  with assms show ?thesis by (simp add: drainEvents_def Let_def split: list.split option.split)
qed

lemma server_run_ok: "server_ok p own S \<Longrightarrow> \<exists>own'. server_ok p own' (server_run p evs S)"
proof (induction evs arbitrary: own S)
  case Nil
  then show ?case by (auto simp: server_run_def)
next
  case (Cons e evs)
  have "\<exists>own'. server_ok p own' (server_step p e S)"
  proof (cases e)
    case (OnStream k ev)
    obtain v s where st: "stream_step ev (sr_streams S k) (sr_s S) = (v, s)" by (cases "stream_step ev (sr_streams S k) (sr_s S)")
    have ok: "reg_ok p own (gs_clients (sr_s S))" "\<And>j. stream_ok p own (cr_next (gs_clients (sr_s S))) (sr_streams S j)"
      using Cons.prems by (simp_all add: server_ok_def)
    from stream_step_ok [OF ok st] obtain own' where own': "reg_ok p own' (gs_clients s)" "cr_next (gs_clients (sr_s S)) \<le> cr_next (gs_clients s)"
      "stream_ok p own' (cr_next (gs_clients s)) v" "extends (cr_next (gs_clients (sr_s S))) own own'" by blast
    then have "stream_ok p own' (cr_next (gs_clients s)) (sr_streams S j)" for j
      using stream_ok_extend [OF ok(2)] by (simp add: extends_def)
    with own' st OnStream show ?thesis by (intro exI [of _ own']) (simp add: server_ok_def)
  next
    case (Drains n1 n2)
    have "reg_ok p own (gs_clients (sr_s S))" using Cons.prems by (simp add: server_ok_def)
    from drain_ok [OF this, of n1 n2] show ?thesis using Drains Cons.prems by (intro exI [of _ own]) (simp add: server_ok_def)
  next
    case (Simulates f)
    then show ?thesis using Cons.prems by (intro exI [of _ own]) (simp add: server_ok_def)
  qed
  then obtain own' where "server_ok p own' (server_step p e S)" by blast
  from Cons.IH [OF this] show ?case by (simp add: server_run_def)
qed

lemma server_ok_start: "server_ok p own (server_start g reg)"
  by (simp add: server_ok_def server_start_def newGameServerServer_def newClientRegistry_def reg_ok_def stream_ok_def new_stream_def)



definition demo_enc :: proto_enc where
  "demo_enc = \<lparr>pe_gzip = gzip_plain, pe_snapshot = (\<lambda>m. Inr (bytes_of (snap_entity_id m))), pe_entityid = (\<lambda>i. Inr (bytes_of i)),
     pe_update = (\<lambda>m t. Inr (bytes_of (eu_entity_id m))), pe_action = (\<lambda>m t. Inr (bytes_of (ea_entity_id m)))\<rparr>"

definition demo_event :: Event where
  "demo_event = \<lparr>ev_Kind = EventDespawn, ev_Space = '''', ev_Observer = ''p1'', ev_EntityID = ''e'', ev_Type = '''', ev_Position = vzero, ev_Payload = []\<rparr>"

definition demo_server :: server where
  "demo_server = server_run demo_enc
     [OnStream 0 (Receives 0 (Inr (packet ''p1'' KIND_CONNECT))), Simulates (\<lambda>g. g\<lparr>g_Events := [demo_event]\<rparr>), Drains 0 0, OnStream 0 (SenderSends 0 None)]
     (server_start (game_New ''s'') None)"

lemma demo_server_sent:
  "rv_sent (sr_streams demo_server 0) = [(packet ''p1'' KIND_DATA)\<lparr>rp_Payload := encodeDespawnEvent demo_enc ''e''\<rparr>]"
proof -
  have enc: "encodeEvent demo_enc demo_event = Some (encodeDespawnEvent demo_enc ''e'')" "ev_Observer demo_event = ''p1''"
    by (simp_all add: encodeEvent_def demo_event_def)
  show ?thesis
    by (simp add: demo_server_def server_run_def server_start_def newGameServerServer_def newClientRegistry_def new_stream_def
        relay_receive_def relay_connect_def register_def Let_def drainEvents_def enc cr_send_def on_queue_def sender_send_def
        push_def newBoundedSendQueue_def go_simps packet_def)
qed


subsection \<open>What the client reads and writes\<close>

definition proto_law :: "proto_enc \<Rightarrow> proto_dec \<Rightarrow> bool" where
  \<comment> \<open>what was marshalled unmarshals to the same message; one compressor on both sides\<close>
  "proto_law e d \<longleftrightarrow> pd_gzip d = pe_gzip e \<and> gzip_ok (pe_gzip e)
     \<and> (\<forall>m b. pe_snapshot e m = Inr b \<longrightarrow> pd_snapshot d b = Inr m)
     \<and> (\<forall>i b. pe_entityid e i = Inr b \<longrightarrow> pd_entityid d b = Inr i)
     \<and> (\<forall>m t b. pe_update e m t = Inr b \<longrightarrow> pd_update d b = Inr m)
     \<and> (\<forall>m t b. pe_action e m t = Inr b \<longrightarrow> pd_action d b = Inr m)"

definition encodable :: "proto_enc \<Rightarrow> Event \<Rightarrow> bool" where
  \<comment> \<open>the message of the event can be marshalled: its strings are valid UTF-8\<close>
  "encodable e evt \<longleftrightarrow>
     (ev_Kind evt = EventSpawn \<longrightarrow> (\<exists>b. pe_snapshot e \<lparr>snap_entity_id = ev_EntityID evt, snap_type = ev_Type evt, snap_position = Some (ev_Position evt)\<rparr> = Inr b))
   \<and> (ev_Kind evt = EventDespawn \<longrightarrow> (\<exists>b. pe_entityid e (ev_EntityID evt) = Inr b))
   \<and> (ev_Kind evt = EventMove \<longrightarrow> (\<exists>b. pe_update e \<lparr>eu_entity_id = ev_EntityID evt, eu_position = Some (ev_Position evt)\<rparr> 0 = Inr b))"

lemma Decode_plain:
  assumes "gzip_ok g"
  shows "Decode g (Encode g pid payload False seq) = (1, pid, payload, False, seq, None)"
  using assms by (simp add: Decode_header [of g payload False payload False] encode_body_def gzip_ok_def)

lemma client_reads_move:
  assumes "proto_law e d" "pe_update e \<lparr>eu_entity_id = i, eu_position = Some pos\<rparr> 0 = Inr b"
  shows "client_read_one d (encodeMoveEvent e i pos) = MOVE i pos"
proof -
  have "pd_gzip d = pe_gzip e" "gzip_ok (pe_gzip e)" "pd_update d b = Inr \<lparr>eu_entity_id = i, eu_position = Some pos\<rparr>"
    using assms unfolding proto_law_def by blast+
  then show ?thesis using assms(2)
    by (simp add: encodeMoveEvent_def marshalled_def client_read_one_def Decode_plain pos_or_zero_def)
qed

lemma client_frame:
  assumes "proto_law e d" "c_gzip c = pe_gzip e" "c_update c = pd_update d"
    and "pe_update e \<lparr>eu_entity_id = player, eu_position = Some (client_corner tick)\<rparr> ms = Inr payload"
  shows "dispatch c \<lparr>pkt_ClientID = player, pkt_Data = hd (fst (client_write_one e player action tick ms (\<lambda>_. None)))\<rparr> g =
    dispatch_position \<lparr>pkt_ClientID = player, pkt_Data = hd (fst (client_write_one e player action tick ms (\<lambda>_. None)))\<rparr>
      \<lparr>eu_entity_id = player, eu_position = Some (client_corner tick)\<rparr> g"
proof -
  have "hd (fst (client_write_one e player action tick ms (\<lambda>_. None))) = Encode (pe_gzip e) PacketIDPositionUpdate payload False 0"
    using assms(4) by (simp add: client_write_one_def Let_def)
  moreover have "gzip_ok (pe_gzip e)" "pd_update d payload = Inr \<lparr>eu_entity_id = player, eu_position = Some (client_corner tick)\<rparr>"
    using assms(1,4) unfolding proto_law_def by blast+
  ultimately show ?thesis using assms(2,3) by (simp add: dispatch_def Decode_plain)
qed


definition demo_dec :: proto_dec where
  "demo_dec = \<lparr>pd_gzip = gzip_plain, pd_snapshot = (\<lambda>b. Inl (ErrText ''unused'')), pd_entityid = (\<lambda>b. Inr (string_of b)),
     pd_update = (\<lambda>b. Inl (ErrText ''unused'')), pd_action = (\<lambda>b. Inl (ErrText ''unused'')), pd_state = (\<lambda>b. Inl (ErrText ''unused''))\<rparr>"

definition demo_enc2 :: proto_enc where
  \<comment> \<open>an encoder that marshals entity ids only\<close>
  "demo_enc2 = \<lparr>pe_gzip = gzip_plain, pe_snapshot = (\<lambda>m. Inl (ErrText ''unused'')), pe_entityid = (\<lambda>i. Inr (bytes_of i)),
     pe_update = (\<lambda>m t. Inl (ErrText ''unused'')), pe_action = (\<lambda>m t. Inl (ErrText ''unused''))\<rparr>"

lemma string_of_bytes_of [simp]: "string_of (bytes_of s) = s"
proof -
  have "char_of (unat (of_nat (of_char c) :: 8 word)) = c" for c :: char
  proof -
    have "unat (of_nat n :: 8 word) = n" if "n < 256" for n :: nat using that by (simp add: unat_of_nat)
    then have "unat (of_nat (of_char c) :: 8 word) = of_char c" using nat_of_char_less_256 [of c] by blast
    then show ?thesis by (simp only: char_of_char)
  qed
  then show ?thesis by (induction s) (simp_all add: string_of_def bytes_of_def)
qed

lemma demo_proto_law: "proto_law demo_enc2 demo_dec"
  by (auto simp: proto_law_def demo_enc2_def demo_dec_def gzip_plain_ok)


end
