(* ===== verification/Journey.thy ===== *)
theory Journey
  imports Game_Props Game_Server_Props
begin

section \<open>The way of a move\<close>

text \<open>
  From one player's screen to another's: the client writes a frame (\<open>tools/client\<close>), the simulation
  dispatches it and queues events (\<open>internal/game\<close>), the server drains the events into the send
  queues (\<open>apps/game-server\<close>), and the other client reads the packet.
\<close>

lemma fan_out_exact:
  "length (g_Events g) + length obs \<le> InboxBufferSize \<Longrightarrow>
   g_Events (fan_out i mk obs g) = g_Events g @ map mk (filter (\<lambda>ob. ob \<noteq> i) obs)"
  unfolding fan_out_def by (induction obs arbitrary: g) (simp_all add: publish_room)

lemma fan_out_ents [simp]: "g_ents (fan_out i mk obs g) = g_ents g"
  using zcore_fields [OF gcore_zcore [OF gcore_fan_out]] by simp

lemma position_events:
  assumes inv: "game_inv g" and r: "fmlookup (g_Entities g) i = Some r" and z: "fmlookup (g_entityZone g) i = Some z"
    and sim: "fmlookup (g_Zones g) z = Some sim" and upd: "eu_position upd = Some pos"
    and room: "length (g_Events g) + length (EntitiesInRange (aoi_Move i pos (g_aois g (sim_aoi sim))) pos (g_aoiRadius g)) \<le> InboxBufferSize"
    and g': "g' = dispatch_position pkt upd g" "pkt_ClientID pkt = i"
  obtains obs where "g_Events g' = g_Events g @ map (move_event (e_RuntimeID (g_ents g r)) i pos) obs" "distinct obs"
    "e_Position (g_ents g' r) = pos"
    "\<And>j q. fmlookup (g_Entities g) j = Some q \<Longrightarrow> j \<in> set obs \<longleftrightarrow> j \<noteq> i \<and> fmlookup (g_entityZone g) j = Some z
       \<and> in_range pos (g_aoiRadius g) (e_Position (g_ents g q))"
proof -
  let ?e = "(g_ents g r)\<lparr>e_Position := pos\<rparr>"
  define h where "h = aoi_move i i pos (g\<lparr>g_ents := (g_ents g)(r := ?e)\<rparr>)"
  have id: "e_ID (g_ents g r) = i" by (rule inv_liveE [OF inv r])
  have "same_identity (g_ents g r) ?e" using inv_misc(1) [OF inv] by (simp add: same_identity_def)
  from inv_move [OF inv r this] have hinv: "game_inv h" by (simp add: h_def)
  have aois: "g_aois h (sim_aoi sim) = aoi_Move i pos (g_aois g (sim_aoi sim))" "g_aoiRadius h = g_aoiRadius g"
    using z sim by (simp_all add: h_def aoi_move_def)
  let ?near = "EntitiesInRange (g_aois h (sim_aoi sim)) pos (g_aoiRadius h)"
  have ents: "g_ents h = (g_ents g)(r := ?e)" "g_Entities h = g_Entities g" "g_entityZone h = g_entityZone g" "g_Zones h = g_Zones g"
    "g_Events h = g_Events g" by (simp_all add: h_def)
  have g'': "g' = fan_out i (move_event (e_RuntimeID (g_ents g r)) i pos) ?near h"
    using r z sim upd id g' ents by (simp add: dispatch_position_def enqueueMove_def Let_def flip: h_def)
  show ?thesis
  proof (rule that [of "filter (\<lambda>ob. ob \<noteq> i) ?near"])
    show "g_Events g' = g_Events g @ map (move_event (e_RuntimeID (g_ents g r)) i pos) (filter (\<lambda>ob. ob \<noteq> i) ?near)"
      unfolding g'' ents(5) [symmetric] by (rule fan_out_exact) (use room aois ents in simp)
    show "distinct (filter (\<lambda>ob. ob \<noteq> i) ?near)" using EntitiesInRange_sorted(2) by simp
    show "e_Position (g_ents g' r) = pos" by (simp add: g'' ents)
    fix j q assume j: "fmlookup (g_Entities g) j = Some q"
    have "e_ID (g_ents g q) = j" by (rule inv_liveE [OF inv j])
    then have "q \<noteq> r" if "j \<noteq> i" using that id by auto
    with range_live [OF hinv, of z sim j q pos] sim j aois(2)
    show "j \<in> set (filter (\<lambda>ob. ob \<noteq> i) ?near) \<longleftrightarrow> j \<noteq> i \<and> fmlookup (g_entityZone g) j = Some z
       \<and> in_range pos (g_aoiRadius g) (e_Position (g_ents g q))" by (auto simp: ents)
  qed
qed

lemma push_last:
  assumes "length (sq_ch q) \<le> sq_cap q" "1 \<le> sq_cap q"
  shows "\<exists>old. sq_ch (push n1 n2 d q) = old @ [d]"
proof (cases "drop n1 (sq_ch q)")
  case Nil
  then show ?thesis using assms by (auto simp: push_def go_simps Let_def sq_receive_def)
next
  case (Cons x ys)
  then have "length (drop n1 (sq_ch q)) = length (x # ys)" by simp
  then have "length ys < sq_cap q" using assms by simp
  then show ?thesis using Cons assms by (auto simp: push_def go_simps Let_def sq_receive_def)
qed

lemma drained_move:
  assumes "proto_law e d" and b: "pe_update e \<lparr>eu_entity_id = i, eu_position = Some pos\<rparr> 0 = Inr b"
    and s: "g_Events (gs_game s) = move_event space i pos j # rest" "fmlookup (cr_clients (gs_clients s)) j = Some a"
    and q: "length (sq_ch (en_q (cr_entries (gs_clients s) a))) \<le> sq_cap (en_q (cr_entries (gs_clients s) a))"
      "1 \<le> sq_cap (en_q (cr_entries (gs_clients s) a))"
  shows "\<exists>old data. sq_ch (en_q (cr_entries (gs_clients (drainEvents e n1 n2 s)) a)) = old @ [data] \<and> client_read_one d data = MOVE i pos"
proof -
  let ?evt = "move_event space i pos j"
  have "encodeEvent e ?evt = Some (encodeMoveEvent e i pos)" by (simp add: encodeEvent_def move_event_def)
  moreover have "client_read_one d (encodeMoveEvent e i pos) = MOVE i pos" by (rule client_reads_move [OF assms(1) b])
  ultimately show ?thesis using push_last [OF q, of n1 n2 "encodeMoveEvent e i pos"] s
    by (auto simp: drainEvents_def cr_send_def on_queue_def move_event_def Let_def)
qed

text \<open>
  C2. A move reaches exactly the neighbours. When a player's client writes its position and the
  simulation, in any reachable state with room in the event queue, dispatches the frame, the player's
  entity is there, and one move event is queued for each other live entity of the zone that is within
  the AOI radius of the new position, and for no other live entity. When the server drains such an
  event to an observer with a connection, the newest packet in the observer's send queue is one the
  observer's client reads as that player's move to that position.
\<close>

theorem moves_reach_neighbours:
  assumes "proto_law e d" and "c_gzip c = pe_gzip e" and "c_update c = pd_update d"
    and "\<forall>t \<in> {ms, 0}. \<exists>b. pe_update e \<lparr>eu_entity_id = i, eu_position = Some (client_corner tick)\<rparr> t = Inr b"
    and "game_reach g" and "fmlookup (g_Entities g) i = Some r" and "fmlookup (g_entityZone g) i = Some z"
    and "fmlookup (g_Zones g) z = Some sim"
    and "length (g_Events g) + length (EntitiesInRange (aoi_Move i (client_corner tick) (g_aois g (sim_aoi sim))) (client_corner tick) (g_aoiRadius g)) \<le> 4096"
    and "fst (client_write_one e i action tick ms (\<lambda>_. None)) = frame # frames"
    and "g' = dispatch c \<lparr>pkt_ClientID = i, pkt_Data = frame\<rparr> g"
  shows "e_Position (g_ents g' r) = client_corner tick
    \<and> (\<exists>obs. g_Events g' = g_Events g @ map (move_event (e_RuntimeID (g_ents g r)) i (client_corner tick)) obs \<and> distinct obs
        \<and> (\<forall>j q. fmlookup (g_Entities g) j = Some q \<longrightarrow> (j \<in> set obs \<longleftrightarrow> j \<noteq> i \<and> fmlookup (g_entityZone g) j = Some z
              \<and> in_range (client_corner tick) (g_aoiRadius g) (e_Position (g_ents g q)))))
    \<and> (\<forall>space j s rest a n1 n2. g_Events (gs_game s) = move_event space i (client_corner tick) j # rest
         \<and> fmlookup (cr_clients (gs_clients s)) j = Some a
         \<and> length (sq_ch (en_q (cr_entries (gs_clients s) a))) \<le> sq_cap (en_q (cr_entries (gs_clients s) a))
         \<and> 1 \<le> sq_cap (en_q (cr_entries (gs_clients s) a))
       \<longrightarrow> (\<exists>old data. sq_ch (en_q (cr_entries (gs_clients (drainEvents e n1 n2 s)) a)) = old @ [data]
              \<and> client_read_one d data = MOVE i (client_corner tick)))"
proof -
  have inv: "game_inv g" using game_reach_ok [OF assms(5)] by simp
  obtain b b0 where b: "pe_update e \<lparr>eu_entity_id = i, eu_position = Some (client_corner tick)\<rparr> ms = Inr b"
    "pe_update e \<lparr>eu_entity_id = i, eu_position = Some (client_corner tick)\<rparr> 0 = Inr b0" using assms(4) by blast
  have frame: "frame = hd (fst (client_write_one e i action tick ms (\<lambda>_. None)))" using assms(10) by simp
  have g': "g' = dispatch_position \<lparr>pkt_ClientID = i, pkt_Data = frame\<rparr> \<lparr>eu_entity_id = i, eu_position = Some (client_corner tick)\<rparr> g"
    unfolding assms(11) frame by (rule client_frame [OF assms(1-3) b(1)])
  obtain obs where obs: "g_Events g' = g_Events g @ map (move_event (e_RuntimeID (g_ents g r)) i (client_corner tick)) obs" "distinct obs"
    "e_Position (g_ents g' r) = client_corner tick"
    "\<And>j q. fmlookup (g_Entities g) j = Some q \<Longrightarrow> j \<in> set obs \<longleftrightarrow> j \<noteq> i \<and> fmlookup (g_entityZone g) j = Some z
       \<and> in_range (client_corner tick) (g_aoiRadius g) (e_Position (g_ents g q))"
    by (rule position_events [OF inv assms(6-8) _ assms(9) g']) (simp, simp, blast)
  then show ?thesis using drained_move [OF assms(1) b(2)] by blast
qed

definition way_enc :: proto_enc where
  \<comment> \<open>an encoder that marshals one message, the move of the player \<open>a\<close>\<close>
  "way_enc = demo_enc2\<lparr>pe_update := (\<lambda>m t. if m = \<lparr>eu_entity_id = ''a'', eu_position = Some (client_corner 0)\<rparr> then Inr [1] else Inl (ErrText ''unused''))\<rparr>"

definition way_dec :: proto_dec where
  "way_dec = demo_dec\<lparr>pd_update := (\<lambda>b. Inr \<lparr>eu_entity_id = ''a'', eu_position = Some (client_corner 0)\<rparr>)\<rparr>"

definition way_server :: gameServerServer where
  \<comment> \<open>a server with one connection, about to drain the event\<close>
  "way_server = (newGameServerServer (demo2\<lparr>g_Events := [move_event ''r1'' ''a'' (client_corner 0) ''b'']\<rparr>) None)
     \<lparr>gs_clients := snd (register ''b'' newClientRegistry)\<rparr>"

lemma way_law: "proto_law way_enc way_dec"
  using demo_proto_law by (auto simp: proto_law_def way_enc_def way_dec_def split: if_splits)

lemma way_room:
  "length (EntitiesInRange (aoi_Move ''a'' p (g_aois demo2 0)) p 300) \<le> 2"
proof -
  let ?A = "aoi_Move ''a'' p (g_aois demo2 0)"
  have "aoi_inv ?A" by (simp add: aoi_inv_Enter aoi_inv_New aoi_inv_Move)
  moreover define S where "S = {i. \<exists>q. fmlookup (a_positions ?A) i = Some q \<and> in_range p 300 q}"
  ultimately have "EntitiesInRange ?A p 300 = sorted_list_of_set S" by (simp add: EntitiesInRange_exact)
  moreover have "S \<subseteq> {''a'', ''b''}" by (auto simp: S_def split: if_splits)
  then have "card S \<le> card {''a'', ''b''}" by (intro card_mono) simp
  ultimately show ?thesis by simp
qed

theorem moves_reach_neighbours_witness:
  "\<exists>frame frames. fst (client_write_one way_enc ''a'' '''' 0 7 (\<lambda>_. None)) = frame # frames
    \<and> move_event ''r1'' ''a'' (client_corner 0) ''b''
        \<in> set (g_Events (dispatch \<lparr>c_gzip = gzip_plain, c_update = pd_update way_dec, c_action = \<lambda>_. Inl ErrConflict, c_state = \<lambda>_. Inl ErrConflict\<rparr>
            \<lparr>pkt_ClientID = ''a'', pkt_Data = frame\<rparr> demo2))
    \<and> (\<exists>old data. sq_ch (en_q (cr_entries (gs_clients (drainEvents way_enc 0 0 way_server)) 0)) = old @ [data]
          \<and> client_read_one way_dec data = MOVE ''a'' (client_corner 0))"
proof -
  let ?c = "\<lparr>c_gzip = gzip_plain, c_update = pd_update way_dec, c_action = \<lambda>_. Inl ErrConflict, c_state = \<lambda>_. Inl ErrConflict\<rparr> :: codec"
  obtain frame frames where f: "fst (client_write_one way_enc ''a'' '''' 0 7 (\<lambda>_. None)) = frame # frames"
    by (simp add: client_write_one_def way_enc_def)
  have z: "fmlookup (g_Entities demo2) ''a'' = Some 0" "fmlookup (g_entityZone demo2) ''a'' = Some ''r1:0:0''"
    "fmlookup (g_Zones demo2) ''r1:0:0'' = Some \<lparr>sim_zone = Some demo_zone, sim_aoi = 0, sim_entities = fmupd ''b'' 1 (fmupd ''a'' 0 fmempty)\<rparr>"
    by simp_all
  have enc: "c_gzip ?c = pe_gzip way_enc" "c_update ?c = pd_update way_dec"
    "\<forall>t \<in> {7, 0}. \<exists>b. pe_update way_enc \<lparr>eu_entity_id = ''a'', eu_position = Some (client_corner 0)\<rparr> t = Inr b"
    by (simp_all add: way_enc_def demo_enc2_def)
  note all = moves_reach_neighbours [OF way_law enc demo2_reach z _ f refl]
  have room: "length (g_Events demo2) + length (EntitiesInRange (aoi_Move ''a'' (client_corner 0) (g_aois demo2 (sim_aoi
      \<lparr>sim_zone = Some demo_zone, sim_aoi = 0, sim_entities = fmupd ''b'' 1 (fmupd ''a'' 0 fmempty)\<rparr>))) (client_corner 0) (g_aoiRadius demo2)) \<le> 4096"
    using way_room [of "client_corner 0"] by simp
  have near: "fmlookup (g_Entities demo2) ''b'' = Some 1" "fmlookup (g_entityZone demo2) ''b'' = Some ''r1:0:0''"
    "in_range (client_corner 0) (g_aoiRadius demo2) (e_Position (g_ents demo2 1))"
    by (simp_all add: in_range_def client_corner_def power2_eq_square)
  have space: "e_RuntimeID (g_ents demo2 0) = ''r1''" by simp
  from all [OF room] near have "move_event ''r1'' ''a'' (client_corner 0) ''b'' \<in> set (g_Events (dispatch ?c \<lparr>pkt_ClientID = ''a'', pkt_Data = frame\<rparr> demo2))"
    unfolding space by fastforce
  moreover have "g_Events (gs_game way_server) = [move_event ''r1'' ''a'' (client_corner 0) ''b'']"
    "fmlookup (cr_clients (gs_clients way_server)) ''b'' = Some 0" "sq_ch (en_q (cr_entries (gs_clients way_server) 0)) = []"
    "sq_cap (en_q (cr_entries (gs_clients way_server) 0)) = 64"
    by (simp_all add: way_server_def newGameServerServer_def register_def newClientRegistry_def newBoundedSendQueue_def Let_def)
  with conjunct2 [OF conjunct2 [OF all [OF room]]]
  have "\<exists>old data. sq_ch (en_q (cr_entries (gs_clients (drainEvents way_enc 0 0 way_server)) 0)) = old @ [data]
          \<and> client_read_one way_dec data = MOVE ''a'' (client_corner 0)" by fastforce
  ultimately show ?thesis using f by blast
qed

end
