(* ===== verification/Room_Migration.thy ===== *)
theory Room_Migration
  imports Zone
begin

section \<open>Zone transfer and leadership: \<open>migration.go\<close>, \<open>leaderelection.go\<close>\<close>

text \<open>
  The coordinator of the two-phase transfer of a zone between servers, and the gate that lets only
  the holder of a lease act. Listeners are functions the coordinator calls; a listener is its number
  here and each call is appended to a log. The \<open>Lease\<close> interface is a record of its methods, the
  contract its users rely on the locale \<open>lease\<close>, which \<open>FakeLease\<close> interprets.
\<close>

subsection \<open>The coordinator\<close>

record zoneRow =
  row_owner :: ServerID
  row_status :: ZoneStatus

record MigrationCoordinator =
  mc_rows :: "(string, zoneRow) fmap"
  mc_listeners :: "nat list"
  mc_calls :: "(nat \<times> string \<times> ServerID \<times> ZoneStatus) list"

definition NewMigrationCoordinator :: MigrationCoordinator where
  "NewMigrationCoordinator = \<lparr>mc_rows = fmempty, mc_listeners = [], mc_calls = []\<rparr>"

definition WithListener :: "nat \<Rightarrow> MigrationCoordinator \<Rightarrow> MigrationCoordinator" where
  "WithListener l m = m\<lparr>mc_listeners := mc_listeners m @ [l]\<rparr>"

definition zt_set :: "string \<Rightarrow> ServerID \<Rightarrow> ZoneStatus \<Rightarrow> MigrationCoordinator \<Rightarrow> MigrationCoordinator" where
  "zt_set zoneID owner status m = m\<lparr>mc_rows := fmupd zoneID \<lparr>row_owner = owner, row_status = status\<rparr> (mc_rows m)\<rparr>"

definition zt_get :: "string \<Rightarrow> MigrationCoordinator \<Rightarrow> zoneRow option" where
  "zt_get zoneID m = fmlookup (mc_rows m) zoneID"

definition zt_update :: "string \<Rightarrow> ServerID \<Rightarrow> ZoneStatus \<Rightarrow> MigrationCoordinator \<Rightarrow> MigrationCoordinator" where
  "zt_update zoneID owner status m = m\<lparr>mc_rows := fmupd zoneID \<lparr>row_owner = owner, row_status = status\<rparr> (mc_rows m)\<rparr>"

definition PrepareTransfer :: "string \<Rightarrow> ServerID \<Rightarrow> MigrationCoordinator \<Rightarrow> (error + bool) \<times> MigrationCoordinator" where
  "PrepareTransfer zoneID target m =
     (case zt_get zoneID m of
        None \<Rightarrow> (Inl (Errorf (''zone '' @ zoneID @ '': '') ErrNotFound ''''), m)
      | Some row \<Rightarrow>
          if row_status row \<noteq> ZoneStatusActive
          then (Inl (Errorf (''zone '' @ zoneID @ '' status '' @ ZoneStatus_String (row_status row) @ '': '') ErrConflict ''''), m)
          else (Inr True, zt_update zoneID (row_owner row) ZoneStatusTransferring m))"

definition mc_CompleteTransfer :: "string \<Rightarrow> ServerID \<Rightarrow> MigrationCoordinator \<Rightarrow> error option \<times> MigrationCoordinator" where
  "mc_CompleteTransfer zoneID target m =
     (case zt_get zoneID m of
        None \<Rightarrow> (Some (Errorf (''zone '' @ zoneID @ '': '') ErrNotFound ''''), m)
      | Some row \<Rightarrow>
          if row_status row \<noteq> ZoneStatusTransferring
          then (Some (Errorf (''zone '' @ zoneID @ '' status '' @ ZoneStatus_String (row_status row) @ '': '') ErrInvalidArg ''''), m)
          else
            (let m = zt_update zoneID target ZoneStatusActive m
             in (None, fold (\<lambda>l m. m\<lparr>mc_calls := mc_calls m @ [(l, zoneID, target, ZoneStatusActive)]\<rparr>) (mc_listeners m) m)))"

definition mc_Status :: "string \<Rightarrow> MigrationCoordinator \<Rightarrow> ZoneStatus option" where
  "mc_Status zoneID m = map_option row_status (zt_get zoneID m)"

subsection \<open>The coordinator implements the life cycle of the zones\<close>

datatype mig_op = Prepare string ServerID | Complete string ServerID

fun mig_step :: "mig_op \<Rightarrow> MigrationCoordinator \<Rightarrow> bool \<times> MigrationCoordinator" where
  \<comment> \<open>whether the call succeeded, and the state after it\<close>
  "mig_step (Prepare z t) m = (fst (PrepareTransfer z t m) = Inr True, snd (PrepareTransfer z t m))"
| "mig_step (Complete z t) m = (fst (mc_CompleteTransfer z t m) = None, snd (mc_CompleteTransfer z t m))"

fun mig_zone :: "mig_op \<Rightarrow> string" where
  "mig_zone (Prepare z t) = z"
| "mig_zone (Complete z t) = z"

fun mig_zone_op :: "mig_op \<Rightarrow> zone_op" where
  "mig_zone_op (Prepare z t) = OpBeginTransfer"
| "mig_zone_op (Complete z t) = OpCompleteTransfer t"

definition spec_step :: "mig_op \<Rightarrow> (string \<Rightarrow> Zone option) \<Rightarrow> bool \<times> (string \<Rightarrow> Zone option)" where
  \<comment> \<open>the same call on zones as the game server keeps them\<close>
  "spec_step op zs =
     (case zs (mig_zone op) of
        None \<Rightarrow> (False, zs)
      | Some z \<Rightarrow>
          (case zone_apply (mig_zone_op op) z of
             Inl e \<Rightarrow> (False, zs)
           | Inr z' \<Rightarrow> (True, zs(mig_zone op := Some z'))))"

fun run_calls :: "('x \<Rightarrow> 's \<Rightarrow> bool \<times> 's) \<Rightarrow> 'x list \<Rightarrow> 's \<Rightarrow> bool list \<times> 's" where
  "run_calls step [] s = ([], s)"
| "run_calls step (x # xs) s =
     (fst (step x s) # fst (run_calls step xs (snd (step x s))), snd (run_calls step xs (snd (step x s))))"

definition row_of :: "Zone \<Rightarrow> zoneRow" where
  "row_of z = \<lparr>row_owner = z_ServerID z, row_status = z_Status z\<rparr>"

definition tracks :: "MigrationCoordinator \<Rightarrow> (string \<Rightarrow> Zone option) \<Rightarrow> bool" where
  "tracks m zs \<longleftrightarrow> (\<forall>z. fmlookup (mc_rows m) z = map_option row_of (zs z))"

lemma fold_calls:
  "mc_rows (fold (\<lambda>l m. m\<lparr>mc_calls := mc_calls m @ [c l]\<rparr>) ls m) = mc_rows m"
  "mc_listeners (fold (\<lambda>l m. m\<lparr>mc_calls := mc_calls m @ [c l]\<rparr>) ls m) = mc_listeners m"
  "mc_calls (fold (\<lambda>l m. m\<lparr>mc_calls := mc_calls m @ [c l]\<rparr>) ls m) = mc_calls m @ map c ls"
  by (induction ls arbitrary: m) simp_all

lemma mig_step_tracks:
  assumes "tracks m zs"
  shows "fst (mig_step op m) = fst (spec_step op zs) \<and> tracks (snd (mig_step op m)) (snd (spec_step op zs))"
proof -
  have t: "fmlookup (mc_rows m) z = map_option row_of (zs z)" for z using assms by (simp add: tracks_def)
  show ?thesis
  proof (cases op)
    case (Prepare z s)
    with t show ?thesis
      by (cases "zs z") (auto simp: PrepareTransfer_def zt_get_def zt_update_def spec_step_def tracks_def row_of_def
          zone_BeginTransfer_def ValidTransition_iff)
  next
    case (Complete z s)
    with t show ?thesis
      by (cases "zs z") (auto simp: mc_CompleteTransfer_def zt_get_def zt_update_def spec_step_def tracks_def row_of_def
          zone_CompleteTransfer_def Let_def fold_calls)
  qed
qed

lemma run_tracks:
  "tracks m zs \<Longrightarrow> fst (run_calls mig_step ops m) = fst (run_calls spec_step ops zs)
     \<and> tracks (snd (run_calls mig_step ops m)) (snd (run_calls spec_step ops zs))"
  by (induction ops arbitrary: m zs) (auto simp: mig_step_tracks)

text \<open>
  C30. The coordinator implements the life cycle of a zone: when its table holds, for every zone, the
  owner and status of the zone record, every sequence of prepare and complete calls has the same
  outcomes, call by call, as \<open>BeginTransfer\<close> and \<open>CompleteTransfer\<close> on the records, and the table
  holds owner and status of the records at the end. A successful completion calls every listener
  once, in order, with the new owner.
\<close>

theorem migration_refines_zone:
  assumes "tracks m zs"
  shows "fst (run_calls mig_step ops m) = fst (run_calls spec_step ops zs)
    \<and> (\<forall>z. zt_get z (snd (run_calls mig_step ops m)) = map_option row_of (snd (run_calls spec_step ops zs) z))
    \<and> (fst (mc_CompleteTransfer zid t m) = None \<longrightarrow>
         mc_calls (snd (mc_CompleteTransfer zid t m)) = mc_calls m @ map (\<lambda>l. (l, zid, t, ZoneStatusActive)) (mc_listeners m))"
  using run_tracks [OF assms, of ops]
  by (auto simp: tracks_def zt_get_def mc_CompleteTransfer_def zt_update_def Let_def fold_calls split: option.splits if_splits)

theorem migration_refines_zone_witness:
  "fst (run_calls mig_step [Complete ''z'' ''b'', Prepare ''z'' ''b'', Prepare ''z'' ''c'', Complete ''z'' ''b'']
      (zt_set ''z'' ''a'' ZoneStatusActive NewMigrationCoordinator)) = [False, True, False, True]"
proof -
  let ?z = "(zone_New ''z'' ''r'' 0 0 100)\<lparr>z_Status := ZoneStatusActive, z_ServerID := ''a''\<rparr>"
  let ?ops = "[Complete ''z'' ''b'', Prepare ''z'' ''b'', Prepare ''z'' ''c'', Complete ''z'' ''b'']"
  have "tracks (zt_set ''z'' ''a'' ZoneStatusActive NewMigrationCoordinator) [''z'' \<mapsto> ?z]"
    by (simp add: tracks_def zt_set_def NewMigrationCoordinator_def row_of_def)
  from migration_refines_zone [OF this, of ?ops]
  show ?thesis by (simp add: spec_step_def zone_defs ValidTransition_iff)
qed

subsection \<open>Leadership\<close>

record 'l Lease =
  l_Acquire :: "'l \<Rightarrow> bool \<times> 'l"
  l_Renew :: "'l \<Rightarrow> bool"
  l_Release :: "'l \<Rightarrow> 'l"
  l_IsHeld :: "'l \<Rightarrow> bool"

type_synonym 'l LeadershipGate = "('l Lease \<times> 'l) option"

definition NewLeadershipGate :: "('l Lease \<times> 'l) option \<Rightarrow> 'l LeadershipGate" where
  "NewLeadershipGate l = l"

definition SetLease :: "('l Lease \<times> 'l) option \<Rightarrow> 'l LeadershipGate \<Rightarrow> 'l LeadershipGate" where
  "SetLease l g = l"

definition IsLeader :: "'l LeadershipGate \<Rightarrow> bool" where
  "IsLeader g = (case g of None \<Rightarrow> False | Some (d, l) \<Rightarrow> l_IsHeld d l)"

definition DoIfLeader :: "('x \<Rightarrow> 'x) \<Rightarrow> 'l LeadershipGate \<Rightarrow> 'x \<Rightarrow> 'x" where
  "DoIfLeader fn g x = (if \<not> IsLeader g then x else fn x)"

record FakeLease =
  fl_held :: bool

definition fake_Acquire :: "FakeLease \<Rightarrow> bool \<times> FakeLease" where
  "fake_Acquire f = (True, f\<lparr>fl_held := True\<rparr>)"

definition fake_Renew :: "FakeLease \<Rightarrow> bool" where
  "fake_Renew f = fl_held f"

definition fake_Release :: "FakeLease \<Rightarrow> FakeLease" where
  "fake_Release f = f\<lparr>fl_held := False\<rparr>"

definition fake_IsHeld :: "FakeLease \<Rightarrow> bool" where
  "fake_IsHeld f = fl_held f"

definition fake_lease :: "FakeLease Lease" where
  "fake_lease = \<lparr>l_Acquire = fake_Acquire, l_Renew = fake_Renew, l_Release = fake_Release, l_IsHeld = fake_IsHeld\<rparr>"

datatype lease_op = AcquireOp | RenewOp | ReleaseLeaseOp

fun lease_step :: "'l Lease \<Rightarrow> lease_op \<Rightarrow> 'l \<Rightarrow> 'l" where
  "lease_step d AcquireOp l = snd (l_Acquire d l)"
| "lease_step d RenewOp l = l"
| "lease_step d ReleaseLeaseOp l = l_Release d l"

fun held_after :: "'l Lease \<Rightarrow> lease_op list \<Rightarrow> 'l \<Rightarrow> bool" where
  \<comment> \<open>what the calls say: the last successful acquisition is later than the last release\<close>
  "held_after d [] l \<longleftrightarrow> l_IsHeld d l"
| "held_after d (AcquireOp # xs) l \<longleftrightarrow>
     (if fst (l_Acquire d l) \<and> ReleaseLeaseOp \<notin> set xs then True else held_after d xs (snd (l_Acquire d l)))"
| "held_after d (RenewOp # xs) l \<longleftrightarrow> held_after d xs l"
| "held_after d (ReleaseLeaseOp # xs) l \<longleftrightarrow> held_after d xs (l_Release d l)"

locale lease =
  fixes d :: "'l Lease"
  assumes acquire_held: "fst (l_Acquire d l) \<Longrightarrow> l_IsHeld d (snd (l_Acquire d l))"
    and acquire_keeps: "l_IsHeld d l \<Longrightarrow> l_IsHeld d (snd (l_Acquire d l))"
    and release_drops: "\<not> l_IsHeld d (l_Release d l)"
    and renew_held: "l_Renew d l \<longleftrightarrow> l_IsHeld d l"
begin

lemma held_keeps: "l_IsHeld d l \<Longrightarrow> ReleaseLeaseOp \<notin> set ops \<Longrightarrow> l_IsHeld d (fold (lease_step d) ops l)"
proof (induction ops arbitrary: l)
  case (Cons x xs)
  then have "l_IsHeld d (lease_step d x l)" by (cases x) (auto intro: acquire_keeps)
  with Cons show ?case by simp
qed simp

lemma held_run: "held_after d ops l \<longleftrightarrow> l_IsHeld d (fold (lease_step d) ops l)"
proof (induction ops arbitrary: l)
  case (Cons x xs)
  then show ?case using acquire_held [of l] held_keeps [of _ xs] by (cases x) auto
qed simp

lemma acts_iff_held:
  "DoIfLeader fn (Some (d, fold (lease_step d) ops l)) x = (if held_after d ops l then fn x else x)"
  by (simp add: DoIfLeader_def IsLeader_def held_run)

lemma never_after_release: "DoIfLeader fn (Some (d, fold (lease_step d) (ops @ [ReleaseLeaseOp]) l)) x = x"
  by (simp add: DoIfLeader_def IsLeader_def release_drops)

end

interpretation fake: lease fake_lease
  by unfold_locales (simp_all add: fake_lease_def fake_Acquire_def fake_Renew_def fake_Release_def fake_IsHeld_def)

end
