(* ===== verification/Room_API.thy ===== *)
theory Room_API
  imports Types
begin

section \<open>The runtime API: \<open>internal/room/api.go\<close>\<close>

text \<open>
  The gRPC service that creates, destroys and describes runtimes (Spaces), and the in-memory store
  behind it. The service is written against the interface \<open>RuntimeStore\<close>, here a record of its
  methods; what the service relies on is the locale \<open>runtime_store\<close>, which the in-memory store
  interprets. Printing a time in RFC 3339 is the argument \<open>format\<close>.
\<close>

record RuntimeRecord =
  rr_ID :: string
  rr_Status :: RuntimeStatus
  rr_ZoneCount :: int
  rr_ZoneSize :: float64
  rr_ZoneIDs :: "string list"
  rr_PlayerCount :: int
  rr_CreatedAt :: Time

record 's RuntimeStore =
  rst_Create :: "string \<Rightarrow> int \<Rightarrow> float64 \<Rightarrow> 's \<Rightarrow> (error + RuntimeRecord) \<times> 's"
  rst_Get :: "string \<Rightarrow> 's \<Rightarrow> error + RuntimeRecord"
  rst_Destroy :: "string \<Rightarrow> 's \<Rightarrow> error option \<times> 's"
  rst_List :: "string \<Rightarrow> int \<Rightarrow> 's \<Rightarrow> error + RuntimeRecord list \<times> string"

record 's SpatialServerAPI =
  api_store :: "'s RuntimeStore"
  api_gatewayAddr :: string
  api_defaultZones :: int
  api_defaultSize :: float64

definition NewSpatialServerAPI :: "'s RuntimeStore \<Rightarrow> string \<Rightarrow> 's SpatialServerAPI" where
  "NewSpatialServerAPI store gatewayAddr =
     \<lparr>api_store = store, api_gatewayAddr = gatewayAddr, api_defaultZones = 1, api_defaultSize = 100\<rparr>"

abbreviation (input) codes_InvalidArgument :: int where "codes_InvalidArgument \<equiv> 3"
abbreviation (input) codes_NotFound :: int where "codes_NotFound \<equiv> 5"
abbreviation (input) codes_Internal :: int where "codes_Internal \<equiv> 13"
abbreviation (input) codes_Unavailable :: int where "codes_Unavailable \<equiv> 14"

record CreateRuntimeRequest =
  crq_RuntimeId :: string
  crq_ZoneCount :: int
  crq_ZoneSize :: float64

record CreateRuntimeResponse =
  crs_RuntimeId :: string
  crs_GatewayAddr :: string
  crs_ZoneCount :: int
  crs_Zones :: "string list"   \<comment> \<open>the ids of the zones; the other fields of a zone are not set\<close>

definition zone_name :: "string \<Rightarrow> int \<Rightarrow> string" where
  "zone_name i k = i @ ''-z'' @ itoa k"

definition CreateRuntime :: "'s SpatialServerAPI \<Rightarrow> CreateRuntimeRequest \<Rightarrow> 's \<Rightarrow> (error + CreateRuntimeResponse) \<times> 's" where
  "CreateRuntime s req st =
     (if crq_RuntimeId req = '''' then (Inl (ErrStatus codes_InvalidArgument ''runtime_id is required''), st)
      else
        (let zc = (if crq_ZoneCount req \<le> 0 then to_int32 (api_defaultZones s) else crq_ZoneCount req);
             zs = (if crq_ZoneSize req \<le> 0 then api_defaultSize s else crq_ZoneSize req)
         in case rst_Create (api_store s) (crq_RuntimeId req) zc zs st of
              (Inl err, st) \<Rightarrow> (Inl (ErrStatus codes_Internal (''create runtime: '' @ error_Error err)), st)
            | (Inr rec, st) \<Rightarrow>
                (Inr \<lparr>crs_RuntimeId = rr_ID rec, crs_GatewayAddr = api_gatewayAddr s,
                      crs_ZoneCount = to_int32 (rr_ZoneCount rec),
                      crs_Zones = map (\<lambda>i. zone_name (rr_ID rec) (i + 1)) [0..rr_ZoneCount rec - 1]\<rparr>, st)))"

definition DestroyRuntime :: "'s SpatialServerAPI \<Rightarrow> string \<Rightarrow> 's \<Rightarrow> (error + bool) \<times> 's" where
  "DestroyRuntime s runtimeId st =
     (case rst_Destroy (api_store s) runtimeId st of
        (Some err, st) \<Rightarrow>
          (if err = ErrNotFound then (Inl (ErrStatus codes_NotFound ''runtime not found''), st)
           else (Inl (ErrStatus codes_Internal (''destroy runtime: '' @ error_Error err)), st))
      | (None, st) \<Rightarrow> (Inr True, st))"

definition toProtoStatus :: "RuntimeStatus \<Rightarrow> int" where
  "toProtoStatus s =
     (if s = RuntimeStatusCreating then 1
      else if s = RuntimeStatusActive then 2
      else if s = RuntimeStatusDraining then 3
      else if s = RuntimeStatusDestroyed then 4
      else 0)"

record GetRuntimeInfoResponse =
  gri_RuntimeId :: string
  gri_Status :: int
  gri_ZoneCount :: int
  gri_PlayerCount :: int
  gri_CreatedAt :: string

definition info_of :: "(Time \<Rightarrow> string) \<Rightarrow> RuntimeRecord \<Rightarrow> GetRuntimeInfoResponse" where
  "info_of format rec =
     \<lparr>gri_RuntimeId = rr_ID rec, gri_Status = toProtoStatus (rr_Status rec),
      gri_ZoneCount = to_int32 (rr_ZoneCount rec), gri_PlayerCount = to_int32 (rr_PlayerCount rec),
      gri_CreatedAt = format (rr_CreatedAt rec)\<rparr>"

definition GetRuntimeInfo :: "(Time \<Rightarrow> string) \<Rightarrow> 's SpatialServerAPI \<Rightarrow> string \<Rightarrow> 's \<Rightarrow> error + GetRuntimeInfoResponse" where
  "GetRuntimeInfo format s runtimeId st =
     (case rst_Get (api_store s) runtimeId st of
        Inl err \<Rightarrow>
          if err = ErrNotFound then Inl (ErrStatus codes_NotFound ''runtime not found'')
          else Inl (ErrStatus codes_Internal (''get runtime: '' @ error_Error err))
      | Inr rec \<Rightarrow> Inr (info_of format rec))"

definition GetRuntimeMetrics :: "'s SpatialServerAPI \<Rightarrow> string \<Rightarrow> 's \<Rightarrow> error + string \<times> int" where
  "GetRuntimeMetrics s runtimeId st =
     (case rst_Get (api_store s) runtimeId st of
        Inl err \<Rightarrow>
          if err = ErrNotFound then Inl (ErrStatus codes_NotFound ''runtime not found'')
          else Inl (ErrStatus codes_Internal (''get runtime metrics: '' @ error_Error err))
      | Inr rec \<Rightarrow> Inr (rr_ID rec, to_int32 (rr_PlayerCount rec)))"

definition ListRuntimes :: "(Time \<Rightarrow> string) \<Rightarrow> 's SpatialServerAPI \<Rightarrow> string \<Rightarrow> int \<Rightarrow> 's
    \<Rightarrow> error + GetRuntimeInfoResponse list \<times> string" where
  "ListRuntimes format s pageToken reqPageSize st =
     (let pageSize = (if reqPageSize \<le> 0 then 50 else reqPageSize)
      in case rst_List (api_store s) pageToken pageSize st of
           Inl err \<Rightarrow> Inl (ErrStatus codes_Internal (''list runtimes: '' @ error_Error err))
         | Inr (records, nextToken) \<Rightarrow> Inr (map (info_of format) records, nextToken))"

subsection \<open>The in-memory store\<close>

type_synonym MemoryRuntimeStore = "(string, RuntimeRecord) fmap"

definition NewMemoryRuntimeStore :: MemoryRuntimeStore where
  "NewMemoryRuntimeStore = fmempty"

definition mrs_Create :: "Time \<Rightarrow> string \<Rightarrow> int \<Rightarrow> float64 \<Rightarrow> MemoryRuntimeStore \<Rightarrow> (error + RuntimeRecord) \<times> MemoryRuntimeStore" where
  "mrs_Create now i zoneCount zoneSize m =
     (if fm_has m i then (Inl ErrConflict, m)
      else
        (let r = \<lparr>rr_ID = i, rr_Status = RuntimeStatusCreating, rr_ZoneCount = zoneCount, rr_ZoneSize = zoneSize,
                   rr_ZoneIDs = [], rr_PlayerCount = 0, rr_CreatedAt = now\<rparr>;
             r = r\<lparr>rr_ZoneIDs := map (\<lambda>k. zone_name i (k + 1)) [0..zoneCount - 1]\<rparr>;
             r = r\<lparr>rr_Status := RuntimeStatusActive\<rparr>
         in (Inr r, fmupd i r m)))"

definition mrs_Get :: "string \<Rightarrow> MemoryRuntimeStore \<Rightarrow> error + RuntimeRecord" where
  "mrs_Get i m = (case fmlookup m i of None \<Rightarrow> Inl ErrNotFound | Some r \<Rightarrow> Inr r)"

definition mrs_Destroy :: "string \<Rightarrow> MemoryRuntimeStore \<Rightarrow> error option \<times> MemoryRuntimeStore" where
  "mrs_Destroy i m =
     (case fmlookup m i of
        None \<Rightarrow> (Some ErrNotFound, m)
      | Some r \<Rightarrow> (None, fmupd i (r\<lparr>rr_Status := RuntimeStatusDestroyed\<rparr>) m))"

definition mrs_List :: "order \<Rightarrow> string \<Rightarrow> int \<Rightarrow> MemoryRuntimeStore \<Rightarrow> error + RuntimeRecord list \<times> string" where
  "mrs_List ord pageToken pageSize m =
     Inr (List.map_filter (\<lambda>i. case fmlookup m i of
            None \<Rightarrow> None
          | Some r \<Rightarrow> if rr_Status r \<noteq> RuntimeStatusDestroyed then Some r else None) (ord (fmdom' m)), '''')"

definition mem_runtime_store :: "Time \<Rightarrow> order \<Rightarrow> MemoryRuntimeStore RuntimeStore" where
  "mem_runtime_store now ord =
     \<lparr>rst_Create = mrs_Create now, rst_Get = mrs_Get, rst_Destroy = mrs_Destroy, rst_List = mrs_List ord\<rparr>"

subsection \<open>The store as an interface\<close>

locale runtime_store =
  fixes S :: "'s RuntimeStore"
    and recs :: "'s \<Rightarrow> string \<Rightarrow> RuntimeRecord option"
  assumes create_new: "recs s i = None \<Longrightarrow> \<exists>r s'. rst_Create S i zc zs s = (Inr r, s') \<and> rr_ID r = i
        \<and> rr_ZoneCount r = zc \<and> rr_Status r = RuntimeStatusActive \<and> recs s' = (recs s)(i \<mapsto> r)"
    and create_dup: "recs s i = Some r \<Longrightarrow> rst_Create S i zc zs s = (Inl ErrConflict, s)"
    and get: "rst_Get S i s = (case recs s i of None \<Rightarrow> Inl ErrNotFound | Some r \<Rightarrow> Inr r)"
    and destroy_some: "recs s i = Some r \<Longrightarrow> \<exists>s'. rst_Destroy S i s = (None, s')
        \<and> recs s' = (recs s)(i \<mapsto> r\<lparr>rr_Status := RuntimeStatusDestroyed\<rparr>)"
    and destroy_none: "recs s i = None \<Longrightarrow> rst_Destroy S i s = (Some ErrNotFound, s)"
    and listing: "\<exists>rs tok. rst_List S p n s = Inr (rs, tok)
        \<and> set rs = {r. \<exists>i. recs s i = Some r \<and> rr_Status r \<noteq> RuntimeStatusDestroyed}"

lemma mem_listing:
  assumes "is_order ord"
  shows "\<exists>rs tok. mrs_List ord p n m = Inr (rs, tok)
        \<and> set rs = {r. \<exists>i. fmlookup m i = Some r \<and> rr_Status r \<noteq> RuntimeStatusDestroyed}"
proof -
  have "(\<exists>i \<in> set (ord (fmdom' m)). (case fmlookup m i of None \<Rightarrow> None
        | Some r \<Rightarrow> if rr_Status r \<noteq> RuntimeStatusDestroyed then Some r else None) = Some r)
      \<longleftrightarrow> (\<exists>i. fmlookup m i = Some r \<and> rr_Status r \<noteq> RuntimeStatusDestroyed)" for r
    using assms by (intro iffI; elim bexE exE; intro exI bexI)
      (auto simp: fmlookup_dom'_iff split: option.splits if_splits)
  then show ?thesis by (simp add: mrs_List_def set_map_filter)
qed

lemma mem_runtime_store_ok:
  assumes "is_order ord"
  shows "runtime_store (mem_runtime_store now ord) fmlookup"
proof
  fix s p n
  show "\<exists>rs tok. rst_List (mem_runtime_store now ord) p n s = Inr (rs, tok)
        \<and> set rs = {r. \<exists>i. fmlookup s i = Some r \<and> rr_Status r \<noteq> RuntimeStatusDestroyed}"
    using mem_listing [OF assms] by (simp add: mem_runtime_store_def)
qed (auto simp: mem_runtime_store_def mrs_Create_def mrs_Get_def mrs_Destroy_def fm_has_def Let_def)

interpretation mrs: runtime_store "mem_runtime_store now sorted_list_of_set" fmlookup for now
  by (rule mem_runtime_store_ok [OF is_order_sorted])


subsection \<open>The service implements the life of a runtime\<close>

datatype rt_state = Absent | Live | Gone

datatype api_op = ApiCreate CreateRuntimeRequest | ApiDestroy string

fun rt_next :: "api_op \<Rightarrow> (string \<Rightarrow> rt_state) \<Rightarrow> (string \<Rightarrow> rt_state)" where
  \<comment> \<open>the abstract service: an id is created once and, once destroyed, never comes back\<close>
  "rt_next (ApiCreate req) w =
     (if crq_RuntimeId req \<noteq> '''' \<and> w (crq_RuntimeId req) = Absent then w(crq_RuntimeId req := Live) else w)"
| "rt_next (ApiDestroy i) w = (if w i = Absent then w else w(i := Gone))"

fun api_step :: "'s SpatialServerAPI \<Rightarrow> api_op \<Rightarrow> 's \<Rightarrow> 's" where
  "api_step s (ApiCreate req) st = snd (CreateRuntime s req st)"
| "api_step s (ApiDestroy i) st = snd (DestroyRuntime s i st)"

definition rt_abs :: "(string \<Rightarrow> RuntimeRecord option) \<Rightarrow> string \<Rightarrow> rt_state" where
  "rt_abs rs i = (case rs i of None \<Rightarrow> Absent | Some r \<Rightarrow> if rr_Status r = RuntimeStatusDestroyed then Gone else Live)"

definition own_ids :: "(string \<Rightarrow> RuntimeRecord option) \<Rightarrow> bool" where
  "own_ids rs \<longleftrightarrow> (\<forall>i r. rs i = Some r \<longrightarrow> rr_ID r = i \<and> (rr_Status r = RuntimeStatusActive \<or> rr_Status r = RuntimeStatusDestroyed))"

context runtime_store
begin

lemma step_abs:
  assumes "api_store s = S" "own_ids (recs st)"
  shows "rt_abs (recs (api_step s op st)) = rt_next op (rt_abs (recs st)) \<and> own_ids (recs (api_step s op st))"
proof (cases op)
  case (ApiCreate req)
  let ?i = "crq_RuntimeId req"
  let ?zc = "if crq_ZoneCount req \<le> 0 then to_int32 (api_defaultZones s) else crq_ZoneCount req"
  let ?zs = "if crq_ZoneSize req \<le> 0 then api_defaultSize s else crq_ZoneSize req"
  show ?thesis
  proof (cases "recs st ?i")
    case None
    obtain r st' where "rst_Create S ?i ?zc ?zs st = (Inr r, st')" "rr_ID r = ?i" "rr_Status r = RuntimeStatusActive"
      "recs st' = (recs st)(?i \<mapsto> r)" using create_new [OF None, of ?zc ?zs] by blast
    with None ApiCreate assms show ?thesis
      by (auto simp: CreateRuntime_def Let_def rt_abs_def own_ids_def)
  next
    case (Some r)
    from create_dup [OF this, of ?zc ?zs] Some ApiCreate assms show ?thesis
      by (auto simp: CreateRuntime_def Let_def rt_abs_def)
  qed
next
  case (ApiDestroy i)
  show ?thesis
  proof (cases "recs st i")
    case None
    from destroy_none [OF this] None ApiDestroy assms show ?thesis by (auto simp: DestroyRuntime_def rt_abs_def)
  next
    case (Some r)
    from destroy_some [OF this] obtain st' where "rst_Destroy S i st = (None, st')"
      "recs st' = (recs st)(i \<mapsto> r\<lparr>rr_Status := RuntimeStatusDestroyed\<rparr>)" by blast
    with Some ApiDestroy assms show ?thesis by (auto simp: DestroyRuntime_def rt_abs_def own_ids_def)
  qed
qed

lemma run_abs:
  assumes "api_store s = S" "own_ids (recs st)"
  shows "rt_abs (recs (fold (api_step s) ops st)) = fold rt_next ops (rt_abs (recs st))
    \<and> own_ids (recs (fold (api_step s) ops st))"
  using assms(2)
proof (induction ops arbitrary: st)
  case (Cons op ops)
  from Cons.IH [of "api_step s op st"] step_abs [OF assms(1) Cons.prems, of op] show ?case by simp
qed simp

lemma info_abs:
  assumes "api_store s = S" "own_ids (recs st)"
  shows "GetRuntimeInfo format s i st = (case rt_abs (recs st) i of
      Absent \<Rightarrow> Inl (ErrStatus codes_NotFound ''runtime not found'')
    | Live \<Rightarrow> Inr ((info_of format (the (recs st i)))\<lparr>gri_RuntimeId := i, gri_Status := 2\<rparr>)
    | Gone \<Rightarrow> Inr ((info_of format (the (recs st i)))\<lparr>gri_RuntimeId := i, gri_Status := 4\<rparr>))"
proof (cases "recs st i")
  case (Some r)
  then have "rr_ID r = i" "rr_Status r = RuntimeStatusActive \<or> rr_Status r = RuntimeStatusDestroyed"
    using assms(2) by (auto simp: own_ids_def)
  with Some assms(1) show ?thesis
    by (auto simp: GetRuntimeInfo_def get rt_abs_def info_of_def toProtoStatus_def)
qed (simp add: assms(1) GetRuntimeInfo_def get rt_abs_def)

lemma listed_abs:
  assumes "api_store s = S" "own_ids (recs st)"
  shows "\<exists>infos tok. ListRuntimes format s p n st = Inr (infos, tok)
    \<and> set (map gri_RuntimeId infos) = {i. rt_abs (recs st) i = Live}"
proof -
  let ?n = "if n \<le> 0 then 50 else n"
  obtain rs tok where rs: "rst_List S p ?n st = Inr (rs, tok)"
    "set rs = {r. \<exists>i. recs st i = Some r \<and> rr_Status r \<noteq> RuntimeStatusDestroyed}"
    using listing by blast
  have "gri_RuntimeId (info_of format r) = rr_ID r" for r by (simp add: info_of_def)
  then have "set (map gri_RuntimeId (map (info_of format) rs)) = image rr_ID (set rs)" by (simp add: image_image)
  also have "\<dots> = {i. rt_abs (recs st) i = Live}"
    unfolding rs(2) using assms(2) by (auto simp: rt_abs_def own_ids_def image_iff split: option.splits if_splits)
  finally show ?thesis using rs(1) assms(1) by (simp add: ListRuntimes_def Let_def image_image)
qed

end

lemma own_ids_empty [simp]: "own_ids (fmlookup NewMemoryRuntimeStore)"
  by (simp add: own_ids_def NewMemoryRuntimeStore_def)

lemma rt_abs_empty [simp]: "rt_abs (fmlookup NewMemoryRuntimeStore) = (\<lambda>_. Absent)"
  by (auto simp: rt_abs_def NewMemoryRuntimeStore_def)


definition mem_api :: "string \<Rightarrow> Time \<Rightarrow> order \<Rightarrow> MemoryRuntimeStore SpatialServerAPI" where
  "mem_api gw now ord = NewSpatialServerAPI (mem_runtime_store now ord) gw"

fun api_run :: "string \<Rightarrow> (Time \<times> order \<times> api_op) list \<Rightarrow> MemoryRuntimeStore \<Rightarrow> MemoryRuntimeStore" where
  \<comment> \<open>calls with the time and the map order each of them meets\<close>
  "api_run gw [] m = m"
| "api_run gw ((now, ord, op) # xs) m = api_run gw xs (api_step (mem_api gw now ord) op m)"

lemma api_store_mem [simp]: "api_store (mem_api gw now ord) = mem_runtime_store now ord"
  by (simp add: mem_api_def NewSpatialServerAPI_def)

lemma api_run_abs:
  "\<forall>(now, ord, op) \<in> set xs. is_order ord \<Longrightarrow> own_ids (fmlookup m) \<Longrightarrow>
     rt_abs (fmlookup (api_run gw xs m)) = fold (rt_next \<circ> snd \<circ> snd) xs (rt_abs (fmlookup m))
     \<and> own_ids (fmlookup (api_run gw xs m))"
proof (induction gw xs m rule: api_run.induct)
  case (2 gw now ord op xs m)
  have ord: "is_order ord" using "2.prems" by simp
  have "rt_abs (fmlookup (api_step (mem_api gw now ord) op m)) = rt_next op (rt_abs (fmlookup m))
      \<and> own_ids (fmlookup (api_step (mem_api gw now ord) op m))"
    by (rule runtime_store.step_abs [OF mem_runtime_store_ok [OF ord] api_store_mem "2.prems"(2)])
  with "2.IH" "2.prems"(1) show ?case by simp
qed simp

text \<open>
  C31. The API implements the life of a runtime: after any calls to create and destroy, an id is
  absent, live or gone as in the abstract service, where it becomes live by its first creation, gone
  by a destruction, and never live again. An absent id is reported as not found, a live one as active
  and a gone one as destroyed, and the listing names exactly the live ones, whatever page is asked for.
\<close>

theorem runtime_api_refines:
  fixes gw xs
  assumes "\<forall>(now, ord, op) \<in> set xs. is_order ord" and "is_order ord"
  defines "m \<equiv> api_run gw xs NewMemoryRuntimeStore" and "w \<equiv> fold (rt_next \<circ> snd \<circ> snd) xs (\<lambda>_. Absent)"
  shows "(case w i of
        Absent \<Rightarrow> GetRuntimeInfo format (mem_api gw now ord) i m = Inl (ErrStatus codes_NotFound ''runtime not found'')
      | Live \<Rightarrow> \<exists>r. GetRuntimeInfo format (mem_api gw now ord) i m = Inr r \<and> gri_RuntimeId r = i \<and> gri_Status r = 2
      | Gone \<Rightarrow> \<exists>r. GetRuntimeInfo format (mem_api gw now ord) i m = Inr r \<and> gri_RuntimeId r = i \<and> gri_Status r = 4)
    \<and> (\<exists>infos tok. ListRuntimes format (mem_api gw now ord) p n m = Inr (infos, tok)
         \<and> set (map gri_RuntimeId infos) = {j. w j = Live})"
proof -
  have a: "rt_abs (fmlookup m) = w" "own_ids (fmlookup m)"
    using api_run_abs [OF assms(1), of NewMemoryRuntimeStore gw] by (simp_all add: m_def w_def)
  note st = mem_runtime_store_ok [OF assms(2), of now]
  from runtime_store.info_abs [OF st api_store_mem [of gw now ord] a(2), where format = format and i = i]
    runtime_store.listed_abs [OF st api_store_mem [of gw now ord] a(2), where format = format and p = p and n = n]
  show ?thesis unfolding a(1) by (auto split: rt_state.split)
qed

theorem runtime_api_refines_witness:
  "\<exists>infos tok. ListRuntimes (\<lambda>_. '''') (mem_api ''gw'' 9 sorted_list_of_set) '''' 0
      (api_run ''gw'' [(1, sorted_list_of_set, ApiCreate \<lparr>crq_RuntimeId = ''a'', crq_ZoneCount = 2, crq_ZoneSize = 0\<rparr>),
                       (2, sorted_list_of_set, ApiCreate \<lparr>crq_RuntimeId = ''b'', crq_ZoneCount = 0, crq_ZoneSize = 0\<rparr>),
                       (3, sorted_list_of_set, ApiDestroy ''a'')] NewMemoryRuntimeStore) = Inr (infos, tok)
    \<and> set (map gri_RuntimeId infos) = {''b''}"
proof -
  let ?xs = "[(1, sorted_list_of_set, ApiCreate \<lparr>crq_RuntimeId = ''a'', crq_ZoneCount = 2, crq_ZoneSize = 0\<rparr>),
                       (2, sorted_list_of_set, ApiCreate \<lparr>crq_RuntimeId = ''b'', crq_ZoneCount = 0, crq_ZoneSize = 0\<rparr>),
                       (3::Time, sorted_list_of_set, ApiDestroy ''a'')] :: (Time \<times> order \<times> api_op) list"
  have live: "{j. fold (rt_next \<circ> snd \<circ> snd) ?xs (\<lambda>_. Absent) j = Live} = {''b''}" by auto
  have "\<forall>(now, ord, op) \<in> set ?xs. is_order ord" by (simp add: is_order_sorted)
  from conjunct2 [OF runtime_api_refines [OF this is_order_sorted]] show ?thesis unfolding live .
qed

subsection \<open>Zone names\<close>

lemma zone_name_inj: "zone_name i j = zone_name i' j' \<longleftrightarrow> i = i' \<and> j = j'"
proof
  assume "zone_name i j = zone_name i' j'"
  then have "(i @ ''-'') @ CHR ''z'' # itoa j = (i' @ ''-'') @ CHR ''z'' # itoa j'" by (simp add: zone_name_def)
  from append_sep_inj [OF this itoa_chars(2) itoa_chars(2)] show "i = i' \<and> j = j'" by simp
qed simp

definition named_zones :: "RuntimeRecord \<Rightarrow> bool" where
  "named_zones r \<longleftrightarrow> rr_ZoneIDs r = map (\<lambda>k. zone_name (rr_ID r) (k + 1)) [0..rr_ZoneCount r - 1]"

lemma api_run_zones:
  "(\<forall>i r. fmlookup m i = Some r \<longrightarrow> rr_ID r = i \<and> named_zones r) \<Longrightarrow> fmlookup (api_run gw xs m) i = Some r
     \<Longrightarrow> rr_ID r = i \<and> named_zones r"
proof (induction gw xs m rule: api_run.induct)
  case (2 gw now ord op xs m)
  have "\<forall>i r. fmlookup (api_step (mem_api gw now ord) op m) i = Some r \<longrightarrow> rr_ID r = i \<and> named_zones r"
    using "2.prems"(1)
    by (cases op) (auto simp: CreateRuntime_def DestroyRuntime_def mem_runtime_store_def mrs_Create_def mrs_Destroy_def
        named_zones_def Let_def split: option.splits if_splits)
  with "2.IH" "2.prems"(2) show ?case by simp
qed simp

text \<open>
  Zone ids are unique across runtimes: in every store the API can reach, the zone ids of one
  runtime are distinct and no two runtimes share one; and the zones a successful creation reports
  are the ones stored, as many as asked for, or one if the request gives no positive number.
\<close>

theorem runtime_zone_ids_unique:
  fixes gw xs
  defines "m \<equiv> api_run gw xs NewMemoryRuntimeStore"
  assumes "fmlookup m i = Some r" and "fmlookup m i' = Some r'"
  shows "distinct (rr_ZoneIDs r) \<and> (i \<noteq> i' \<longrightarrow> set (rr_ZoneIDs r) \<inter> set (rr_ZoneIDs r') = {})
    \<and> (fst (CreateRuntime (mem_api gw now ord) req m) = Inr resp \<longrightarrow>
         (\<exists>q. fmlookup (snd (CreateRuntime (mem_api gw now ord) req m)) (crq_RuntimeId req) = Some q
            \<and> crs_Zones resp = rr_ZoneIDs q
            \<and> length (crs_Zones resp) = nat (if crq_ZoneCount req \<le> 0 then 1 else crq_ZoneCount req)))"
proof -
  have z: "rr_ID r = i \<and> named_zones r" "rr_ID r' = i' \<and> named_zones r'"
    using api_run_zones [of NewMemoryRuntimeStore gw xs] assms(2,3) by (simp_all add: m_def NewMemoryRuntimeStore_def)
  then have "distinct (rr_ZoneIDs r)" "i \<noteq> i' \<longrightarrow> set (rr_ZoneIDs r) \<inter> set (rr_ZoneIDs r') = {}"
    by (auto simp: named_zones_def distinct_map inj_on_def zone_name_inj)
  moreover have "fst (CreateRuntime (mem_api gw now ord) req m) = Inr resp \<longrightarrow>
         (\<exists>q. fmlookup (snd (CreateRuntime (mem_api gw now ord) req m)) (crq_RuntimeId req) = Some q
            \<and> crs_Zones resp = rr_ZoneIDs q
            \<and> length (crs_Zones resp) = nat (if crq_ZoneCount req \<le> 0 then 1 else crq_ZoneCount req))"
    by (auto simp: CreateRuntime_def mem_api_def NewSpatialServerAPI_def mem_runtime_store_def mrs_Create_def Let_def to_int32_def)
  ultimately show ?thesis by blast
qed

definition demo_store :: MemoryRuntimeStore where
  "demo_store = api_run ''gw'' [(1, sorted_list_of_set, ApiCreate \<lparr>crq_RuntimeId = ''a'', crq_ZoneCount = 2, crq_ZoneSize = 0\<rparr>),
     (2, sorted_list_of_set, ApiCreate \<lparr>crq_RuntimeId = ''b'', crq_ZoneCount = 0, crq_ZoneSize = 0\<rparr>)] NewMemoryRuntimeStore"

theorem runtime_zone_ids_unique_witness:
  "\<exists>r r'. fmlookup demo_store ''a'' = Some r \<and> fmlookup demo_store ''b'' = Some r'
    \<and> set (rr_ZoneIDs r) \<inter> set (rr_ZoneIDs r') = {} \<and> length (rr_ZoneIDs r) = 2"
proof -
  have "\<exists>r r'. fmlookup demo_store ''a'' = Some r \<and> fmlookup demo_store ''b'' = Some r' \<and> length (rr_ZoneIDs r) = 2"
    by (simp add: demo_store_def CreateRuntime_def mem_api_def NewSpatialServerAPI_def mem_runtime_store_def
        mrs_Create_def Let_def NewMemoryRuntimeStore_def)
  then obtain r r' where r: "fmlookup demo_store ''a'' = Some r" "fmlookup demo_store ''b'' = Some r'"
    "length (rr_ZoneIDs r) = 2" by blast
  from runtime_zone_ids_unique [OF r(1,2) [unfolded demo_store_def]] have "set (rr_ZoneIDs r) \<inter> set (rr_ZoneIDs r') = {}"
    by simp
  with r show ?thesis by blast
qed

end
