(* ===== verification/Gateway_Sessions.thy ===== *)
theory Gateway_Sessions
  imports Types Base64
begin

section \<open>Session tokens: \<open>gateway/token.go\<close> and \<open>gateway/store.go\<close>\<close>

text \<open>
  Session records kept in Redis under a random token. The interface \<open>SessionStore\<close> has one
  implementation, over a Redis client. The client and the JSON encoding are parameters: a client is
  the record of the commands the code calls, over the state \<open>'r\<close> of the server, and
  \<open>redis_law\<close> states what the commands are documented to do; the random bytes are an argument.
\<close>

record SessionRecord =
  sr_PlayerID :: string
  sr_RuntimeID :: string
  sr_ZoneID :: string
  sr_GameServerAddr :: string
  sr_CreatedAt :: Time
  sr_LastActivity :: Time
  sr_SourceIP :: string

definition GenerateToken :: "error + bytes \<Rightarrow> error + string" where
  \<comment> \<open>the argument: what reading 32 random bytes returns\<close>
  "GenerateToken random =
     (case random of
        Inl err \<Rightarrow> Inl (Errorf ''generate token: '' err '''')
      | Inr b \<Rightarrow> Inr (b64_encode b))"

record 'r redis =
  rd_Set :: "string \<Rightarrow> bytes \<Rightarrow> Duration \<Rightarrow> 'r \<Rightarrow> error option \<times> 'r"
  rd_Get :: "string \<Rightarrow> 'r \<Rightarrow> error + bytes option"     \<comment> \<open>\<open>None\<close>: the error \<open>redis.Nil\<close>\<close>
  rd_Expire :: "string \<Rightarrow> Duration \<Rightarrow> 'r \<Rightarrow> error option \<times> 'r"
  rd_Del :: "string \<Rightarrow> 'r \<Rightarrow> error option \<times> 'r"

record json_codec =
  js_Marshal :: "SessionRecord \<Rightarrow> error + bytes"
  js_Unmarshal :: "bytes \<Rightarrow> error + SessionRecord"

record 'r RedisSessionStore =
  rss_client :: "'r redis"
  rss_ttl :: Duration

definition NewRedisSessionStore :: "'r redis \<Rightarrow> Duration \<Rightarrow> 'r RedisSessionStore" where
  "NewRedisSessionStore client ttl = \<lparr>rss_client = client, rss_ttl = ttl\<rparr>"

definition session_key :: "string \<Rightarrow> string" where
  "session_key token = ''session:'' @ token"

definition rss_Issue :: "json_codec \<Rightarrow> 'r RedisSessionStore \<Rightarrow> error + bytes \<Rightarrow> Time \<Rightarrow> SessionRecord \<Rightarrow> 'r \<Rightarrow> (error + string) \<times> 'r" where
  "rss_Issue js s random now rec r =
     (case GenerateToken random of
        Inl err \<Rightarrow> (Inl err, r)
      | Inr token \<Rightarrow>
          let rec = (if sr_CreatedAt rec = zero_time then rec\<lparr>sr_CreatedAt := now\<rparr> else rec);
              rec = rec\<lparr>sr_LastActivity := sr_CreatedAt rec\<rparr>
          in (case js_Marshal js rec of
                Inl err \<Rightarrow> (Inl (Errorf ''marshal session record: '' err ''''), r)
              | Inr data \<Rightarrow>
                  (case rd_Set (rss_client s) (session_key token) data (rss_ttl s) r of
                     (Some err, r) \<Rightarrow> (Inl (Errorf ''redis set session: '' err ''''), r)
                   | (None, r) \<Rightarrow> (Inr token, r))))"

definition rss_Touch :: "'r RedisSessionStore \<Rightarrow> string \<Rightarrow> 'r \<Rightarrow> error option \<times> 'r" where
  "rss_Touch s token r =
     (case rd_Expire (rss_client s) (session_key token) (rss_ttl s) r of
        (Some err, r) \<Rightarrow> (Some (Errorf ''redis expire session: '' err ''''), r)
      | (None, r) \<Rightarrow> (None, r))"

definition rss_Lookup :: "json_codec \<Rightarrow> 'r RedisSessionStore \<Rightarrow> string \<Rightarrow> 'r \<Rightarrow> (error + SessionRecord option) \<times> 'r" where
  "rss_Lookup js s token r =
     (case rd_Get (rss_client s) (session_key token) r of
        Inl err \<Rightarrow> (Inl (Errorf ''redis get session: '' err ''''), r)
      | Inr None \<Rightarrow> (Inr None, r)
      | Inr (Some raw) \<Rightarrow>
          (case js_Unmarshal js raw of
             Inl err \<Rightarrow> (Inl (Errorf ''unmarshal session record: '' err ''''), r)
           | Inr rec \<Rightarrow>
               (case rss_Touch s token r of
                  (Some err, r) \<Rightarrow> (Inl err, r)
                | (None, r) \<Rightarrow> (Inr (Some rec), r))))"

definition rss_Revoke :: "'r RedisSessionStore \<Rightarrow> string \<Rightarrow> 'r \<Rightarrow> error option \<times> 'r" where
  "rss_Revoke s token r =
     (case rd_Del (rss_client s) (session_key token) r of
        (Some err, r) \<Rightarrow> (Some (Errorf ''redis del session: '' err ''''), r)
      | (None, r) \<Rightarrow> (None, r))"

subsection \<open>What Redis and JSON promise\<close>

type_synonym redis_view = "string \<Rightarrow> (bytes \<times> Time) option"   \<comment> \<open>the keys with their values and when they expire\<close>

definition live_value :: "Time \<Rightarrow> (bytes \<times> Time) option \<Rightarrow> bytes option" where
  "live_value now v = (case v of Some (d, t) \<Rightarrow> if now < t then Some d else None | None \<Rightarrow> None)"

definition redis_law :: "'r redis \<Rightarrow> ('r \<Rightarrow> redis_view) \<Rightarrow> ('r \<Rightarrow> Time) \<Rightarrow> bool" where
  "redis_law rd view now \<longleftrightarrow>
     (\<forall>k v ttl r r'. rd_Set rd k v ttl r = (None, r') \<longrightarrow> view r' = (view r)(k \<mapsto> (v, now r + ttl)) \<and> now r' = now r)
   \<and> (\<forall>k r x. rd_Get rd k r = Inr x \<longrightarrow> x = live_value (now r) (view r k))
   \<and> (\<forall>k ttl r r'. rd_Expire rd k ttl r = (None, r') \<longrightarrow> now r' = now r \<and>
        view r' = (case live_value (now r) (view r k) of Some d \<Rightarrow> (view r)(k \<mapsto> (d, now r + ttl)) | None \<Rightarrow> view r))
   \<and> (\<forall>k r r'. rd_Del rd k r = (None, r') \<longrightarrow> view r' = (view r)(k := None) \<and> now r' = now r)"

definition json_law :: "json_codec \<Rightarrow> bool" where
  "json_law js \<longleftrightarrow> (\<forall>rec d. js_Marshal js rec = Inr d \<longrightarrow> js_Unmarshal js d = Inr rec)"

lemma session_key_inj [simp]: "session_key a = session_key b \<longleftrightarrow> a = b"
  by (simp add: session_key_def)

definition stored_as :: "SessionRecord \<Rightarrow> Time \<Rightarrow> SessionRecord" where
  "stored_as rec now =
     (let created = (if sr_CreatedAt rec = zero_time then now else sr_CreatedAt rec)
      in rec\<lparr>sr_CreatedAt := created, sr_LastActivity := created\<rparr>)"

lemma rss_Issue_view:
  assumes "redis_law (rss_client s) view now" "rss_Issue js s random t rec r = (Inr token, r1)"
  shows "\<exists>b d. random = Inr b \<and> token = b64_encode b \<and> js_Marshal js (stored_as rec t) = Inr d
    \<and> view r1 = (view r)(session_key token \<mapsto> (d, now r + rss_ttl s)) \<and> now r1 = now r"
proof -
  let ?rec = "if sr_CreatedAt rec = zero_time then rec\<lparr>sr_CreatedAt := t\<rparr> else rec"
  have rec: "?rec\<lparr>sr_LastActivity := sr_CreatedAt ?rec\<rparr> = stored_as rec t" by (simp add: stored_as_def Let_def)
  obtain b where b: "random = Inr b" using assms(2) by (cases random) (simp_all add: rss_Issue_def GenerateToken_def)
  obtain d where d: "js_Marshal js (stored_as rec t) = Inr d"
    using assms(2) b unfolding rss_Issue_def GenerateToken_def Let_def rec by (cases "js_Marshal js (stored_as rec t)") simp_all
  obtain e r' where set: "rd_Set (rss_client s) (session_key (b64_encode b)) d (rss_ttl s) r = (e, r')"
    by (cases "rd_Set (rss_client s) (session_key (b64_encode b)) d (rss_ttl s) r")
  have "e = None" "token = b64_encode b" "r1 = r'"
    using assms(2) b d set unfolding rss_Issue_def GenerateToken_def Let_def rec by (simp_all split: option.splits)
  moreover from this set have "view r' = (view r)(session_key (b64_encode b) \<mapsto> (d, now r + rss_ttl s)) \<and> now r' = now r"
    using assms(1) unfolding redis_law_def by blast
  ultimately show ?thesis using b d by blast
qed

lemma rss_Lookup_view:
  assumes "redis_law (rss_client s) view now" "rss_Lookup js s token r = (Inr x, r')"
  shows "case live_value (now r) (view r (session_key token)) of
      None \<Rightarrow> x = None \<and> r' = r
    | Some d \<Rightarrow> (\<exists>rec. x = Some rec \<and> js_Unmarshal js d = Inr rec) \<and> now r' = now r
        \<and> view r' = (view r)(session_key token \<mapsto> (d, now r + rss_ttl s))"
proof -
  obtain y where g: "rd_Get (rss_client s) (session_key token) r = Inr y"
    using assms(2) by (cases "rd_Get (rss_client s) (session_key token) r") (simp_all add: rss_Lookup_def)
  then have y: "live_value (now r) (view r (session_key token)) = y" using assms(1) unfolding redis_law_def by blast
  show ?thesis
  proof (cases y)
    case None
    then show ?thesis using assms(2) g y by (simp add: rss_Lookup_def)
  next
    case (Some d)
    then obtain rec where rec: "js_Unmarshal js d = Inr rec" "x = Some rec" "rd_Expire (rss_client s) (session_key token) (rss_ttl s) r = (None, r')"
      using assms(2) g by (auto simp: rss_Lookup_def rss_Touch_def split: sum.splits prod.splits option.splits)
    then have "now r' = now r" "view r' = (case live_value (now r) (view r (session_key token)) of
        Some d \<Rightarrow> (view r)(session_key token \<mapsto> (d, now r + rss_ttl s)) | None \<Rightarrow> view r)"
      using assms(1) unfolding redis_law_def by blast+
    with rec Some y show ?thesis by simp
  qed
qed


definition demo_redis :: "(redis_view \<times> Time) redis" where
  "demo_redis = \<lparr>rd_Set = (\<lambda>k v ttl (m, t). (None, (m(k \<mapsto> (v, t + ttl)), t))),
     rd_Get = (\<lambda>k (m, t). Inr (live_value t (m k))),
     rd_Expire = (\<lambda>k ttl (m, t). (None, (case live_value t (m k) of Some d \<Rightarrow> m(k \<mapsto> (d, t + ttl)) | None \<Rightarrow> m), t)),
     rd_Del = (\<lambda>k (m, t). (None, (m(k := None), t)))\<rparr>"

definition demo_record :: SessionRecord where
  "demo_record = \<lparr>sr_PlayerID = ''p'', sr_RuntimeID = ''r'', sr_ZoneID = ''z'', sr_GameServerAddr = ''a'',
     sr_CreatedAt = 0, sr_LastActivity = 0, sr_SourceIP = ''''\<rparr>"

definition demo_json :: json_codec where
  "demo_json = \<lparr>js_Marshal = (\<lambda>rec. if rec = stored_as demo_record 5 then Inr [1] else Inl (ErrText ''unsupported'')),
     js_Unmarshal = (\<lambda>d. Inr (stored_as demo_record 5))\<rparr>"

lemma demo_redis_law: "redis_law demo_redis fst snd"
  by (auto simp: redis_law_def demo_redis_def split: option.splits)

lemma demo_json_law: "json_law demo_json"
  by (simp add: json_law_def demo_json_def)


end
