(* ===== verification/Validation.thy ===== *)
theory Validation
  imports Types "HOL-Library.Multiset"
begin

section \<open>The chaos validation framework: \<open>internal/validation\<close>\<close>

text \<open>
  Scenarios, the runner that sets a stack up, injects a fault, waits for recovery and judges the
  evidence, the reports, the waiter, the validators, the observers and the injectors. The world the
  scenario acts on is the type \<open>'w\<close>; the interfaces are records of their methods over it. A call
  that may panic returns an \<open>outcome\<close>. \<open>Run\<close> is the sequence of its stages; each does nothing once
  the function has returned or a panic is under way, and the deferred calls come last. The clock is a
  function of the world; the printing of a duration is the parameter \<open>show\<close>.
\<close>

subsection \<open>Scenarios: \<open>scenario.go\<close>\<close>

type_synonym ResourceID = string

abbreviation (input) ResourcePostgres :: ResourceID where "ResourcePostgres \<equiv> ''postgres''"
abbreviation (input) ResourceRedis :: ResourceID where "ResourceRedis \<equiv> ''redis''"
abbreviation (input) ResourceRoomService :: ResourceID where "ResourceRoomService \<equiv> ''room-service''"
abbreviation (input) ResourceGateway :: ResourceID where "ResourceGateway \<equiv> ''gateway''"

record 'w Infrastructure =
  inf_Endpoint :: "ResourceID \<Rightarrow> 'w \<Rightarrow> error + string"
  inf_Processes :: "ResourceID \<Rightarrow> 'w \<Rightarrow> error + nat list"
  inf_Database :: "ResourceID \<Rightarrow> 'w \<Rightarrow> error + string"
  inf_RuntimeNodes :: "'w \<Rightarrow> int"
  inf_DialServices :: "ResourceID list \<Rightarrow> 'w \<Rightarrow> error option \<times> 'w"
  inf_Close :: "'w \<Rightarrow> error option \<times> 'w"

record Requirements =
  rq_MinRuntimeNodes :: int
  rq_ComposeRequired :: bool
  rq_PostgreSQL :: bool
  rq_Redis :: bool
  rq_NetworkFaults :: bool

record ScenarioMetadata =
  md_ID :: string
  md_Name :: string
  md_Description :: string
  md_Version :: int
  md_Tags :: "string list"
  md_Severity :: string
  md_Mode :: string
  md_Requirements :: Requirements
  md_Timeout :: Duration
  md_ExpectedBehavior :: string

abbreviation (input) AcceptFail :: string where "AcceptFail \<equiv> ''fail''"

record AcceptanceCriterion =
  ac_Threshold :: Duration
  ac_Policy :: string

record AcceptanceCriteria =
  acs_RecoveryDuration :: AcceptanceCriterion
  acs_OwnershipConvergence :: AcceptanceCriterion
  acs_TickP95 :: AcceptanceCriterion
  acs_ReconnectTime :: AcceptanceCriterion
  acs_QueueDrainTime :: AcceptanceCriterion

definition CheckRequirements :: "'w Infrastructure \<Rightarrow> Requirements \<Rightarrow> 'w \<Rightarrow> string option" where
  \<comment> \<open>\<open>None\<close>: the requirements are met; otherwise the reason why not\<close>
  "CheckRequirements infra req w =
     (case (if rq_PostgreSQL req then inf_Database infra ResourcePostgres w else Inr '''') of
        Inl err \<Rightarrow> Some (''postgres: '' @ error_Error err)
      | Inr _ \<Rightarrow>
          (case (if rq_Redis req then inf_Endpoint infra ResourceRedis w else Inr '''') of
             Inl err \<Rightarrow> Some (''redis: '' @ error_Error err)
           | Inr _ \<Rightarrow>
               if 0 < rq_MinRuntimeNodes req \<and> inf_RuntimeNodes infra w < rq_MinRuntimeNodes req
               then Some (''need '' @ itoa (rq_MinRuntimeNodes req) @ '' runtime nodes, have '' @ itoa (inf_RuntimeNodes infra w))
               else if rq_ComposeRequired req then Some ''compose mode not available in this environment''
               else if rq_NetworkFaults req then Some ''network faults require compose mode''
               else None))"

abbreviation (input) EvKeyEntityCount :: string where "EvKeyEntityCount \<equiv> ''entity-count''"
abbreviation (input) EvKeyGhostCount :: string where "EvKeyGhostCount \<equiv> ''ghost-count''"
abbreviation (input) EvKeyCmdDrops :: string where "EvKeyCmdDrops \<equiv> ''cmd-drops''"
abbreviation (input) EvKeyZoneOwnerCount :: string where "EvKeyZoneOwnerCount \<equiv> ''zone-owner-count''"
abbreviation (input) EvKeyDisconnectedCount :: string where "EvKeyDisconnectedCount \<equiv> ''disconnected-count''"
abbreviation (input) EvKeyRuntimeNodes :: string where "EvKeyRuntimeNodes \<equiv> ''runtime-nodes''"
abbreviation (input) EvKeyRoomServiceAddr :: string where "EvKeyRoomServiceAddr \<equiv> ''room-service-endpoint''"
abbreviation (input) EvKeyGatewayAddr :: string where "EvKeyGatewayAddr \<equiv> ''gateway-endpoint''"

abbreviation (input) PhaseBaseline :: string where "PhaseBaseline \<equiv> ''baseline''"
abbreviation (input) PhasePostRecovery :: string where "PhasePostRecovery \<equiv> ''post_recovery''"

record Evidence =
  evd_Timestamp :: Time
  evd_Phase :: string
  evd_Source :: string
  evd_Kind :: string
  evd_Key :: string
  evd_Value :: string

definition EvidenceMap :: "Evidence list \<Rightarrow> (string, Evidence) fmap" where
  "EvidenceMap evidence = fold (\<lambda>e. fmupd (evd_Key e) e) evidence fmempty"

abbreviation (input) PolicyRequired :: string where "PolicyRequired \<equiv> ''required''"
abbreviation (input) PolicyOptional :: string where "PolicyOptional \<equiv> ''optional''"

abbreviation (input) StatusPass :: string where "StatusPass \<equiv> ''pass''"
abbreviation (input) StatusFail :: string where "StatusFail \<equiv> ''fail''"
abbreviation (input) StatusWarn :: string where "StatusWarn \<equiv> ''warn''"
abbreviation (input) StatusSkip :: string where "StatusSkip \<equiv> ''skip''"

record ValidationResult =
  vr_Validator :: string
  vr_Status :: string
  vr_Detail :: string

datatype 'a outcome = Returns 'a | Panics string

record 'w Injector =
  in_Inject :: "'w Infrastructure \<Rightarrow> 'w \<Rightarrow> error option outcome \<times> 'w"
  in_Recover :: "'w Infrastructure \<Rightarrow> 'w \<Rightarrow> error option outcome \<times> 'w"

record 'w Observer =
  ob_Name :: string
  ob_Policy :: string
  ob_Observe :: "string \<Rightarrow> 'w Infrastructure \<Rightarrow> 'w \<Rightarrow> (error + Evidence list) outcome \<times> 'w"

type_synonym Validator = "Evidence list \<Rightarrow> Evidence list \<Rightarrow> ValidationResult outcome"

subsection \<open>Measurements and reports: \<open>measure.go\<close>, \<open>report.go\<close>\<close>

record TickSummary =
  tk_Mean :: Duration
  tk_P50 :: Duration
  tk_P95 :: Duration
  tk_P99 :: Duration
  tk_Max :: Duration
  tk_Count :: int

record RecoverySummary =
  rcv_Duration :: Duration
  rcv_OwnershipRestoredAt :: Time
  rcv_FirstHealthyAt :: Time

record QueueSnapshot =
  qs_Min :: int
  qs_Max :: int
  qs_Mean :: float64
  qs_P95 :: int

record Measurement =
  ms_Tick :: TickSummary
  ms_Recovery :: RecoverySummary
  ms_Queue :: "(string, QueueSnapshot) fmap"
  ms_Events :: "(string, int) fmap"
  ms_Drops :: "(string, int) fmap"
  ms_TickDurations :: "Duration list"

abbreviation (input) frameworkVersion :: string where "frameworkVersion \<equiv> ''1.0.0''"

record FrameworkMeta =
  fw_FrameworkVersion :: string
  fw_ScenarioVersion :: string
  fw_ExecTimestamp :: Time

abbreviation (input) OutcomePassed :: string where "OutcomePassed \<equiv> ''passed''"
abbreviation (input) OutcomeFailed :: string where "OutcomeFailed \<equiv> ''failed''"
abbreviation (input) OutcomeSkipped :: string where "OutcomeSkipped \<equiv> ''skipped''"
abbreviation (input) OutcomeTimedOut :: string where "OutcomeTimedOut \<equiv> ''timed_out''"
abbreviation (input) OutcomeError :: string where "OutcomeError \<equiv> ''error''"

record ValidationReport =
  vp_Framework :: FrameworkMeta
  vp_Scenario :: ScenarioMetadata
  vp_Outcome :: string
  vp_Duration :: Duration
  vp_Baseline :: "Evidence list"
  vp_PostRecovery :: "Evidence list"
  vp_Validations :: "ValidationResult list"
  vp_Measurement :: Measurement
  vp_RootCause :: string

definition CombinedEvidence :: "ValidationReport \<Rightarrow> Evidence list \<Rightarrow> bool" where
  \<comment> \<open>\<open>combined\<close> is a possible result: \<open>sort.Slice\<close> leaves the order of equal timestamps open\<close>
  "CombinedEvidence r combined \<longleftrightarrow>
     mset combined = mset (vp_Baseline r @ vp_PostRecovery r) \<and> sorted (map evd_Timestamp combined)"

record SummaryEntry =
  se_Name :: string
  se_Outcome :: string
  se_Duration :: Duration
  se_Reason :: string

record SummaryReport =
  su_Framework :: FrameworkMeta
  su_Total :: int
  su_Passed :: int
  su_Failed :: int
  su_Skipped :: int
  su_TimedOut :: int
  su_Errors :: int
  su_TotalDuration :: Duration
  su_RecoveryCount :: int
  su_MinDuration :: Duration
  su_MaxDuration :: Duration
  su_MeanDuration :: Duration
  su_InvTotal :: int
  su_InvPassed :: int
  su_InvWarned :: int
  su_InvFailed :: int
  su_InvSkipped :: int
  su_Scenarios :: "SummaryEntry list"

definition new_summary :: "Time \<Rightarrow> SummaryReport" where
  "new_summary now =
     \<lparr>su_Framework = \<lparr>fw_FrameworkVersion = frameworkVersion, fw_ScenarioVersion = '''', fw_ExecTimestamp = now\<rparr>,
      su_Total = 0, su_Passed = 0, su_Failed = 0, su_Skipped = 0, su_TimedOut = 0, su_Errors = 0, su_TotalDuration = 0,
      su_RecoveryCount = 0, su_MinDuration = 0, su_MaxDuration = 0, su_MeanDuration = 0,
      su_InvTotal = 0, su_InvPassed = 0, su_InvWarned = 0, su_InvFailed = 0, su_InvSkipped = 0, su_Scenarios = []\<rparr>"

definition count_outcome :: "string \<Rightarrow> SummaryReport \<Rightarrow> SummaryReport" where
  "count_outcome x s =
     (if x = OutcomePassed then s\<lparr>su_Passed := su_Passed s + 1\<rparr>
      else if x = OutcomeFailed then s\<lparr>su_Failed := su_Failed s + 1\<rparr>
      else if x = OutcomeSkipped then s\<lparr>su_Skipped := su_Skipped s + 1\<rparr>
      else if x = OutcomeTimedOut then s\<lparr>su_TimedOut := su_TimedOut s + 1\<rparr>
      else if x = OutcomeError then s\<lparr>su_Errors := su_Errors s + 1\<rparr>
      else s)"

definition count_status :: "ValidationResult \<Rightarrow> SummaryReport \<Rightarrow> SummaryReport" where
  "count_status v s =
     (let s = s\<lparr>su_InvTotal := su_InvTotal s + 1\<rparr> in
      if vr_Status v = StatusPass then s\<lparr>su_InvPassed := su_InvPassed s + 1\<rparr>
      else if vr_Status v = StatusWarn then s\<lparr>su_InvWarned := su_InvWarned s + 1\<rparr>
      else if vr_Status v = StatusFail then s\<lparr>su_InvFailed := su_InvFailed s + 1\<rparr>
      else if vr_Status v = StatusSkip then s\<lparr>su_InvSkipped := su_InvSkipped s + 1\<rparr>
      else s)"

definition summarize :: "ValidationReport \<Rightarrow> SummaryReport \<Rightarrow> SummaryReport" where
  \<comment> \<open>a round of the loop over the reports\<close>
  "summarize r s =
     (let s = s\<lparr>su_Total := su_Total s + 1\<rparr>;
          entry = \<lparr>se_Name = md_Name (vp_Scenario r), se_Outcome = vp_Outcome r, se_Duration = vp_Duration r, se_Reason = vp_RootCause r\<rparr>;
          s = s\<lparr>su_Scenarios := su_Scenarios s @ [entry], su_TotalDuration := su_TotalDuration s + vp_Duration r\<rparr>
      in fold count_status (vp_Validations r) (count_outcome (vp_Outcome r) s))"

definition recovery_durations :: "ValidationReport list \<Rightarrow> Duration list" where
  "recovery_durations reports =
     filter (\<lambda>d. 0 < d) (map (\<lambda>r. rcv_Duration (ms_Recovery (vp_Measurement r))) reports)"

definition NewSummary :: "Time \<Rightarrow> ValidationReport list \<Rightarrow> SummaryReport" where
  "NewSummary now reports =
     (let s = fold summarize reports (new_summary now) in
      case recovery_durations reports of
        [] \<Rightarrow> s
      | d0 # ds \<Rightarrow>
          let (total, mn, mx) = fold (\<lambda>d (total, mn, mx). (total + d, if d < mn then d else mn, if mx < d then d else mx)) (d0 # ds) (0, d0, d0)
          in s\<lparr>su_RecoveryCount := int (length (d0 # ds)), su_MinDuration := mn, su_MaxDuration := mx,
               su_MeanDuration := total div int (length (d0 # ds))\<rparr>)"

definition MarkdownReportString :: "(Duration \<Rightarrow> string) \<Rightarrow> ValidationReport \<Rightarrow> string" where
  "MarkdownReportString show report =
     ''# Chaos Report: '' @ md_Name (vp_Scenario report) @ [CHR 0x0A, CHR 0x0A]
     @ ''| Field | Value |'' @ [CHR 0x0A] @ ''|-------|-------|'' @ [CHR 0x0A]
     @ ''| Outcome | '' @ vp_Outcome report @ '' |'' @ [CHR 0x0A]
     @ ''| Duration | '' @ show (vp_Duration report) @ '' |'' @ [CHR 0x0A]
     @ ''| Expected | '' @ md_ExpectedBehavior (vp_Scenario report) @ '' |'' @ [CHR 0x0A, CHR 0x0A]
     @ ''## Validations'' @ [CHR 0x0A, CHR 0x0A] @ ''| Validator | Status | Detail |'' @ [CHR 0x0A] @ ''|-----------|--------|--------|'' @ [CHR 0x0A]
     @ concat (map (\<lambda>v. ''| '' @ vr_Validator v @ '' | '' @ vr_Status v @ '' | '' @ vr_Detail v @ '' |'' @ [CHR 0x0A]) (vp_Validations report))"

definition Markdown_Generate :: "(Duration \<Rightarrow> string) \<Rightarrow> ValidationReport \<Rightarrow> string \<Rightarrow> error option \<times> string" where
  \<comment> \<open>with what standard output holds; the error of the write is ignored\<close>
  "Markdown_Generate show report out = (None, out @ MarkdownReportString show report)"

definition JSON_Generate :: "(string \<Rightarrow> 'w \<Rightarrow> (error + 'f) \<times> 'w) \<Rightarrow> ('f option \<Rightarrow> ValidationReport \<Rightarrow> 'w \<Rightarrow> error option \<times> 'w) \<Rightarrow>
    string \<Rightarrow> ValidationReport \<Rightarrow> 'w \<Rightarrow> error option \<times> 'w" where
  \<comment> \<open>\<open>create\<close>: \<open>os.Create\<close>; \<open>encode\<close>: the JSON encoder, on a file or on standard output (\<open>None\<close>)\<close>
  "JSON_Generate create encode path report w =
     (if path = '''' then encode None report w
      else case create path w of
        (Inl err, w) \<Rightarrow> (Some err, w)
      | (Inr f, w) \<Rightarrow> encode (Some f) report w)"

subsection \<open>The runner: \<open>runner.go\<close>\<close>

record 'w ScenarioDefinition =
  sc_Metadata :: ScenarioMetadata
  sc_Setup :: "'w \<Rightarrow> (error + 'w Infrastructure \<times> ('w \<Rightarrow> unit outcome \<times> 'w)) outcome \<times> 'w"
  sc_Injector :: "'w Injector"
  sc_Observers :: "'w Observer list"
  sc_Validators :: "Validator list"
  sc_Recovery :: "'w Infrastructure \<Rightarrow> 'w \<Rightarrow> error option outcome \<times> 'w"
  sc_Reporter :: "(ValidationReport \<Rightarrow> 'w \<Rightarrow> error option outcome \<times> 'w) option"
  sc_Acceptance :: AcceptanceCriteria

definition quoted :: "string \<Rightarrow> string" where
  \<comment> \<open>what a percent-q prints for an id of printable characters other than quotes and backslashes\<close>
  "quoted s = CHR 0x22 # s @ [CHR 0x22]"

fun validate_ids :: "int \<Rightarrow> string list \<Rightarrow> (string, int) fmap \<Rightarrow> error option" where
  \<comment> \<open>the loop, from index \<open>i\<close> on\<close>
  "validate_ids i [] seen = None"
| "validate_ids i (x # xs) seen =
     (if x = '''' then Some (ErrText (''scenario at index '' @ itoa i @ '' has empty ID''))
      else case fmlookup seen x of
        Some prev \<Rightarrow> Some (ErrText (''duplicate scenario ID '' @ quoted x @ '' at indices '' @ itoa prev @ '' and '' @ itoa i))
      | None \<Rightarrow> validate_ids (i + 1) xs (fmupd x i seen))"

definition ValidateScenarios :: "'w ScenarioDefinition list \<Rightarrow> error option" where
  "ValidateScenarios scenarios = validate_ids 0 (map (\<lambda>sc. md_ID (sc_Metadata sc)) scenarios) fmempty"

fun observeAll :: "('w \<Rightarrow> Time) \<Rightarrow> string \<Rightarrow> 'w Observer list \<Rightarrow> 'w Infrastructure \<Rightarrow> 'w \<Rightarrow> (error + Evidence list) outcome \<times> 'w" where
  "observeAll now phase [] infra w = (Returns (Inr []), w)"
| "observeAll now phase (ob # obs) infra w =
     (case ob_Observe ob phase infra w of
        (Panics m, w) \<Rightarrow> (Panics m, w)
      | (Returns (Inl err), w) \<Rightarrow>
          if ob_Policy ob = PolicyRequired
          then (Returns (Inl (Errorf (ob_Name ob @ ''('' @ phase @ ''): '') err '''')), w)
          else
            let e = \<lparr>evd_Timestamp = now w, evd_Phase = phase, evd_Source = ob_Name ob, evd_Kind = ''error'',
                     evd_Key = ''observer-error'', evd_Value = error_Error err\<rparr>
            in (case observeAll now phase obs infra w of
                  (Returns (Inr es), w) \<Rightarrow> (Returns (Inr (e # es)), w)
                | r \<Rightarrow> r)
      | (Returns (Inr es), w) \<Rightarrow>
          (case observeAll now phase obs infra w of
             (Returns (Inr es'), w) \<Rightarrow> (Returns (Inr (es @ es')), w)
           | r \<Rightarrow> r))"

definition accept_check :: "(Duration \<Rightarrow> string) \<Rightarrow> string \<Rightarrow> Duration \<Rightarrow> AcceptanceCriterion \<Rightarrow> ValidationReport \<Rightarrow> ValidationReport" where
  "accept_check show name actual c report =
     (if ac_Threshold c = 0 then report
      else
        let status = (if ac_Threshold c < actual then (if ac_Policy c = AcceptFail then StatusFail else StatusWarn) else StatusPass);
            report = (if status = StatusFail then report\<lparr>vp_Outcome := OutcomeFailed\<rparr> else report)
        in report\<lparr>vp_Validations := vp_Validations report @
             [\<lparr>vr_Validator = ''acceptance/'' @ name, vr_Status = status,
               vr_Detail = name @ '' actual='' @ show actual @ '' threshold='' @ show (ac_Threshold c) @ '' policy='' @ ac_Policy c\<rparr>]\<rparr>)"

definition evaluateAcceptance :: "(Duration \<Rightarrow> string) \<Rightarrow> AcceptanceCriteria \<Rightarrow> ValidationReport \<Rightarrow> ValidationReport" where
  "evaluateAcceptance show ac report =
     (let report = accept_check show ''recovery-duration'' (rcv_Duration (ms_Recovery (vp_Measurement report))) (acs_RecoveryDuration ac) report
      in accept_check show ''tick-p95'' (tk_P95 (ms_Tick (vp_Measurement report))) (acs_TickP95 ac) report)"

record 'w runner_env =
  rv_now :: "'w \<Rightarrow> Time"
  rv_expired :: "'w \<Rightarrow> bool"           \<comment> \<open>the error of the scoped context is \<open>DeadlineExceeded\<close>\<close>
  rv_show :: "Duration \<Rightarrow> string"

datatype call = CSetup | CObserve string | CInject | CWait | CReport | CRecover | CTeardown

record 'w run =
  rn_report :: ValidationReport
  rn_world :: 'w
  rn_infra :: "'w Infrastructure"
  rn_returned :: bool                     \<comment> \<open>a return statement has set the result\<close>
  rn_panic :: "string option"             \<comment> \<open>the panic under way\<close>
  rn_teardown :: "('w \<Rightarrow> unit outcome \<times> 'w) option"   \<comment> \<open>deferred\<close>
  rn_recover :: bool                      \<comment> \<open>the recovery of the injector is deferred\<close>
  rn_calls :: "call list"

definition running :: "'w run \<Rightarrow> bool" where
  "running r \<longleftrightarrow> \<not> rn_returned r \<and> rn_panic r = None"

definition return_with :: "string \<Rightarrow> string \<Rightarrow> 'w run \<Rightarrow> 'w run" where
  "return_with x cause r = r\<lparr>rn_report := (rn_report r)\<lparr>vp_Outcome := x, vp_RootCause := cause\<rparr>, rn_returned := True\<rparr>"

definition called :: "call \<Rightarrow> 'w \<Rightarrow> 'w run \<Rightarrow> 'w run" where
  "called c w r = r\<lparr>rn_world := w, rn_calls := rn_calls r @ [c]\<rparr>"

definition panicked :: "string \<Rightarrow> 'w run \<Rightarrow> 'w run" where
  "panicked m r = r\<lparr>rn_panic := Some m\<rparr>"

definition do_setup :: "'w ScenarioDefinition \<Rightarrow> 'w run \<Rightarrow> 'w run" where
  "do_setup sc r =
     (if \<not> running r then r
      else case sc_Setup sc (rn_world r) of
        (Panics m, w) \<Rightarrow> panicked m (called CSetup w r)
      | (Returns (Inl err), w) \<Rightarrow> return_with OutcomeError (''setup: '' @ error_Error err) (called CSetup w r)
      | (Returns (Inr (infra, teardown)), w) \<Rightarrow> (called CSetup w r)\<lparr>rn_infra := infra, rn_teardown := Some teardown\<rparr>)"

definition do_requirements :: "'w ScenarioDefinition \<Rightarrow> 'w run \<Rightarrow> 'w run" where
  "do_requirements sc r =
     (if \<not> running r then r
      else case CheckRequirements (rn_infra r) (md_Requirements (sc_Metadata sc)) (rn_world r) of
        None \<Rightarrow> r
      | Some reason \<Rightarrow> return_with OutcomeSkipped reason r)"

definition do_observe :: "'w runner_env \<Rightarrow> 'w ScenarioDefinition \<Rightarrow> string \<Rightarrow> string \<Rightarrow>
    (Evidence list \<Rightarrow> ValidationReport \<Rightarrow> ValidationReport) \<Rightarrow> 'w run \<Rightarrow> 'w run" where
  "do_observe env sc phase label put r =
     (if \<not> running r then r
      else case observeAll (rv_now env) phase (sc_Observers sc) (rn_infra r) (rn_world r) of
        (Panics m, w) \<Rightarrow> panicked m (called (CObserve phase) w r)
      | (Returns (Inl err), w) \<Rightarrow> return_with OutcomeError (label @ '' observe: '' @ error_Error err) (called (CObserve phase) w r)
      | (Returns (Inr es), w) \<Rightarrow> (called (CObserve phase) w r)\<lparr>rn_report := put es (rn_report r)\<rparr>)"

definition do_inject :: "'w ScenarioDefinition \<Rightarrow> 'w run \<Rightarrow> 'w run" where
  "do_inject sc r =
     (if \<not> running r then r
      else
        let r = r\<lparr>rn_recover := True\<rparr> in
        case in_Inject (sc_Injector sc) (rn_infra r) (rn_world r) of
          (Panics m, w) \<Rightarrow> panicked m (called CInject w r)
        | (Returns (Some err), w) \<Rightarrow> return_with OutcomeError (''inject: '' @ error_Error err) (called CInject w r)
        | (Returns None, w) \<Rightarrow> called CInject w r)"

definition set_recovery :: "Duration \<Rightarrow> ValidationReport \<Rightarrow> ValidationReport" where
  "set_recovery d p = p\<lparr>vp_Measurement := (vp_Measurement p)\<lparr>ms_Recovery := (ms_Recovery (vp_Measurement p))\<lparr>rcv_Duration := d\<rparr>\<rparr>\<rparr>"

definition do_wait :: "'w runner_env \<Rightarrow> 'w ScenarioDefinition \<Rightarrow> 'w run \<Rightarrow> 'w run" where
  "do_wait env sc r =
     (if \<not> running r then r
      else
        let recoverStart = rv_now env (rn_world r) in
        case sc_Recovery sc (rn_infra r) (rn_world r) of
          (Panics m, w) \<Rightarrow> panicked m (called CWait w r)
        | (Returns e, w) \<Rightarrow>
            let p = set_recovery (time_Sub (rv_now env w) recoverStart) (rn_report r);
                p = (case e of
                       None \<Rightarrow> p
                     | Some err \<Rightarrow>
                         if rv_expired env w then p\<lparr>vp_Outcome := OutcomeTimedOut, vp_RootCause := ''recovery timed out''\<rparr>
                         else p\<lparr>vp_Outcome := OutcomeError, vp_RootCause := ''recovery: '' @ error_Error err\<rparr>)
            in (called CWait w r)\<lparr>rn_report := p\<rparr>)"

fun validate_all :: "Validator list \<Rightarrow> bool \<Rightarrow> ValidationReport \<Rightarrow> bool \<times> ValidationReport \<times> string option" where
  \<comment> \<open>the loop over the validators: \<open>allPassed\<close>, the report, a panic\<close>
  "validate_all [] ok p = (ok, p, None)"
| "validate_all (v # vs) ok p =
     (case v (vp_Baseline p) (vp_PostRecovery p) of
        Panics m \<Rightarrow> (ok, p, Some m)
      | Returns res \<Rightarrow>
          let p = p\<lparr>vp_Validations := vp_Validations p @ [res]\<rparr> in
          if vr_Status res = StatusFail
          then validate_all vs False
                 (if vp_RootCause p = '''' then p\<lparr>vp_RootCause := vr_Validator res @ '': '' @ vr_Detail res\<rparr> else p)
          else validate_all vs ok p)"

definition do_validate :: "'w runner_env \<Rightarrow> 'w ScenarioDefinition \<Rightarrow> 'w run \<Rightarrow> 'w run" where
  "do_validate env sc r =
     (if \<not> running r then r
      else case validate_all (sc_Validators sc) True (rn_report r) of
        (ok, p, Some m) \<Rightarrow> panicked m (r\<lparr>rn_report := p\<rparr>)
      | (ok, p, None) \<Rightarrow>
          let p = (if vp_Outcome p = '''' then p\<lparr>vp_Outcome := (if ok then OutcomePassed else OutcomeFailed)\<rparr> else p)
          in r\<lparr>rn_report := evaluateAcceptance (rv_show env) (sc_Acceptance sc) p\<rparr>)"

definition do_report :: "'w ScenarioDefinition \<Rightarrow> 'w run \<Rightarrow> 'w run" where
  "do_report sc r =
     (if \<not> running r then r
      else case sc_Reporter sc of
        None \<Rightarrow> r\<lparr>rn_returned := True\<rparr>
      | Some gen \<Rightarrow>
          (case gen (rn_report r) (rn_world r) of
             (Panics m, w) \<Rightarrow> panicked m (called CReport w r)
           | (Returns e, w) \<Rightarrow> (called CReport w r)\<lparr>rn_returned := True\<rparr>))"

definition deferred_recover :: "'w ScenarioDefinition \<Rightarrow> 'w run \<Rightarrow> 'w run" where
  "deferred_recover sc r =
     (if \<not> rn_recover r then r
      else case in_Recover (sc_Injector sc) (rn_infra r) (rn_world r) of
        (Panics m, w) \<Rightarrow> panicked m (called CRecover w r)
      | (Returns e, w) \<Rightarrow> called CRecover w r)"

definition deferred_teardown :: "'w run \<Rightarrow> 'w run" where
  "deferred_teardown r =
     (case rn_teardown r of
        None \<Rightarrow> r
      | Some teardown \<Rightarrow>
          (case teardown (rn_world r) of
             (Panics m, w) \<Rightarrow> panicked m (called CTeardown w r)
           | (Returns _, w) \<Rightarrow> called CTeardown w r))"

definition deferred_handler :: "'w run \<Rightarrow> 'w run" where
  \<comment> \<open>the deferred function that recovers from a panic\<close>
  "deferred_handler r =
     (case rn_panic r of
        None \<Rightarrow> r
      | Some m \<Rightarrow>
          let p = (rn_report r)\<lparr>vp_Outcome := OutcomeError\<rparr>;
              p = (if vp_RootCause p = '''' then p\<lparr>vp_RootCause := ''panic: '' @ m\<rparr> else p)
          in r\<lparr>rn_report := p, rn_panic := None\<rparr>)"

definition no_infra :: "'w Infrastructure" where
  "no_infra = \<lparr>inf_Endpoint = (\<lambda>_ _. Inl (ErrText ''nil'')), inf_Processes = (\<lambda>_ _. Inl (ErrText ''nil'')),
     inf_Database = (\<lambda>_ _. Inl (ErrText ''nil'')), inf_RuntimeNodes = (\<lambda>_. 0),
     inf_DialServices = (\<lambda>_ w. (Some (ErrText ''nil''), w)), inf_Close = (\<lambda>w. (Some (ErrText ''nil''), w))\<rparr>"

definition run_start :: "'w runner_env \<Rightarrow> 'w ScenarioDefinition \<Rightarrow> 'w \<Rightarrow> 'w run" where
  "run_start env sc w =
     \<lparr>rn_report = \<lparr>vp_Framework = \<lparr>fw_FrameworkVersion = frameworkVersion, fw_ScenarioVersion = itoa (md_Version (sc_Metadata sc)),
                                  fw_ExecTimestamp = rv_now env w\<rparr>,
        vp_Scenario = sc_Metadata sc, vp_Outcome = '''', vp_Duration = 0, vp_Baseline = [], vp_PostRecovery = [], vp_Validations = [],
        vp_Measurement = \<lparr>ms_Tick = \<lparr>tk_Mean = 0, tk_P50 = 0, tk_P95 = 0, tk_P99 = 0, tk_Max = 0, tk_Count = 0\<rparr>,
                          ms_Recovery = \<lparr>rcv_Duration = 0, rcv_OwnershipRestoredAt = zero_time, rcv_FirstHealthyAt = zero_time\<rparr>,
                          ms_Queue = fmempty, ms_Events = fmempty, ms_Drops = fmempty, ms_TickDurations = []\<rparr>,
        vp_RootCause = ''''\<rparr>,
      rn_world = w, rn_infra = no_infra, rn_returned = False, rn_panic = None, rn_teardown = None, rn_recover = False, rn_calls = []\<rparr>"

definition run_body :: "'w runner_env \<Rightarrow> 'w ScenarioDefinition \<Rightarrow> 'w run \<Rightarrow> 'w run" where
  "run_body env sc r =
     (let r = do_setup sc r;
          r = do_requirements sc r;
          r = do_observe env sc PhaseBaseline ''baseline'' (\<lambda>es p. p\<lparr>vp_Baseline := es\<rparr>) r;
          r = do_inject sc r;
          r = do_wait env sc r;
          r = do_observe env sc PhasePostRecovery ''post-recovery'' (\<lambda>es p. p\<lparr>vp_PostRecovery := es\<rparr>) r;
          r = do_validate env sc r
      in do_report sc r)"

definition Run :: "'w runner_env \<Rightarrow> 'w ScenarioDefinition \<Rightarrow> 'w \<Rightarrow> ValidationReport option \<times> 'w run" where
  \<comment> \<open>the result is unnamed: a recovered panic leaves it nil unless a return statement had set it\<close>
  "Run env sc w =
     (let start = rv_now env w;
          r = deferred_handler (deferred_teardown (deferred_recover sc (run_body env sc (run_start env sc w))));
          r = r\<lparr>rn_report := (rn_report r)\<lparr>vp_Duration := time_Sub (rv_now env (rn_world r)) start\<rparr>\<rparr>
      in (if rn_returned r then Some (rn_report r) else None, r))"

subsection \<open>Waiting for recovery: \<open>recovery\<close>\<close>

definition FixedDelay_Met :: "Time \<Rightarrow> Duration \<Rightarrow> Time \<Rightarrow> bool" where
  "FixedDelay_Met started delay now \<longleftrightarrow> delay \<le> time_Sub now started"

definition HealthyEndpoint_Met :: "ResourceID \<Rightarrow> (string \<Rightarrow> error option) \<Rightarrow> 'w Infrastructure \<Rightarrow> 'w \<Rightarrow> bool" where
  \<comment> \<open>\<open>dial\<close>: the error of a TCP connection to an address\<close>
  "HealthyEndpoint_Met resource dial infra w =
     (case inf_Endpoint infra resource w of
        Inl err \<Rightarrow> False
      | Inr addr \<Rightarrow> dial addr = None)"

abbreviation (input) WaitAll :: string where "WaitAll \<equiv> ''all''"
abbreviation (input) WaitAny :: string where "WaitAny \<equiv> ''any''"

definition wait_over :: "string \<Rightarrow> bool list \<Rightarrow> bool" where
  \<comment> \<open>the switch over the mode, for what the conditions answer\<close>
  "wait_over mode met =
     (if mode = WaitAll then list_all (\<lambda>b. b) met \<and> met \<noteq> []
      else if mode = WaitAny then list_ex (\<lambda>b. b) met
      else False)"

partial_function (option) wait_loop :: "string \<Rightarrow> (nat \<Rightarrow> bool list) \<Rightarrow> (nat \<Rightarrow> error option) \<Rightarrow> nat \<Rightarrow> error option option" where
  \<comment> \<open>round \<open>k\<close>: the select takes the context, with its error, or the tick and then asks the conditions;
      \<open>None\<close>: the loop never ends\<close>
  "wait_loop mode met ctx k =
     (case ctx k of
        Some err \<Rightarrow> Some (Some (Errorf ''recovery timed out: '' err ''''))
      | None \<Rightarrow> if wait_over mode (met k) then Some None else wait_loop mode met ctx (k + 1))"

definition CompositeWaiter_Wait :: "string \<Rightarrow> nat \<Rightarrow> (nat \<Rightarrow> bool list) \<Rightarrow> (nat \<Rightarrow> error option) \<Rightarrow> error option option" where
  \<comment> \<open>\<open>n\<close> conditions\<close>
  "CompositeWaiter_Wait mode n met ctx = (if n = 0 then Some None else wait_loop mode met ctx 0)"

subsection \<open>Validators: \<open>validators\<close>\<close>

definition atoi :: "string \<Rightarrow> int" where
  \<comment> \<open>the value of \<open>strconv.Atoi\<close>, whatever its error: 0 for what is no number, the nearest \<open>int64\<close> for one out of range\<close>
  "atoi s =
     (let neg = (s \<noteq> [] \<and> hd s = CHR ''-'');
          ds = (if s \<noteq> [] \<and> (hd s = CHR ''-'' \<or> hd s = CHR ''+'') then tl s else s);
          n = fold (\<lambda>c a. a * 10 + (of_char c - 48)) ds (0 :: int)
      in if ds = [] \<or> list_ex (\<lambda>c. of_char c < (48 :: nat) \<or> 57 < (of_char c :: nat)) ds then 0
         else sat64 (if neg then - n else n))"

definition findInt :: "Evidence list \<Rightarrow> string \<Rightarrow> int" where
  "findInt evidence key =
     (case fmlookup (EvidenceMap evidence) key of
        Some e \<Rightarrow> atoi (evd_Value e)
      | None \<Rightarrow> - 1)"

definition result :: "string \<Rightarrow> string \<Rightarrow> string \<Rightarrow> ValidationResult" where
  "result name status detail = \<lparr>vr_Validator = name, vr_Status = status, vr_Detail = detail\<rparr>"

definition arrow :: string where
  \<comment> \<open>the UTF-8 bytes of U+2192\<close>
  "arrow = map char_of [226, 134, 146 :: nat]"

definition dash :: string where
  \<comment> \<open>the UTF-8 bytes of U+2014\<close>
  "dash = map char_of [226, 128, 148 :: nat]"

definition AOI_Validate :: "Evidence list \<Rightarrow> Evidence list \<Rightarrow> ValidationResult" where
  "AOI_Validate baseline postRecovery =
     (let postGhosts = findInt postRecovery EvKeyGhostCount; postEntities = findInt postRecovery EvKeyEntityCount in
      if postGhosts = - 1 \<or> postEntities = - 1 then result ''aoi'' StatusSkip ''ghost-count or entity-count missing''
      else if 0 < postEntities \<and> postEntities < postGhosts
      then result ''aoi'' StatusFail (''ghosts('' @ itoa postGhosts @ '') > entities('' @ itoa postEntities @ '') '' @ dash @ '' G-02 violated'')
      else result ''aoi'' StatusPass (''ghosts bounded: '' @ itoa postGhosts @ ''/'' @ itoa postEntities))"

definition Entity_Validate :: "Evidence list \<Rightarrow> Evidence list \<Rightarrow> ValidationResult" where
  "Entity_Validate baseline postRecovery =
     (let pre = findInt baseline EvKeyEntityCount; post = findInt postRecovery EvKeyEntityCount in
      if pre = - 1 \<or> post = - 1 then result ''entity'' StatusSkip ''entity-count evidence missing''
      else if post < pre then result ''entity'' StatusFail (''entity count decreased '' @ itoa pre @ arrow @ itoa post @ '' (I-04)'')
      else result ''entity'' StatusPass (itoa pre @ arrow @ itoa post))"

definition Ownership_Validate :: "Evidence list \<Rightarrow> Evidence list \<Rightarrow> ValidationResult" where
  "Ownership_Validate baseline postRecovery =
     (let pre = findInt baseline EvKeyZoneOwnerCount; post = findInt postRecovery EvKeyZoneOwnerCount in
      if pre = - 1 \<or> post = - 1 then result ''ownership'' StatusSkip ''zone-owner-count evidence missing''
      else if post < pre then result ''ownership'' StatusFail (''zone owners lost: '' @ itoa pre @ arrow @ itoa post @ '' (O-01)'')
      else result ''ownership'' StatusPass (''ownership preserved: '' @ itoa pre @ arrow @ itoa post))"

definition Scheduler_Validate :: "Evidence list \<Rightarrow> Evidence list \<Rightarrow> ValidationResult" where
  "Scheduler_Validate baseline postRecovery =
     (let preDrops = findInt baseline EvKeyCmdDrops; postDrops = findInt postRecovery EvKeyCmdDrops in
      if preDrops = - 1 \<or> postDrops = - 1 then result ''scheduler'' StatusSkip ''cmd-drops evidence missing''
      else if preDrops < postDrops then result ''scheduler'' StatusWarn ''command drops observed (T-04)''
      else result ''scheduler'' StatusPass ''no command drops'')"

definition Session_Validate :: "Evidence list \<Rightarrow> Evidence list \<Rightarrow> ValidationResult" where
  "Session_Validate baseline postRecovery =
     (let preDisc = findInt baseline EvKeyDisconnectedCount; postDisc = findInt postRecovery EvKeyDisconnectedCount in
      if preDisc = - 1 \<or> postDisc = - 1 then result ''session'' StatusSkip ''disconnected-count evidence missing''
      else if preDisc + 10 < postDisc then result ''session'' StatusWarn ''disconnected sessions grew significantly''
      else result ''session'' StatusPass ''session state preserved'')"

subsection \<open>Observers: \<open>observers\<close>\<close>

definition evidence :: "Time \<Rightarrow> string \<Rightarrow> string \<Rightarrow> string \<Rightarrow> string \<Rightarrow> string \<Rightarrow> Evidence" where
  "evidence t phase source kind key v =
     \<lparr>evd_Timestamp = t, evd_Phase = phase, evd_Source = source, evd_Kind = kind, evd_Key = key, evd_Value = v\<rparr>"

definition Metrics_observer :: "('w \<Rightarrow> Time) \<Rightarrow> 'w Observer" where
  "Metrics_observer now = \<lparr>ob_Name = ''metrics'', ob_Policy = PolicyOptional,
     ob_Observe = (\<lambda>phase infra w. (Returns (Inr [evidence (now w) phase ''metrics'' ''metric'' ''observer'' ''stub'']), w))\<rparr>"

definition Routing_observer :: "('w \<Rightarrow> Time) \<Rightarrow> 'w Observer" where
  "Routing_observer now = \<lparr>ob_Name = ''routing'', ob_Policy = PolicyOptional,
     ob_Observe = (\<lambda>phase infra w.
       case inf_Endpoint infra ResourceGateway w of
         Inl err \<Rightarrow> (Returns (Inl (Errorf ''routing observer: '' err '''')), w)
       | Inr addr \<Rightarrow> (Returns (Inr [evidence (now w) phase ''routing'' ''state'' EvKeyGatewayAddr addr]), w))\<rparr>"

definition State_observer :: "('w \<Rightarrow> Time) \<Rightarrow> 'w Observer" where
  "State_observer now = \<lparr>ob_Name = ''state'', ob_Policy = PolicyRequired,
     ob_Observe = (\<lambda>phase infra w.
       case inf_Endpoint infra ResourceRoomService w of
         Inl err \<Rightarrow> (Returns (Inl (Errorf ''state observer: '' err '''')), w)
       | Inr addr \<Rightarrow>
           (Returns (Inr [evidence (now w) phase ''state'' ''state'' EvKeyRoomServiceAddr addr,
                          evidence (now w) phase ''state'' ''state'' EvKeyRuntimeNodes (itoa (inf_RuntimeNodes infra w))]), w))\<rparr>"

subsection \<open>Injectors: \<open>injectors\<close>\<close>

datatype signal = SIGKILL | SIGSTOP | SIGCONT

type_synonym 'w signaller = "nat \<Rightarrow> signal \<Rightarrow> 'w \<Rightarrow> error option \<times> 'w"   \<comment> \<open>\<open>Process.Signal\<close>\<close>

fun signal_all :: "'w signaller \<Rightarrow> string \<Rightarrow> signal \<Rightarrow> nat list \<Rightarrow> 'w \<Rightarrow> error option \<times> 'w" where
  \<comment> \<open>the loop over the processes, which ends with the first error\<close>
  "signal_all sig label s [] w = (None, w)"
| "signal_all sig label s (p # ps) w =
     (case sig p s w of
        (Some err, w) \<Rightarrow> (Some (Errorf label err ''''), w)
      | (None, w) \<Rightarrow> signal_all sig label s ps w)"

definition ProcessCrash_Inject :: "'w signaller \<Rightarrow> ResourceID \<Rightarrow> 'w Infrastructure \<Rightarrow> 'w \<Rightarrow> error option \<times> 'w" where
  "ProcessCrash_Inject sig target infra w =
     (case inf_Processes infra target w of
        Inl err \<Rightarrow> (Some (Errorf ''process-crash inject: '' err ''''), w)
      | Inr procs \<Rightarrow> signal_all sig ''process-crash inject SIGKILL: '' SIGKILL procs w)"

definition ProcessFreeze_Inject :: "'w signaller \<Rightarrow> ResourceID \<Rightarrow> 'w Infrastructure \<Rightarrow> nat list \<times> 'w \<Rightarrow> error option \<times> nat list \<times> 'w" where
  \<comment> \<open>with the field \<open>frozen\<close>\<close>
  "ProcessFreeze_Inject sig target infra st =
     (case st of (frozen, w) \<Rightarrow>
        case inf_Processes infra target w of
          Inl err \<Rightarrow> (Some (Errorf ''process-freeze inject: '' err ''''), frozen, w)
        | Inr procs \<Rightarrow> (case signal_all sig ''process-freeze inject SIGSTOP: '' SIGSTOP procs w of (e, w) \<Rightarrow> (e, procs, w)))"

definition ProcessFreeze_Recover :: "'w signaller \<Rightarrow> nat list \<times> 'w \<Rightarrow> error option \<times> nat list \<times> 'w" where
  "ProcessFreeze_Recover sig st =
     (case st of (frozen, w) \<Rightarrow>
        case signal_all sig ''process-freeze recover SIGCONT: '' SIGCONT frozen w of (e, w) \<Rightarrow> (e, frozen, w))"

definition compose_only :: "string \<Rightarrow> error option" where
  "compose_only name = Some (ErrText (name @ '' requires Docker Compose execution mode''))"

definition InfraRestart_Inject :: "error option" where "InfraRestart_Inject = compose_only ''infra-restart''"

definition NetLatency_Inject :: "error option" where "NetLatency_Inject = compose_only ''net-latency''"

definition NetLoss_Inject :: "error option" where "NetLoss_Inject = compose_only ''net-loss''"

definition NetPartition_Inject :: "error option" where "NetPartition_Inject = compose_only ''net-partition''"

definition ResourceCPU_Inject :: "error option" where "ResourceCPU_Inject = compose_only ''resource-cpu''"

definition ResourceMemory_Inject :: "error option" where "ResourceMemory_Inject = compose_only ''resource-memory''"

end
