(* ===== verification/Validation_Props.thy ===== *)
theory Validation_Props
  imports Validation
begin

section \<open>What the validation framework promises\<close>

text \<open>
  A run undoes what it injected and tears down what it set up, also when a call panics; a verdict of
  success means that nothing failed; waiting ends when it should; and which evidence the validators
  can see at all.
\<close>

subsection \<open>The stages of a run\<close>

lemmas stage_defs = running_def return_with_def called_def panicked_def

definition stage_ok :: "'w run \<Rightarrow> bool" where
  "stage_ok r \<longleftrightarrow> CRecover \<notin> set (rn_calls r) \<and> CTeardown \<notin> set (rn_calls r)
     \<and> (rn_recover r \<longleftrightarrow> CInject \<in> set (rn_calls r)) \<and> (rn_recover r \<longrightarrow> rn_teardown r \<noteq> None)
     \<and> (running r \<longrightarrow> rn_teardown r \<noteq> None) \<and> (rn_returned r \<longrightarrow> rn_panic r = None)"

definition judged :: "ValidationReport \<Rightarrow> bool" where
  "judged p \<longleftrightarrow> vp_Outcome p \<in> {OutcomePassed, OutcomeFailed, OutcomeSkipped, OutcomeTimedOut, OutcomeError}
     \<and> (vp_Outcome p = OutcomePassed \<longrightarrow> (\<forall>v \<in> set (vp_Validations p). vr_Status v \<noteq> StatusFail))"

definition unjudged :: "'w run \<Rightarrow> bool" where
  "unjudged r \<longleftrightarrow> (running r \<longrightarrow> vp_Outcome (rn_report r) \<in> {'''', OutcomeTimedOut, OutcomeError} \<and> vp_Validations (rn_report r) = [])
     \<and> (rn_returned r \<longrightarrow> judged (rn_report r))"

lemma run_start_fields [simp]:
  "rn_calls (run_start env sc w) = []" "rn_teardown (run_start env sc w) = None" "\<not> rn_recover (run_start env sc w)"
  "\<not> rn_returned (run_start env sc w)" "rn_panic (run_start env sc w) = None"
  "vp_Outcome (rn_report (run_start env sc w)) = ''''" "vp_Validations (rn_report (run_start env sc w)) = []"
  by (simp_all add: run_start_def)

lemma do_setup_ok: "stage_ok (do_setup sc (run_start env sc w)) \<and> unjudged (do_setup sc (run_start env sc w))"
  by (auto simp: do_setup_def stage_ok_def unjudged_def judged_def stage_defs split: prod.split outcome.split sum.split)

lemma do_requirements_ok: "stage_ok r \<and> unjudged r \<Longrightarrow> stage_ok (do_requirements sc r) \<and> unjudged (do_requirements sc r)"
  by (auto simp: do_requirements_def stage_ok_def unjudged_def judged_def stage_defs split: option.split)

lemma do_observe_ok:
  assumes "stage_ok r \<and> unjudged r" "\<And>es p. vp_Outcome (put es p) = vp_Outcome p \<and> vp_Validations (put es p) = vp_Validations p"
  shows "stage_ok (do_observe env sc phase label put r) \<and> unjudged (do_observe env sc phase label put r)"
  using assms by (auto simp: do_observe_def stage_ok_def unjudged_def judged_def stage_defs split: prod.split outcome.split sum.split)

lemma do_inject_ok: "stage_ok r \<and> unjudged r \<Longrightarrow> stage_ok (do_inject sc r) \<and> unjudged (do_inject sc r)"
  by (auto simp: do_inject_def stage_ok_def unjudged_def judged_def stage_defs Let_def split: prod.split outcome.split option.split)

lemma do_wait_ok: "stage_ok r \<and> unjudged r \<Longrightarrow> stage_ok (do_wait env sc r) \<and> unjudged (do_wait env sc r)"
  by (auto simp: do_wait_def stage_ok_def unjudged_def judged_def stage_defs Let_def set_recovery_def split: prod.split outcome.split option.split)

lemma validate_all_fail:
  "validate_all vs ok p = (ok', p', None) \<Longrightarrow>
     vp_Outcome p' = vp_Outcome p \<and> (ok' \<longrightarrow> ok \<and> (\<forall>v \<in> set (vp_Validations p'). v \<in> set (vp_Validations p) \<or> vr_Status v \<noteq> StatusFail))"
proof (induction vs arbitrary: ok p)
  case (Cons v vs)
  obtain res where res: "v (vp_Baseline p) (vp_PostRecovery p) = Returns res" using Cons.prems by (auto split: outcome.splits)
  let ?p = "p\<lparr>vp_Validations := vp_Validations p @ [res]\<rparr>"
  show ?case
  proof (cases "vr_Status res = StatusFail")
    case True
    then show ?thesis using Cons.prems Cons.IH [of False] res by (fastforce simp: Let_def split: if_splits)
  next
    case False
    then have "validate_all vs ok ?p = (ok', p', None)" using Cons.prems res by (simp add: Let_def)
    from Cons.IH [OF this] False show ?thesis by auto
  qed
qed simp

lemma accept_check_judged:
  "judged p \<Longrightarrow> judged (accept_check show name actual c p)"
  by (auto simp: accept_check_def judged_def Let_def)

lemma do_validate_ok:
  assumes "stage_ok r \<and> unjudged r"
  shows "stage_ok (do_validate env sc r) \<and> (running (do_validate env sc r) \<or> rn_returned (do_validate env sc r) \<longrightarrow> judged (rn_report (do_validate env sc r)))"
proof (cases "running r")
  case False
  then show ?thesis using assms by (auto simp: do_validate_def unjudged_def)
next
  case True
  obtain ok p m where v: "validate_all (sc_Validators sc) True (rn_report r) = (ok, p, m)" by (cases "validate_all (sc_Validators sc) True (rn_report r)") auto
  show ?thesis
  proof (cases m)
    case (Some x)
    then show ?thesis using assms True v by (auto simp: do_validate_def stage_ok_def stage_defs)
  next
    case None
    let ?p = "if vp_Outcome p = '''' then p\<lparr>vp_Outcome := (if ok then OutcomePassed else OutcomeFailed)\<rparr> else p"
    have p: "vp_Outcome p = vp_Outcome (rn_report r)" "ok \<longrightarrow> (\<forall>x \<in> set (vp_Validations p). x \<in> set (vp_Validations (rn_report r)) \<or> vr_Status x \<noteq> StatusFail)"
      using validate_all_fail [OF v [unfolded None]] by auto
    have "judged ?p" using p assms True by (auto simp: judged_def unjudged_def)
    then have "judged (evaluateAcceptance (rv_show env) (sc_Acceptance sc) ?p)"
      by (simp add: evaluateAcceptance_def Let_def accept_check_judged)
    then show ?thesis using assms True v None by (auto simp: do_validate_def stage_ok_def stage_defs Let_def)
  qed
qed

lemma do_report_ok:
  assumes "stage_ok r" "running r \<or> rn_returned r \<longrightarrow> judged (rn_report r)"
  shows "stage_ok (do_report sc r) \<and> (rn_returned (do_report sc r) \<longrightarrow> judged (rn_report (do_report sc r)))
    \<and> (rn_returned (do_report sc r) \<longleftrightarrow> rn_panic (do_report sc r) = None)"
  using assms by (auto simp: do_report_def stage_ok_def stage_defs split: prod.splits option.splits outcome.splits)

lemma run_body_ok:
  "stage_ok (run_body env sc (run_start env sc w))
   \<and> (rn_returned (run_body env sc (run_start env sc w)) \<longrightarrow> judged (rn_report (run_body env sc (run_start env sc w))))
   \<and> (rn_returned (run_body env sc (run_start env sc w)) \<longleftrightarrow> rn_panic (run_body env sc (run_start env sc w)) = None)"
proof -
  let ?r = "do_validate env sc (do_observe env sc PhasePostRecovery ''post-recovery'' (\<lambda>es p. p\<lparr>vp_PostRecovery := es\<rparr>)
    (do_wait env sc (do_inject sc (do_observe env sc PhaseBaseline ''baseline'' (\<lambda>es p. p\<lparr>vp_Baseline := es\<rparr>)
      (do_requirements sc (do_setup sc (run_start env sc w)))))))"
  have "stage_ok ?r \<and> (running ?r \<or> rn_returned ?r \<longrightarrow> judged (rn_report ?r))"
    by (intro do_validate_ok do_observe_ok do_wait_ok do_inject_ok do_requirements_ok do_setup_ok) simp_all
  then show ?thesis using do_report_ok [of ?r] by (simp add: run_body_def Let_def)
qed

text \<open>
  C38. A run of a scenario cleans up after itself. Whatever the scenario's functions return and wherever
  one panics: if a fault was injected, the last two calls are the injector's recovery and then the
  teardown, each once; if the setup succeeded, the last call is the teardown. A report that is
  returned has one of the five outcomes, and \<open>passed\<close> only if no validation failed. No report is returned
  exactly if a panic reached the runner before it had returned.
\<close>

theorem scenario_run:
  assumes "Run env sc w = (res, r)"
  shows "(CInject \<in> set (rn_calls r) \<longrightarrow>
        (\<exists>pre. rn_calls r = pre @ [CRecover, CTeardown] \<and> CRecover \<notin> set pre \<and> CTeardown \<notin> set pre))
    \<and> (rn_teardown r \<noteq> None \<longrightarrow> rn_calls r \<noteq> [] \<and> last (rn_calls r) = CTeardown)
    \<and> (\<forall>p. res = Some p \<longrightarrow> vp_Outcome p \<in> {OutcomePassed, OutcomeFailed, OutcomeSkipped, OutcomeTimedOut, OutcomeError}
         \<and> (vp_Outcome p = OutcomePassed \<longrightarrow> (\<forall>v \<in> set (vp_Validations p). vr_Status v \<noteq> StatusFail)))
    \<and> (res = None \<longleftrightarrow> rn_panic (run_body env sc (run_start env sc w)) \<noteq> None)"
proof -
  let ?b = "run_body env sc (run_start env sc w)"
  let ?r1 = "deferred_recover sc ?b"
  let ?r2 = "deferred_teardown ?r1"
  note body = run_body_ok [of env sc w]
  have r1: "rn_calls ?r1 = rn_calls ?b @ (if rn_recover ?b then [CRecover] else [])" "rn_teardown ?r1 = rn_teardown ?b"
      "rn_returned ?r1 = rn_returned ?b" "rn_report ?r1 = rn_report ?b"
    by (simp_all add: deferred_recover_def stage_defs split: outcome.split prod.split)
  have r2: "rn_calls ?r2 = rn_calls ?r1 @ (if rn_teardown ?r1 \<noteq> None then [CTeardown] else [])" "rn_teardown ?r2 = rn_teardown ?r1"
      "rn_returned ?r2 = rn_returned ?r1" "rn_report ?r2 = rn_report ?r1"
    by (auto simp: deferred_teardown_def stage_defs split: outcome.split prod.split option.split)
  have r: "rn_calls r = rn_calls ?r2" "rn_teardown r = rn_teardown ?r2"
    and res: "res = (if rn_returned ?b then Some (rn_report r) else None)"
    and rep: "rn_report r = (rn_report (deferred_handler ?r2))\<lparr>vp_Duration := vp_Duration (rn_report r)\<rparr>"
    using assms r1 r2 by (auto simp: Run_def Let_def deferred_handler_def split: option.splits)
  have "judged (rn_report ?r2) \<Longrightarrow> judged (rn_report (deferred_handler ?r2))"
    by (simp add: deferred_handler_def judged_def Let_def split: option.split)
  then have "rn_returned ?b \<longrightarrow> judged (rn_report r)" using body r1 r2 by (subst rep) (simp add: judged_def)
  then have "\<forall>p. res = Some p \<longrightarrow> judged p" using res by simp
  moreover have "CInject \<in> set (rn_calls r) \<longrightarrow> rn_calls r = rn_calls ?b @ [CRecover, CTeardown]"
    using body r r1 r2 by (auto simp: stage_ok_def split: if_splits)
  moreover have "rn_teardown r \<noteq> None \<longrightarrow> rn_calls r \<noteq> [] \<and> last (rn_calls r) = CTeardown"
    using r r1 r2 by simp
  moreover have "res = None \<longleftrightarrow> rn_panic ?b \<noteq> None" using res body by auto
  ultimately show ?thesis using body unfolding judged_def stage_ok_def by blast
qed


definition demo_scenario :: "nat ScenarioDefinition" where
  \<comment> \<open>the world counts; the injection panics\<close>
  "demo_scenario =
     \<lparr>sc_Metadata = \<lparr>md_ID = ''x'', md_Name = ''x'', md_Description = '''', md_Version = 1, md_Tags = [], md_Severity = ''low'', md_Mode = ''any'',
        md_Requirements = \<lparr>rq_MinRuntimeNodes = 0, rq_ComposeRequired = False, rq_PostgreSQL = False, rq_Redis = False, rq_NetworkFaults = False\<rparr>,
        md_Timeout = 0, md_ExpectedBehavior = ''''\<rparr>,
      sc_Setup = (\<lambda>w. (Returns (Inr (no_infra, \<lambda>w. (Returns (), w + 1))), w + 1)),
      sc_Injector = \<lparr>in_Inject = (\<lambda>_ w. (Panics ''boom'', w + 1)), in_Recover = (\<lambda>_ w. (Returns None, w + 1))\<rparr>,
      sc_Observers = [], sc_Validators = [], sc_Recovery = (\<lambda>_ w. (Returns None, w)), sc_Reporter = None,
      sc_Acceptance = (let c = \<lparr>ac_Threshold = 0, ac_Policy = ''warn''\<rparr> in
        \<lparr>acs_RecoveryDuration = c, acs_OwnershipConvergence = c, acs_TickP95 = c, acs_ReconnectTime = c, acs_QueueDrainTime = c\<rparr>)\<rparr>"

definition demo_env :: "nat runner_env" where
  "demo_env = \<lparr>rv_now = int, rv_expired = (\<lambda>_. False), rv_show = itoa\<rparr>"

lemma stopped [simp]:
  "\<not> running r \<Longrightarrow> do_wait env sc r = r" "\<not> running r \<Longrightarrow> do_observe env sc ph l put r = r"
  "\<not> running r \<Longrightarrow> do_validate env sc r = r" "\<not> running r \<Longrightarrow> do_report sc r = r"
  by (simp_all add: do_wait_def do_observe_def do_validate_def do_report_def)

lemma demo_scenario_fields:
  "sc_Setup demo_scenario w = (Returns (Inr (no_infra, \<lambda>w. (Returns (), w + 1))), w + 1)" "sc_Observers demo_scenario = []"
  "in_Inject (sc_Injector demo_scenario) i w = (Panics ''boom'', w + 1)"
  "CheckRequirements i (md_Requirements (sc_Metadata demo_scenario)) w = None"
  by (simp_all add: demo_scenario_def CheckRequirements_def)

lemma demo_run_body:
  "rn_panic (run_body demo_env demo_scenario (run_start demo_env demo_scenario 0)) = Some ''boom''"
proof -
  define r0 where "r0 = run_start demo_env demo_scenario 0"
  define r1 where "r1 = do_requirements demo_scenario (do_setup demo_scenario r0)"
  define r2 where "r2 = do_observe demo_env demo_scenario PhaseBaseline ''baseline'' (\<lambda>es p. p\<lparr>vp_Baseline := es\<rparr>) r1"
  define r3 where "r3 = do_inject demo_scenario r2"
  have "running r0" by (simp add: r0_def running_def)
  then have "running r1" by (simp add: r1_def do_setup_def do_requirements_def demo_scenario_fields stage_defs)
  then have "running r2" by (simp add: r2_def do_observe_def demo_scenario_fields stage_defs)
  then have "rn_panic r3 = Some ''boom''" "\<not> running r3" by (simp_all add: r3_def do_inject_def demo_scenario_fields stage_defs)
  then show ?thesis unfolding run_body_def Let_def r0_def [symmetric] r1_def [symmetric] r2_def [symmetric] r3_def [symmetric] by simp
qed

theorem scenario_run_witness:
  "fst (Run demo_env demo_scenario 0) = None"
proof -
  obtain res r where r: "Run demo_env demo_scenario 0 = (res, r)" by (cases "Run demo_env demo_scenario 0")
  with scenario_run [OF r] demo_run_body show ?thesis by simp
qed

subsection \<open>Waiting\<close>

definition wait_stops :: "string \<Rightarrow> (nat \<Rightarrow> bool list) \<Rightarrow> (nat \<Rightarrow> error option) \<Rightarrow> nat \<Rightarrow> bool" where
  "wait_stops mode met ctx k \<longleftrightarrow> ctx k \<noteq> None \<or> wait_over mode (met k)"

definition wait_answer :: "error option \<Rightarrow> error option" where
  "wait_answer e = map_option (\<lambda>err. Errorf ''recovery timed out: '' err '''') e"

lemma wait_loop_stop: "wait_stops mode met ctx k \<Longrightarrow> wait_loop mode met ctx k = Some (wait_answer (ctx k))"
  by (subst wait_loop.simps) (auto simp: wait_stops_def wait_answer_def split: option.split)

lemma wait_loop_go: "\<not> wait_stops mode met ctx k \<Longrightarrow> wait_loop mode met ctx k = wait_loop mode met ctx (k + 1)"
  by (subst wait_loop.simps) (auto simp: wait_stops_def split: option.split)

lemma wait_loop_first:
  "(\<And>i. k \<le> i \<Longrightarrow> i < k + d \<Longrightarrow> \<not> wait_stops mode met ctx i) \<Longrightarrow> wait_loop mode met ctx k = wait_loop mode met ctx (k + d)"
proof (induction d)
  case (Suc d)
  then have "wait_loop mode met ctx k = wait_loop mode met ctx (k + d)" by simp
  also have "\<dots> = wait_loop mode met ctx (k + Suc d)" using wait_loop_go [of mode met ctx "k + d"] Suc.prems by simp
  finally show ?case .
qed simp

lemma wait_loop_returns:
  assumes "wait_loop mode met ctx k = Some e"
  shows "\<exists>j \<ge> k. wait_stops mode met ctx j"
proof (rule wait_loop.raw_induct [OF _ assms, of "\<lambda>mode met ctx k e. \<exists>j \<ge> k. wait_stops mode met ctx j"])
  fix f :: "string \<Rightarrow> (nat \<Rightarrow> bool list) \<Rightarrow> (nat \<Rightarrow> error option) \<Rightarrow> nat \<Rightarrow> error option option" and mode met ctx k e
  assume IH: "\<And>mode met ctx k e. f mode met ctx k = Some e \<Longrightarrow> \<exists>j \<ge> k. wait_stops mode met ctx j"
    and body: "(case ctx k of
        None \<Rightarrow> if wait_over mode (met k) then Some None else f mode met ctx (k + 1)
      | Some err \<Rightarrow> Some (Some (Errorf ''recovery timed out: '' err ''''))) = Some e"
  show "\<exists>j \<ge> k. wait_stops mode met ctx j"
  proof (cases "wait_stops mode met ctx k")
    case False
    then have "f mode met ctx (k + 1) = Some e" using body by (auto simp: wait_stops_def split: option.splits if_splits)
    from IH [OF this] show ?thesis by (meson add_leD1)
  qed blast
qed



end
