(* ===== verification/Validation_Reports.thy ===== *)
theory Validation_Reports
  imports Validation
begin

section \<open>What evidence and reports amount to\<close>

text \<open>
  Which evidence the validators of the framework can see, when a list of scenarios is accepted, and
  that the summary of a suite adds up.
\<close>

subsection \<open>What the validators see\<close>

definition keys :: "Evidence list \<Rightarrow> string set" where
  "keys es = set (map evd_Key es)"

lemma EvidenceMap_last: "fmlookup (fold (\<lambda>e. fmupd (evd_Key e) e) es m) k = None \<longleftrightarrow> k \<notin> keys es \<and> fmlookup m k = None"
  by (induction es arbitrary: m) (auto simp: keys_def)

lemma findInt_missing: "k \<notin> keys es \<Longrightarrow> findInt es k = - 1"
  by (simp add: findInt_def EvidenceMap_def EvidenceMap_last [THEN iffD2])

definition shipped :: "('w \<Rightarrow> Time) \<Rightarrow> 'w Observer list" where
  "shipped now = [State_observer now, Routing_observer now, Metrics_observer now]"

lemma observeAll_keys:
  assumes "set obs \<subseteq> set (shipped now)" "observeAll now phase obs infra w = (Returns (Inr es), w')"
  shows "keys es \<subseteq> {''observer'', ''observer-error'', EvKeyGatewayAddr, EvKeyRoomServiceAddr, EvKeyRuntimeNodes}"
  using assms
proof (induction obs arbitrary: w w' es)
  case (Cons x obs)
  have "x = State_observer now \<or> x = Routing_observer now \<or> x = Metrics_observer now" using Cons.prems by (auto simp: shipped_def)
  moreover obtain r w1 where x: "ob_Observe x phase infra w = (r, w1)" by (cases "ob_Observe x phase infra w")
  ultimately have e: "case r of Panics m \<Rightarrow> False | Returns (Inl err) \<Rightarrow> True
      | Returns (Inr ys) \<Rightarrow> keys ys \<subseteq> {''observer'', EvKeyGatewayAddr, EvKeyRoomServiceAddr, EvKeyRuntimeNodes}"
    by (auto simp: State_observer_def Routing_observer_def Metrics_observer_def keys_def evidence_def split: sum.splits)
  obtain q w2 where q: "observeAll now phase obs infra w1 = (q, w2)" by (cases "observeAll now phase obs infra w1")
  have IH: "keys zs \<subseteq> {''observer'', ''observer-error'', EvKeyGatewayAddr, EvKeyRoomServiceAddr, EvKeyRuntimeNodes}"
    if "q = Returns (Inr zs)" for zs using Cons.IH [of w1 zs w2] Cons.prems(1) q that by simp
  have set: "keys (a @ b) = keys a \<union> keys b" "keys (c # a) = insert (evd_Key c) (keys a)" for a b c by (auto simp: keys_def)
  show ?case
    using Cons.prems(2) x q e IH by (auto simp: set Let_def split: outcome.splits sum.splits if_splits)
qed (simp add: keys_def)

text \<open>
  C40. With the observers of the framework every validator of the framework skips: none of them
  observes a count that a validator reads, so a scenario built from them passes whatever became of
  entities, zone owners, ghosts, sessions or commands.
\<close>

theorem shipped_validators_skip:
  assumes "set obs \<subseteq> set (shipped now)"
    and "observeAll now phase obs infra w = (Returns (Inr baseline), w1)"
    and "observeAll now phase' obs infra w' = (Returns (Inr postRecovery), w2)"
  shows "\<forall>v \<in> {AOI_Validate, Entity_Validate, Ownership_Validate, Scheduler_Validate, Session_Validate}.
    vr_Status (v baseline postRecovery) = StatusSkip"
proof -
  have "findInt es k = - 1" if "es \<in> {baseline, postRecovery}"
    "k \<in> {EvKeyEntityCount, EvKeyGhostCount, EvKeyCmdDrops, EvKeyZoneOwnerCount, EvKeyDisconnectedCount}" for es k
    using observeAll_keys [OF assms(1,2)] observeAll_keys [OF assms(1,3)] that by (intro findInt_missing) auto
  then show ?thesis
    by (simp add: AOI_Validate_def Entity_Validate_def Ownership_Validate_def Scheduler_Validate_def Session_Validate_def result_def)
qed

definition demo_infra :: "nat Infrastructure" where
  "demo_infra = no_infra\<lparr>inf_Endpoint := (\<lambda>r w. if w = 0 then Inr ''127.0.0.1:7000'' else Inl (ErrText ''gone'')), inf_RuntimeNodes := (\<lambda>w. 3)\<rparr>"

theorem shipped_validators_skip_witness:
  "\<exists>pre post. observeAll (\<lambda>_. 7) PhaseBaseline [State_observer (\<lambda>_. 7), Metrics_observer (\<lambda>_. 7)] demo_infra 0 = (Returns (Inr pre), 0)
    \<and> observeAll (\<lambda>_. 7) PhasePostRecovery [State_observer (\<lambda>_. 7), Metrics_observer (\<lambda>_. 7)] demo_infra 0 = (Returns (Inr post), 0)
    \<and> length pre = 3 \<and> vr_Status (Entity_Validate pre post) = StatusSkip \<and> vr_Status (Ownership_Validate pre post) = StatusSkip"
proof -
  let ?obs = "[State_observer (\<lambda>_. 7), Metrics_observer (\<lambda>_. 7)]"
  have set: "set ?obs \<subseteq> set (shipped (\<lambda>_. 7))" by (simp add: shipped_def)
  obtain pre where pre: "observeAll (\<lambda>_. 7) PhaseBaseline ?obs demo_infra 0 = (Returns (Inr pre), 0)" "length pre = 3"
    by (simp add: State_observer_def Metrics_observer_def demo_infra_def)
  obtain post where post: "observeAll (\<lambda>_. 7) PhasePostRecovery ?obs demo_infra 0 = (Returns (Inr post), 0)"
    by (simp add: State_observer_def Metrics_observer_def demo_infra_def)
  show ?thesis
    using shipped_validators_skip [OF set pre(1) post] pre post by (intro exI [of _ pre] exI [of _ post]) simp
qed

subsection \<open>The scenario list and the summary\<close>

lemma validate_ids_iff:
  "validate_ids i xs seen = None \<longleftrightarrow> '''' \<notin> set xs \<and> distinct xs \<and> set xs \<inter> fset (fmdom seen) = {}"
  by (induction xs arbitrary: i seen) (auto simp: fmdom'_notI fmlookup_dom_iff split: option.split)

lemma ValidateScenarios_iff:
  "ValidateScenarios scs = None \<longleftrightarrow> (\<forall>sc \<in> set scs. md_ID (sc_Metadata sc) \<noteq> '''') \<and> distinct (map (\<lambda>sc. md_ID (sc_Metadata sc)) scs)"
  by (auto simp: ValidateScenarios_def validate_ids_iff image_iff)

definition outcomes :: "string \<Rightarrow> ValidationReport list \<Rightarrow> int" where
  "outcomes x reports = int (length (filter (\<lambda>r. vp_Outcome r = x) reports))"

definition verdicts :: "SummaryReport \<Rightarrow> int list" where
  "verdicts s = [su_Total s, su_Passed s, su_Failed s, su_Skipped s, su_TimedOut s, su_Errors s, su_TotalDuration s]"

lemma count_status_keeps [simp]:
  "verdicts (fold count_status vs s) = verdicts s" "su_Scenarios (fold count_status vs s) = su_Scenarios s"
  by (induction vs arbitrary: s) (auto simp: count_status_def verdicts_def Let_def)

lemma summarize_verdicts:
  "verdicts (summarize r s) =
     map2 (+) (verdicts s) [1, outcomes OutcomePassed [r], outcomes OutcomeFailed [r], outcomes OutcomeSkipped [r],
       outcomes OutcomeTimedOut [r], outcomes OutcomeError [r], vp_Duration r]"
  by (simp add: summarize_def Let_def) (simp add: verdicts_def count_outcome_def outcomes_def)

lemma fold_summarize_verdicts:
  "verdicts (fold summarize rs s) =
     map2 (+) (verdicts s) [int (length rs), outcomes OutcomePassed rs, outcomes OutcomeFailed rs, outcomes OutcomeSkipped rs,
       outcomes OutcomeTimedOut rs, outcomes OutcomeError rs, sum_list (map vp_Duration rs)]"
proof (induction rs arbitrary: s)
  case Nil
  show ?case by (simp add: verdicts_def outcomes_def)
next
  case (Cons r rs)
  have split: "outcomes x (r # rs) = outcomes x [r] + outcomes x rs" for x by (simp add: outcomes_def)
  show ?case by (simp add: Cons.IH summarize_verdicts) (simp add: verdicts_def split [of _])
qed

lemma fold_summarize_recovery: "su_RecoveryCount (fold summarize rs s) = su_RecoveryCount s"
proof (induction rs arbitrary: s)
  case (Cons r rs)
  have "su_RecoveryCount (fold count_status vs t) = su_RecoveryCount t" for vs t
    by (induction vs arbitrary: t) (auto simp: count_status_def Let_def)
  then have "su_RecoveryCount (summarize r s) = su_RecoveryCount s" by (simp add: summarize_def count_outcome_def Let_def)
  then show ?case by (simp add: Cons.IH)
qed simp

lemma outcomes_total:
  assumes "\<forall>r \<in> set rs. vp_Outcome r \<in> {OutcomePassed, OutcomeFailed, OutcomeSkipped, OutcomeTimedOut, OutcomeError}"
  shows "outcomes OutcomePassed rs + outcomes OutcomeFailed rs + outcomes OutcomeSkipped rs + outcomes OutcomeTimedOut rs
    + outcomes OutcomeError rs = int (length rs)"
  using assms by (induction rs) (auto simp: outcomes_def)

lemma min_max_fold:
  "fold (\<lambda>d (total, mn, mx). (total + d, if d < mn then d else mn, if mx < d then d else mx)) ds (t, lo, hi)
     = (t + sum_list ds, fold min ds lo, fold max ds (hi :: int))"
  by (induction ds arbitrary: t lo hi) (auto simp: min_def max_def)


lemma mean_between:
  assumes "ds \<noteq> []"
  shows "fold min (tl ds) (hd ds) \<le> sum_list ds div int (length ds) \<and> sum_list ds div int (length ds) \<le> fold max (tl ds) (hd ds :: int)"
proof -
  let ?n = "int (length ds)" and ?lo = "fold min (tl ds) (hd ds)" and ?hi = "fold max (tl ds) (hd ds)"
  have set: "set ds = set (hd ds # tl ds)" using assms by simp
  have lo: "?lo = Min (set ds)" and hi: "?hi = Max (set ds)" using set Min.set_eq_fold Max.set_eq_fold by metis+
  have "?n * Min (set ds) \<le> sum_list ds" "sum_list ds \<le> ?n * Max (set ds)"
    using sum_list_mono [of ds "\<lambda>_. Min (set ds)" "\<lambda>d. d"] sum_list_mono [of ds "\<lambda>d. d" "\<lambda>_. Max (set ds)"]
    by (simp_all add: sum_list_triv)
  then show ?thesis unfolding lo hi using assms
    by (metis nonzero_mult_div_cancel_left of_nat_0_le_iff zdiv_mono1 length_0_conv of_nat_0_less_iff of_nat_eq_0_iff gr0I)
qed

text \<open>
  The summary of a suite adds up: its counters are the numbers of reports with each outcome,
  their sum is the number of reports when each report has one of the five outcomes, its duration is
  the sum of theirs, and the recovery statistics, over the runs that measured a recovery, lie
  between the shortest and the longest.
\<close>

theorem summary_exact:
  assumes "\<forall>r \<in> set reports. vp_Outcome r \<in> {OutcomePassed, OutcomeFailed, OutcomeSkipped, OutcomeTimedOut, OutcomeError}"
  shows "let s = NewSummary now reports; ds = recovery_durations reports in
    su_Total s = int (length reports) \<and> su_Passed s = outcomes OutcomePassed reports \<and> su_Failed s = outcomes OutcomeFailed reports
    \<and> su_Passed s + su_Failed s + su_Skipped s + su_TimedOut s + su_Errors s = su_Total s
    \<and> su_TotalDuration s = sum_list (map vp_Duration reports)
    \<and> su_RecoveryCount s = int (length ds)
    \<and> (ds \<noteq> [] \<longrightarrow> 0 < su_MinDuration s \<and> su_MinDuration s \<le> su_MeanDuration s \<and> su_MeanDuration s \<le> su_MaxDuration s
        \<and> su_MinDuration s \<in> set ds \<and> su_MaxDuration s \<in> set ds)"
proof -
  let ?s = "fold summarize reports (new_summary now)" and ?ds = "recovery_durations reports"
  have v: "su_Total ?s = int (length reports)" "su_Passed ?s = outcomes OutcomePassed reports" "su_Failed ?s = outcomes OutcomeFailed reports"
    "su_Skipped ?s = outcomes OutcomeSkipped reports" "su_TimedOut ?s = outcomes OutcomeTimedOut reports" "su_Errors ?s = outcomes OutcomeError reports"
    "su_TotalDuration ?s = sum_list (map vp_Duration reports)"
    using fold_summarize_verdicts [of reports "new_summary now"] by (simp_all add: verdicts_def new_summary_def)
  have keep: "su_RecoveryCount ?s = 0" by (simp add: fold_summarize_recovery new_summary_def)
  show ?thesis
  proof (cases ?ds)
    case Nil
    with v keep outcomes_total [OF assms] show ?thesis by (simp add: NewSummary_def Let_def)
  next
    case (Cons d ds)
    have mm: "fold min (d # ds) d = fold min ds d" "fold max (d # ds) d = fold max ds d" by simp_all
    have eq: "fold min ds d = Min (set ?ds)" "fold max ds d = Max (set ?ds)"
      unfolding Cons Min.set_eq_fold Max.set_eq_fold by (rule refl)+
    then have "fold min ds d \<in> set ?ds" "fold max ds d \<in> set ?ds" using Cons by (metis Min_in Max_in finite_set set_empty list.distinct(1))+
    moreover have "\<forall>x \<in> set ?ds. 0 < x" by (auto simp: recovery_durations_def)
    ultimately have "fold min ds d \<in> set ?ds" "fold max ds d \<in> set ?ds" "0 < fold min ds d" by blast+
    then show ?thesis
      using v outcomes_total [OF assms] mean_between [of ?ds] Cons by (simp add: NewSummary_def Let_def min_max_fold del: fold_simps)
  qed
qed

definition demo_metadata :: ScenarioMetadata where
  "demo_metadata =
     \<lparr>md_ID = ''p1'', md_Name = ''crash'', md_Description = '''', md_Version = 1, md_Tags = [], md_Severity = ''high'', md_Mode = ''process'',
      md_Requirements = \<lparr>rq_MinRuntimeNodes = 1, rq_ComposeRequired = False, rq_PostgreSQL = False, rq_Redis = False, rq_NetworkFaults = False\<rparr>,
      md_Timeout = 60, md_ExpectedBehavior = ''recovers''\<rparr>"

definition demo_report :: "string \<Rightarrow> Duration \<Rightarrow> ValidationReport" where
  "demo_report x d =
     \<lparr>vp_Framework = \<lparr>fw_FrameworkVersion = frameworkVersion, fw_ScenarioVersion = ''1'', fw_ExecTimestamp = 0\<rparr>,
      vp_Scenario = demo_metadata, vp_Outcome = x, vp_Duration = 9, vp_Baseline = [], vp_PostRecovery = [], vp_Validations = [],
      vp_Measurement = \<lparr>ms_Tick = \<lparr>tk_Mean = 0, tk_P50 = 0, tk_P95 = 0, tk_P99 = 0, tk_Max = 0, tk_Count = 0\<rparr>,
                        ms_Recovery = \<lparr>rcv_Duration = d, rcv_OwnershipRestoredAt = 0, rcv_FirstHealthyAt = 0\<rparr>,
                        ms_Queue = fmempty, ms_Events = fmempty, ms_Drops = fmempty, ms_TickDurations = []\<rparr>,
      vp_RootCause = ''''\<rparr>"

theorem summary_exact_witness:
  "let s = NewSummary 5 [demo_report OutcomePassed 3, demo_report OutcomeTimedOut 8, demo_report OutcomeSkipped 0] in
    su_Total s = 3 \<and> su_Passed s = 1 \<and> su_Failed s = 0 \<and> su_TotalDuration s = 27 \<and> su_RecoveryCount s = 2"
  using summary_exact [of "[demo_report OutcomePassed 3, demo_report OutcomeTimedOut 8, demo_report OutcomeSkipped 0]" 5]
  by (simp add: demo_report_def Let_def outcomes_def recovery_durations_def)

end
