(* ===== verification/Room_Sweeper.thy ===== *)
theory Room_Sweeper
  imports Room_Registry
begin

section \<open>The in-memory sweeper: \<open>internal/room/sweeper.go\<close>\<close>

text \<open>
  The sweep marks the servers whose heartbeat is too old, takes their zones away and offers each to
  the least loaded server. The callback \<open>ReassignFunc\<close> is an argument: a change of the owner table;
  \<open>claim_callback\<close> is the one that claims the zone for the target.
\<close>

record SweeperConfig =
  sc_Interval :: Duration
  sc_MissThreshold :: Duration

type_synonym ReassignFunc = "string \<Rightarrow> ServerID \<Rightarrow> ZoneOwnership \<Rightarrow> ZoneOwnership"

definition sweeper_defaults :: "SweeperConfig \<Rightarrow> SweeperConfig" where
  \<comment> \<open>what \<open>NewSweeper\<close> and \<open>NewProductionSweeper\<close> put for a zero\<close>
  "sweeper_defaults cfg =
     (let cfg = (if sc_Interval cfg = 0 then cfg\<lparr>sc_Interval := 5 * Second\<rparr> else cfg)
      in if sc_MissThreshold cfg = 0 then cfg\<lparr>sc_MissThreshold := 15 * Second\<rparr> else cfg)"

record Sweeper =
  sw_reg :: ServerRegistry
  sw_zo :: ZoneOwnership
  sw_cfg :: SweeperConfig
  sw_reassign :: "ReassignFunc option"

definition NewSweeper :: "ServerRegistry \<Rightarrow> ZoneOwnership \<Rightarrow> SweeperConfig \<Rightarrow> ReassignFunc option \<Rightarrow> Sweeper" where
  "NewSweeper reg zo cfg reassign =
     \<lparr>sw_reg = reg, sw_zo = zo, sw_cfg = sweeper_defaults cfg, sw_reassign = reassign\<rparr>"

definition reassign_orphan :: "order \<Rightarrow> string \<Rightarrow> Sweeper \<Rightarrow> Sweeper" where
  "reassign_orphan ord zoneID s =
     (case reg_LeastLoaded ord (sw_reg s) of
        None \<Rightarrow> s
      | Some target \<Rightarrow>
          (case sw_reassign s of
             None \<Rightarrow> s
           | Some reassign \<Rightarrow> s\<lparr>sw_zo := reassign zoneID (nd_NodeID target) (sw_zo s)\<rparr>))"

definition reassignZonesOf :: "(string \<Rightarrow> order) \<Rightarrow> ServerID \<Rightarrow> Sweeper \<Rightarrow> Sweeper" where
  "reassignZonesOf ord dead s =
     (let orphaned = filter (\<lambda>z. fmlookup (sw_zo s) z = Some dead) (ord ''zones'' (fmdom' (sw_zo s)));
          s = s\<lparr>sw_zo := fold fmdrop orphaned (sw_zo s)\<rparr>
      in fold (\<lambda>z. reassign_orphan (ord z) z) orphaned s)"

definition stale :: "Time \<Rightarrow> Duration \<Rightarrow> NodeDescriptor \<Rightarrow> bool" where
  "stale now threshold info \<longleftrightarrow>
     nd_Status info \<noteq> ServerStatusShutdown \<and> threshold < time_Sub now (nd_LastHeartbeat info)"

definition mark_shutdown :: "ServerID \<Rightarrow> ServerRegistry \<Rightarrow> ServerRegistry" where
  "mark_shutdown i reg =
     (case fmlookup reg i of
        None \<Rightarrow> reg
      | Some info \<Rightarrow> fmupd i (info\<lparr>nd_Status := ServerStatusShutdown\<rparr>) reg)"

definition sweep_dead :: "(string \<Rightarrow> order) \<Rightarrow> ServerID \<Rightarrow> Sweeper \<Rightarrow> Sweeper" where
  "sweep_dead ord i s = reassignZonesOf ord i (s\<lparr>sw_reg := mark_shutdown i (sw_reg s)\<rparr>)"

definition dead_servers :: "order \<Rightarrow> Time \<Rightarrow> Sweeper \<Rightarrow> ServerID list" where
  "dead_servers ord now s =
     filter (\<lambda>i. stale now (sc_MissThreshold (sw_cfg s)) (fm_get zero_node (sw_reg s) i)) (ord (fmdom' (sw_reg s)))"

definition sweep :: "(string \<Rightarrow> order) \<Rightarrow> Time \<Rightarrow> Sweeper \<Rightarrow> Sweeper" where
  "sweep ord now s = fold (\<lambda>i. sweep_dead (\<lambda>l. ord (i @ l)) i) (dead_servers (ord ''nodes'') now s) s"

fun sweeper_Run :: "((string \<Rightarrow> order) \<times> Time) list \<Rightarrow> Sweeper \<Rightarrow> Sweeper" where
  \<comment> \<open>the loop: one sweep for each firing of the ticker\<close>
  "sweeper_Run [] s = s"
| "sweeper_Run ((ord, now) # fires) s = sweeper_Run fires (sweep ord now s)"

definition claim_callback :: ReassignFunc where
  "claim_callback zoneID target zo = snd (zo_Claim zoneID target zo)"

subsection \<open>The registry during a sweep\<close>

lemma mark_shutdown_lookup [simp]:
  "fmlookup (mark_shutdown i reg) j =
     (if i = j then map_option (\<lambda>n. n\<lparr>nd_Status := ServerStatusShutdown\<rparr>) (fmlookup reg j) else fmlookup reg j)"
  by (simp add: mark_shutdown_def split: option.split)

lemma reassign_orphan_frame [simp]:
  "sw_reg (reassign_orphan ord z s) = sw_reg s" "sw_cfg (reassign_orphan ord z s) = sw_cfg s"
  "sw_reassign (reassign_orphan ord z s) = sw_reassign s"
  by (simp_all add: reassign_orphan_def split: option.split)

lemma reassignZonesOf_frame [simp]:
  "sw_reg (reassignZonesOf ord i s) = sw_reg s" "sw_cfg (reassignZonesOf ord i s) = sw_cfg s"
  "sw_reassign (reassignZonesOf ord i s) = sw_reassign s"
  unfolding reassignZonesOf_def Let_def by (subst fold_preserves; simp)+

lemma sweep_dead_frame [simp]:
  "sw_reg (sweep_dead ord i s) = mark_shutdown i (sw_reg s)" "sw_cfg (sweep_dead ord i s) = sw_cfg s"
  "sw_reassign (sweep_dead ord i s) = sw_reassign s"
  by (simp_all add: sweep_dead_def)

lemma mark_shutdown_keys: "reg_keys reg \<Longrightarrow> reg_keys (mark_shutdown i reg)"
  by (auto simp: reg_keys_def split: if_splits)

lemma mark_shutdown_accept: "fmlookup (mark_shutdown i reg) i = Some n \<Longrightarrow> \<not> CanAccept n"
  by (auto simp: CanAccept_def)

lemma dead_servers_set:
  assumes "is_order ord"
  shows "i \<in> set (dead_servers ord now s) \<longleftrightarrow>
    (\<exists>n. fmlookup (sw_reg s) i = Some n \<and> stale now (sc_MissThreshold (sw_cfg s)) n)"
  using assms by (auto simp: dead_servers_def fmlookup_dom'_iff)

subsection \<open>The owners during a sweep\<close>

lemma fold_fmdrop_lookup: "fmlookup (fold fmdrop xs m) k = (if k \<in> set xs then None else fmlookup m k)"
  by (induction xs arbitrary: m) auto

definition someone_accepts :: "ServerRegistry \<Rightarrow> bool" where
  "someone_accepts reg \<longleftrightarrow> (\<exists>i n. fmlookup reg i = Some n \<and> CanAccept n)"

definition rehomed :: "ServerRegistry \<Rightarrow> ServerID option \<Rightarrow> bool" where
  \<comment> \<open>the owner is a server that can accept the zone; there is none only if no server can\<close>
  "rehomed reg w \<longleftrightarrow> (case w of None \<Rightarrow> \<not> someone_accepts reg | Some t \<Rightarrow> \<exists>n. fmlookup reg t = Some n \<and> CanAccept n)"

lemma reassign_orphan_claims:
  assumes "is_order ord" "reg_keys (sw_reg s)" "sw_reassign s = Some claim_callback" "fmlookup (sw_zo s) z = None"
  shows "rehomed (sw_reg s) (fmlookup (sw_zo (reassign_orphan ord z s)) z)
    \<and> (\<forall>y. y \<noteq> z \<longrightarrow> fmlookup (sw_zo (reassign_orphan ord z s)) y = fmlookup (sw_zo s) y)"
proof (cases "reg_LeastLoaded ord (sw_reg s)")
  case None
  with assms reg_LeastLoaded_None [OF assms(1) None] show ?thesis
    by (auto simp: reassign_orphan_def rehomed_def someone_accepts_def)
next
  case (Some n)
  with reg_LeastLoaded_Some [OF assms(1) Some] obtain i where n: "fmlookup (sw_reg s) i = Some n" "CanAccept n" by blast
  with assms Some show ?thesis
    using reg_keysD [OF assms(2) n(1)]
    by (auto simp: reassign_orphan_def rehomed_def claim_callback_def zo_Claim_def fm_has_def)
qed

lemma fold_reassign:
  assumes "\<And>l. is_order (ord l)" "reg_keys (sw_reg s)" "sw_reassign s = Some claim_callback"
    and "distinct zs" "\<forall>z \<in> set zs. fmlookup (sw_zo s) z = None"
  shows "fmlookup (sw_zo (fold (\<lambda>z. reassign_orphan (ord z) z) zs s)) y = fmlookup (sw_zo s) y
      \<and> y \<notin> set zs
    \<or> rehomed (sw_reg s) (fmlookup (sw_zo (fold (\<lambda>z. reassign_orphan (ord z) z) zs s)) y) \<and> y \<in> set zs"
  using assms(2-)
proof (induction zs arbitrary: s)
  case (Cons z zs)
  let ?s = "reassign_orphan (ord z) z s"
  have z: "rehomed (sw_reg s) (fmlookup (sw_zo ?s) z)" "\<And>y. y \<noteq> z \<Longrightarrow> fmlookup (sw_zo ?s) y = fmlookup (sw_zo s) y"
    using reassign_orphan_claims [OF assms(1) Cons.prems(1,2), of z] Cons.prems(4) by auto
  have "\<forall>y \<in> set zs. fmlookup (sw_zo ?s) y = None"
  proof
    fix y assume y: "y \<in> set zs"
    then have "y \<noteq> z" using Cons.prems(3) by auto
    with y z(2) Cons.prems(4) show "fmlookup (sw_zo ?s) y = None" by simp
  qed
  from Cons.IH [OF _ _ _ this] Cons.prems z show ?case by (cases "y = z") auto
qed simp

lemma reassignZonesOf_owner:
  assumes "\<And>l. is_order (ord l)" "reg_keys (sw_reg s)" "sw_reassign s = Some claim_callback"
  shows "if fmlookup (sw_zo s) y = Some dead then rehomed (sw_reg s) (fmlookup (sw_zo (reassignZonesOf ord dead s)) y)
         else fmlookup (sw_zo (reassignZonesOf ord dead s)) y = fmlookup (sw_zo s) y"
proof -
  define zs where "zs = filter (\<lambda>z. fmlookup (sw_zo s) z = Some dead) (ord ''zones'' (fmdom' (sw_zo s)))"
  let ?s = "s\<lparr>sw_zo := fold fmdrop zs (sw_zo s)\<rparr>"
  have zs: "distinct zs" "y \<in> set zs \<longleftrightarrow> fmlookup (sw_zo s) y = Some dead"
    using assms(1) by (auto simp: zs_def fmlookup_dom'_iff)
  have "\<forall>z \<in> set zs. fmlookup (sw_zo ?s) z = None" by (simp add: fold_fmdrop_lookup)
  from fold_reassign [of ord ?s zs y, OF assms(1) _ _ zs(1) this] assms(2,3) zs(2) show ?thesis
    by (auto simp: reassignZonesOf_def Let_def zs_def [symmetric] fold_fmdrop_lookup)
qed

definition sweep_state :: "ServerRegistry \<Rightarrow> ZoneOwnership \<Rightarrow> ServerID set \<Rightarrow> Sweeper \<Rightarrow> bool" where
  \<comment> \<open>the state of a sweep that has dealt with the servers \<open>D\<close>\<close>
  "sweep_state reg zo D s \<longleftrightarrow> sw_reassign s = Some claim_callback \<and> reg_keys (sw_reg s)
     \<and> (\<forall>i. fmlookup (sw_reg s) i = (if i \<in> D then map_option (\<lambda>n. n\<lparr>nd_Status := ServerStatusShutdown\<rparr>) (fmlookup reg i)
                                       else fmlookup reg i))
     \<and> (\<forall>y. if \<exists>d \<in> D. fmlookup zo y = Some d then rehomed (sw_reg s) (fmlookup (sw_zo s) y)
             else fmlookup (sw_zo s) y = fmlookup zo y)"


lemma rehomed_mark: "rehomed reg w \<Longrightarrow> w \<noteq> Some d \<Longrightarrow> rehomed (mark_shutdown d reg) w"
  by (auto simp: rehomed_def someone_accepts_def CanAccept_def split: option.splits if_splits)

lemma sweep_state_step:
  assumes "\<And>l. is_order (ord l)" "sweep_state reg zo D s" "d \<notin> D"
  shows "sweep_state reg zo (insert d D) (sweep_dead ord d s)"
proof -
  let ?s = "s\<lparr>sw_reg := mark_shutdown d (sw_reg s)\<rparr>"
  have s: "sw_reassign s = Some claim_callback" "reg_keys (sw_reg s)"
    "\<And>i. fmlookup (sw_reg s) i = (if i \<in> D then map_option (\<lambda>n. n\<lparr>nd_Status := ServerStatusShutdown\<rparr>) (fmlookup reg i)
                                       else fmlookup reg i)"
    "\<And>y. if \<exists>d \<in> D. fmlookup zo y = Some d then rehomed (sw_reg s) (fmlookup (sw_zo s) y)
             else fmlookup (sw_zo s) y = fmlookup zo y"
    using assms(2) by (simp_all add: sweep_state_def)
  have own: "if fmlookup (sw_zo s) y = Some d then rehomed (mark_shutdown d (sw_reg s)) (fmlookup (sw_zo (sweep_dead ord d s)) y)
      else fmlookup (sw_zo (sweep_dead ord d s)) y = fmlookup (sw_zo s) y" for y
    using reassignZonesOf_owner [of ord ?s y d, OF assms(1)] s(1,2) mark_shutdown_keys
    by (simp add: sweep_dead_def split: if_splits)
  have "if \<exists>d' \<in> insert d D. fmlookup zo y = Some d' then rehomed (mark_shutdown d (sw_reg s)) (fmlookup (sw_zo (sweep_dead ord d s)) y)
      else fmlookup (sw_zo (sweep_dead ord d s)) y = fmlookup zo y" for y
  proof (cases "fmlookup (sw_zo s) y = Some d")
    case True
    with own [of y] s(4) [of y] show ?thesis by (auto split: if_splits)
  next
    case False
    with own [of y] s(4) [of y] rehomed_mark [OF _ False, of "sw_reg s"] show ?thesis by (auto split: if_splits)
  qed
  with s(1-3) mark_shutdown_keys [OF s(2), of d] assms(3) show ?thesis
    unfolding sweep_state_def by (intro conjI allI) auto
qed

lemma sweep_state_fold:
  assumes "\<And>l. is_order (ord l)" "sweep_state reg zo D s" "distinct ds" "set ds \<inter> D = {}"
  shows "sweep_state reg zo (D \<union> set ds) (fold (\<lambda>i. sweep_dead (\<lambda>l. ord (i @ l)) i) ds s)"
  using assms(2-)
proof (induction ds arbitrary: D s)
  case (Cons d ds)
  have "sweep_state reg zo (insert d D) (sweep_dead (\<lambda>l. ord (d @ l)) d s)"
    using sweep_state_step [of "\<lambda>l. ord (d @ l)", OF assms(1) Cons.prems(1), of d] Cons.prems(3) by auto
  from Cons.IH [OF this] Cons.prems(2,3) show ?case by auto
qed simp


lemma reg_keys_demo: "reg_keys (fmupd ''a'' (demo_node ''a'' 0) (fmupd ''b'' ((demo_node ''b'' 0)\<lparr>nd_LastHeartbeat := 100 * Second\<rparr>) fmempty))"
  by (auto simp: reg_keys_def split: if_splits)


end
