(* ===== verification/Room_Service.thy ===== *)
theory Room_Service
  imports Room_Sweeper
begin

section \<open>The room service: \<open>store.go\<close>, \<open>sweeper_production.go\<close>, \<open>apps/room-service\<close>\<close>

text \<open>
  The handlers of the room service and the sweeper that runs beside them. Both are written against
  the interfaces \<open>ServerStore\<close>, \<open>ZoneStore\<close> and \<open>Allocator\<close>; an interface is a record of its methods
  over the state \<open>'s\<close> of the stores. The optional interfaces the sweeper asks for with a type
  assertion are optional fields. The locale \<open>room_stores\<close> is the contract of the stores; \<open>Storage\<close>
  interprets it on the repositories.
\<close>

subsection \<open>The store interfaces\<close>

record 's ServerStore =
  ss_Register :: "NodeDescriptor \<Rightarrow> 's \<Rightarrow> error option \<times> 's"
  ss_Heartbeat :: "ServerID \<Rightarrow> NodeLoad \<Rightarrow> 's \<Rightarrow> error option \<times> 's"
  ss_Get :: "ServerID \<Rightarrow> 's \<Rightarrow> error + NodeDescriptor"
  ss_List :: "'s \<Rightarrow> error + NodeDescriptor list"
  ss_Remove :: "ServerID \<Rightarrow> 's \<Rightarrow> error option \<times> 's"
  ss_ListDead :: "(Duration \<Rightarrow> 's \<Rightarrow> error + ServerID list) option"
  ss_MarkShutdown :: "(ServerID \<Rightarrow> 's \<Rightarrow> error option \<times> 's) option"

record 's ZoneStore =
  zs_Claim :: "string \<Rightarrow> RuntimeID \<Rightarrow> ServerID \<Rightarrow> 's \<Rightarrow> error option \<times> 's"
  zs_Release :: "string \<Rightarrow> ServerID \<Rightarrow> 's \<Rightarrow> error option \<times> 's"
  zs_Lookup :: "string \<Rightarrow> 's \<Rightarrow> error + ServerID"
  zs_ListByServer :: "(ServerID \<Rightarrow> 's \<Rightarrow> error + string list) option"

type_synonym Allocator = "NodeDescriptor option list \<Rightarrow> error + NodeDescriptor"

record 's roomServiceServer =
  rs_servers :: "'s ServerStore"
  rs_zones :: "'s ZoneStore"
  rs_allocator :: Allocator

subsection \<open>The handlers\<close>

record RegisterRequest =
  rrq_server_id :: string
  rrq_host :: string
  rrq_port :: int
  rrq_max_zones :: int
  rrq_advertise_addr :: string
  rrq_version :: string
  rrq_build :: string
  rrq_labels :: "(string, string) fmap"

definition rs_Register :: "'s roomServiceServer \<Rightarrow> RegisterRequest \<Rightarrow> 's \<Rightarrow> bool \<times> 's" where
  \<comment> \<open>the field \<open>success\<close> of the response; the handler never returns an error\<close>
  "rs_Register s req st =
     (let r = ss_Register (rs_servers s)
          (zero_node\<lparr>nd_NodeID := rrq_server_id req, nd_AdvertiseAddr := rrq_advertise_addr req,
             nd_Host := rrq_host req, nd_Port := rrq_port req, nd_Version := rrq_version req, nd_Build := rrq_build req,
             nd_Capacity := \<lparr>cap_MaxZones = rrq_max_zones req, cap_MaxEntities = 0\<rparr>, nd_Labels := rrq_labels req\<rparr>) st
      in (fst r = None, snd r))"

record HeartbeatRequest =
  hbr_node_id :: string
  hbr_active_entities :: int
  hbr_active_spaces :: int
  hbr_connected_users :: int
  hbr_queue_depth :: int
  hbr_tick_duration_ms :: float64

definition rs_Heartbeat :: "'s roomServiceServer \<Rightarrow> HeartbeatRequest \<Rightarrow> 's \<Rightarrow> bool \<times> 's" where
  "rs_Heartbeat s req st =
     (let r = ss_Heartbeat (rs_servers s) (hbr_node_id req)
          (zero_load\<lparr>ld_ActiveEntities := hbr_active_entities req, ld_ActiveSpaces := hbr_active_spaces req,
             ld_ConnectedUsers := hbr_connected_users req, ld_QueueDepth := hbr_queue_depth req,
             ld_TickDurationMs := hbr_tick_duration_ms req\<rparr>) st
      in (fst r = None, snd r))"

record LookupZoneResponse =
  lzr_server :: string
  lzr_advertise_addr :: string
  lzr_host :: string
  lzr_port :: int

definition lookup_response :: "NodeDescriptor \<Rightarrow> LookupZoneResponse" where
  "lookup_response n = \<lparr>lzr_server = nd_NodeID n, lzr_advertise_addr = node_Address n, lzr_host = '''', lzr_port = 0\<rparr>"

definition lookup_owner :: "'s roomServiceServer \<Rightarrow> string \<Rightarrow> 's \<Rightarrow> NodeDescriptor option" where
  \<comment> \<open>the first part: the descriptor of the owner, if both are known\<close>
  "lookup_owner s zoneID st =
     (case zs_Lookup (rs_zones s) zoneID st of
        Inl err \<Rightarrow> None
      | Inr serverID \<Rightarrow> (case ss_Get (rs_servers s) serverID st of Inl err \<Rightarrow> None | Inr info \<Rightarrow> Some info))"

definition no_servers :: "string \<Rightarrow> error" where
  "no_servers zoneID = ErrStatus 14 (''no servers available for zone '' @ zoneID)"

definition rs_LookupZone :: "'s roomServiceServer \<Rightarrow> string \<Rightarrow> 's \<Rightarrow> (error + LookupZoneResponse) \<times> 's" where
  "rs_LookupZone s zoneID st =
     (case lookup_owner s zoneID st of
        Some info \<Rightarrow> (Inr (lookup_response info), st)
      | None \<Rightarrow>
          (case ss_List (rs_servers s) st of
             Inl err \<Rightarrow> (Inl (no_servers zoneID), st)
           | Inr nodes \<Rightarrow>
               if nodes = [] then (Inl (no_servers zoneID), st)
               else
                 (case rs_allocator s (map Some nodes) of
                    Inl err \<Rightarrow> (Inl (no_servers zoneID), st)
                  | Inr server \<Rightarrow>
                      (case zs_Claim (rs_zones s) zoneID '''' (nd_NodeID server) st of
                         (Some err, st) \<Rightarrow>
                           (Inl (ErrStatus 13 (''claim zone '' @ zoneID @ '': '' @ error_Error err)), st)
                       | (None, st) \<Rightarrow> (Inr (lookup_response server), st)))))"

datatype watch_event =
    CtxDone error        \<comment> \<open>the context of the stream is done\<close>
  | ChangeReady          \<comment> \<open>the channel of the watcher has a change\<close>
  | Elsewhere wf_op      \<comment> \<open>another user of the fan-out acts\<close>

datatype watch_result = Watching | Returned "error option"

fun watch_loop :: "(OwnershipChange \<Rightarrow> error option) \<Rightarrow> order \<Rightarrow> string \<Rightarrow> watch_event list \<Rightarrow> WatcherFanout
    \<Rightarrow> watch_result \<times> OwnershipChange list \<times> WatcherFanout" where
  \<comment> \<open>the loop of the handler of watcher \<open>i\<close>, which unsubscribes when it returns; \<open>send\<close> is the send
      on the stream, and the changes sent are part of the result\<close>
  "watch_loop send ord i [] f = (Watching, [], f)"
| "watch_loop send ord i (CtxDone e # evs) f = (Returned (Some e), [], wf_Unsubscribe i f)"
| "watch_loop send ord i (Elsewhere x # evs) f = watch_loop send ord i evs (wf_step ord x f)"
| "watch_loop send ord i (ChangeReady # evs) f =
     (case wf_Recv i f of
        (None, f) \<Rightarrow> watch_loop send ord i evs f
      | (Some change, f) \<Rightarrow>
          (case send change of
             Some err \<Rightarrow> (Returned (Some err), [], wf_Unsubscribe i f)
           | None \<Rightarrow> (case watch_loop send ord i evs f of (r, sent, f) \<Rightarrow> (r, change # sent, f))))"

definition rs_WatchOwnership :: "(OwnershipChange \<Rightarrow> error option) \<Rightarrow> order \<Rightarrow> watch_event list \<Rightarrow> WatcherFanout
    \<Rightarrow> watch_result \<times> OwnershipChange list \<times> WatcherFanout" where
  "rs_WatchOwnership send ord evs f = (case wf_Subscribe f of (i, f) \<Rightarrow> watch_loop send ord i evs f)"

subsection \<open>The production sweeper\<close>

record 's ProductionSweeper =
  ps_servers :: "'s ServerStore"
  ps_zones :: "'s ZoneStore"
  ps_allocator :: Allocator
  ps_cfg :: SweeperConfig

definition NewProductionSweeper :: "'s ServerStore \<Rightarrow> 's ZoneStore \<Rightarrow> Allocator \<Rightarrow> SweeperConfig \<Rightarrow> 's ProductionSweeper" where
  "NewProductionSweeper servers zones alloc cfg =
     \<lparr>ps_servers = servers, ps_zones = zones, ps_allocator = alloc, ps_cfg = sweeper_defaults cfg\<rparr>"

type_synonym 's sweep_world = "'s \<times> WatcherFanout option"

definition change_for :: "string \<Rightarrow> NodeDescriptor \<Rightarrow> OwnershipChange" where
  "change_for zoneID target =
     \<lparr>oc_zone_id = zoneID, oc_server_id = nd_NodeID target, oc_host = nd_Host target, oc_port = to_int32 (nd_Port target)\<rparr>"

definition ps_rehome :: "'s ProductionSweeper \<Rightarrow> order \<Rightarrow> ServerID \<Rightarrow> string \<Rightarrow> 's sweep_world \<Rightarrow> 's sweep_world" where
  \<comment> \<open>one round of the loop over the zones of a dead server\<close>
  "ps_rehome s ord dead zoneID w =
     (case zs_Release (ps_zones s) zoneID dead (fst w) of
        (Some err, st) \<Rightarrow> (st, snd w)
      | (None, st) \<Rightarrow>
          (case ss_List (ps_servers s) st of
             Inl err \<Rightarrow> (st, snd w)
           | Inr nodes \<Rightarrow>
               if nodes = [] then (st, snd w)
               else
                 (case ps_allocator s (map Some nodes) of
                    Inl err \<Rightarrow> (st, snd w)
                  | Inr target \<Rightarrow>
                      (case zs_Claim (ps_zones s) zoneID '''' (nd_NodeID target) st of
                         (Some err, st) \<Rightarrow> (st, snd w)
                       | (None, st) \<Rightarrow> (st, map_option (wf_Broadcast ord (change_for zoneID target)) (snd w))))))"

definition reassignZonesFor :: "'s ProductionSweeper \<Rightarrow> order \<Rightarrow> ServerID \<Rightarrow> 's sweep_world \<Rightarrow> 's sweep_world" where
  "reassignZonesFor s ord dead w =
     (case zs_ListByServer (ps_zones s) of
        None \<Rightarrow> w
      | Some listByServer \<Rightarrow>
          (case listByServer dead (fst w) of
             Inl err \<Rightarrow> w
           | Inr zoneIDs \<Rightarrow> fold (ps_rehome s ord dead) zoneIDs w))"

definition ps_dead :: "'s ProductionSweeper \<Rightarrow> order \<Rightarrow> ServerID \<Rightarrow> 's sweep_world \<Rightarrow> 's sweep_world" where
  "ps_dead s ord deadID w =
     (case ss_MarkShutdown (ps_servers s) of
        None \<Rightarrow> reassignZonesFor s ord deadID w
      | Some markShutdown \<Rightarrow>
          (case markShutdown deadID (fst w) of
             (Some err, st) \<Rightarrow> (st, snd w)
           | (None, st) \<Rightarrow> reassignZonesFor s ord deadID (st, snd w)))"

definition ps_sweep :: "'s ProductionSweeper \<Rightarrow> order \<Rightarrow> 's sweep_world \<Rightarrow> 's sweep_world" where
  \<comment> \<open>a store that lists dead servers implements \<open>MarkShutdown\<close> as well\<close>
  "ps_sweep s ord w =
     (case (ss_ListDead (ps_servers s), ss_MarkShutdown (ps_servers s)) of
        (Some listDead, Some _) \<Rightarrow>
          (case listDead (sc_MissThreshold (ps_cfg s)) (fst w) of
             Inl err \<Rightarrow> w
           | Inr dead \<Rightarrow> fold (ps_dead s ord) dead w)
      | _ \<Rightarrow> w)"

fun ps_Run :: "'s ProductionSweeper \<Rightarrow> (order \<times> ('s \<Rightarrow> 's)) list \<Rightarrow> 's sweep_world \<Rightarrow> 's sweep_world" where
  \<comment> \<open>the loop: at each firing of the ticker the stores have moved on, then one sweep\<close>
  "ps_Run s [] w = w"
| "ps_Run s ((ord, meanwhile) # fires) w = ps_Run s fires (ps_sweep s ord (meanwhile (fst w), snd w))"


subsection \<open>The contract of the stores\<close>

definition homed :: "ServerID set \<Rightarrow> ServerID option \<Rightarrow> bool" where
  \<comment> \<open>an owner among the servers \<open>A\<close>; there is none only if there is no such server\<close>
  "homed A w \<longleftrightarrow> (case w of None \<Rightarrow> A = {} | Some t \<Rightarrow> t \<in> A)"

locale room_stores = ownership inv owner "\<lambda>z. zs_Claim Z z ''''" "zs_Release Z" + allocator alloc
  for inv :: "'s \<Rightarrow> bool" and owner :: "'s \<Rightarrow> string \<Rightarrow> ServerID option" and Z :: "'s ZoneStore" and alloc :: Allocator +
  fixes S :: "'s ServerStore"
    and accepting :: "'s \<Rightarrow> ServerID set"            \<comment> \<open>the servers that can take a zone\<close>
    and known :: "'s \<Rightarrow> string set"                  \<comment> \<open>the zones of the store\<close>
    and dead :: "Duration \<Rightarrow> 's \<Rightarrow> ServerID set"     \<comment> \<open>the servers silent for too long\<close>
    and list_dead :: "Duration \<Rightarrow> 's \<Rightarrow> error + ServerID list"
    and mark :: "ServerID \<Rightarrow> 's \<Rightarrow> error option \<times> 's"
    and list_by :: "ServerID \<Rightarrow> 's \<Rightarrow> error + string list"
  assumes optional: "ss_ListDead S = Some list_dead" "ss_MarkShutdown S = Some mark" "zs_ListByServer Z = Some list_by"
    and lookup_iff: "inv s \<Longrightarrow> zs_Lookup Z z s = Inr sid \<longleftrightarrow> owner s z = Some sid"
    and get_owner: "inv s \<Longrightarrow> owner s z = Some sid \<Longrightarrow> \<exists>n. ss_Get S sid s = Inr n \<and> nd_NodeID n = sid"
    and list_accepting: "inv s \<Longrightarrow> \<exists>ns. ss_List S s = Inr ns \<and> image nd_NodeID {n \<in> set ns. CanAccept n} = accepting s"
    and accepting_named: "inv s \<Longrightarrow> '''' \<notin> accepting s"
    and claim_free: "inv s \<Longrightarrow> z \<in> known s \<Longrightarrow> owner s z = None \<Longrightarrow> sid \<in> accepting s \<Longrightarrow> fst (zs_Claim Z z '''' sid s) = None"
    and owned_known: "inv s \<Longrightarrow> owner s z = Some sid \<Longrightarrow> z \<in> known s"
    and claim_frame: "inv s \<Longrightarrow> sid \<noteq> '''' \<Longrightarrow> accepting (snd (zs_Claim Z z '''' sid s)) = accepting s
          \<and> known (snd (zs_Claim Z z '''' sid s)) = known s"
    and release_frame: "inv s \<Longrightarrow> sid \<noteq> '''' \<Longrightarrow> accepting (snd (zs_Release Z z sid s)) = accepting s
          \<and> known (snd (zs_Release Z z sid s)) = known s"
    and mark_ok: "inv s \<Longrightarrow> \<exists>s'. mark d s = (None, s') \<and> inv s' \<and> owner s' = owner s \<and> known s' = known s
          \<and> accepting s' = accepting s - {d}"
    and list_by_ok: "inv s \<Longrightarrow> d \<noteq> '''' \<Longrightarrow> \<exists>zs. list_by d s = Inr zs \<and> distinct zs \<and> set zs = {z. owner s z = Some d}"
    and list_dead_ok: "inv s \<Longrightarrow> \<exists>ds. list_dead th s = Inr ds \<and> distinct ds \<and> set ds = dead th s"
    and dead_named: "inv s \<Longrightarrow> '''' \<notin> dead th s"
begin

lemma accepting_select:
  assumes "inv s" "ss_List S s = Inr ns" "alloc (map Some ns) = Inr n"
  shows "nd_NodeID n \<in> accepting s \<and> nd_NodeID n \<noteq> ''''"
proof -
  have "image nd_NodeID {n \<in> set ns. CanAccept n} = accepting s" using list_accepting [OF assms(1)] assms(2) by auto
  with select_of_nodes [OF assms(3)] have "nd_NodeID n \<in> accepting s" by blast
  with accepting_named [OF assms(1)] show ?thesis by metis
qed

lemma accepting_empty:
  assumes "inv s" "ss_List S s = Inr ns" "ns = [] \<or> alloc (map Some ns) = Inl e"
  shows "accepting s = {}"
  using list_accepting [OF assms(1)] assms(2,3) select_fails [of ns e] by auto

lemma lookup_owned:
  assumes "inv s" "owner s z = Some sid"
  shows "\<exists>n. rs_LookupZone \<lparr>rs_servers = S, rs_zones = Z, rs_allocator = alloc\<rparr> z s = (Inr (lookup_response n), s)
    \<and> nd_NodeID n = sid"
  using lookup_iff [OF assms(1), of z sid] assms(2) get_owner [OF assms]
  by (auto simp: rs_LookupZone_def lookup_owner_def)

lemma lookup_free:
  assumes "inv s" "owner s z = None"
  defines "r \<equiv> rs_LookupZone \<lparr>rs_servers = S, rs_zones = Z, rs_allocator = alloc\<rparr> z s"
  shows "inv (snd r) \<and> (case fst r of
      Inr resp \<Rightarrow> lzr_server resp \<in> accepting s \<and> owner (snd r) = (owner s)(z := Some (lzr_server resp))
    | Inl e \<Rightarrow> owner (snd r) = owner s \<and> (z \<in> known s \<longrightarrow> accepting s = {}))"
proof -
  have none: "lookup_owner \<lparr>rs_servers = S, rs_zones = Z, rs_allocator = alloc\<rparr> z s = None"
    using lookup_iff [OF assms(1), of z] assms(2) by (simp add: lookup_owner_def split: sum.split)
  obtain ns where ns: "ss_List S s = Inr ns" using list_accepting [OF assms(1)] by blast
  show ?thesis
  proof (cases "ns = [] \<or> (\<exists>e. alloc (map Some ns) = Inl e)")
    case True
    with accepting_empty [OF assms(1) ns] none ns assms(1) show ?thesis by (auto simp: r_def rs_LookupZone_def)
  next
    case False
    then obtain n where n: "alloc (map Some ns) = Inr n" by (metis sum.exhaust)
    note acc = accepting_select [OF assms(1) ns n]
    let ?c = "zs_Claim Z z '''' (nd_NodeID n) s"
    have inv': "inv (snd ?c)" using claim_inv [OF assms(1)] acc by blast
    have r: "r = (case ?c of (Some err, st) \<Rightarrow>
        (Inl (ErrStatus 13 (''claim zone '' @ z @ '': '' @ error_Error err)), st)
      | (None, st) \<Rightarrow> (Inr (lookup_response n), st))"
      using none ns n False by (simp add: r_def rs_LookupZone_def)
    obtain x st' where c: "?c = (x, st')" by (cases ?c)
    show ?thesis
    proof (cases x)
      case None
      with c claim_ok [OF assms(1) conjunct2 [OF acc], of z] r acc inv' show ?thesis by (simp add: lookup_response_def)
    next
      case (Some e)
      with c claim_err [OF assms(1) conjunct2 [OF acc], of z e] claim_free [OF assms(1) _ assms(2) conjunct1 [OF acc]] r inv'
      show ?thesis by auto
    qed
  qed
qed

lemma rehome:
  fixes ord f
  assumes "inv s" "owner s z = Some d" "d \<notin> accepting s" "d \<noteq> ''''"
    and "ps_servers P = S" "ps_zones P = Z" "ps_allocator P = alloc"
  defines "s' \<equiv> fst (ps_rehome P ord d z (s, f))"
  shows "inv s' \<and> accepting s' = accepting s \<and> known s' = known s
    \<and> (\<exists>w. owner s' = (owner s)(z := w) \<and> (case w of None \<Rightarrow> accepting s = {} | Some t \<Rightarrow> t \<in> accepting s))"
proof -
  let ?rel = "zs_Release Z z d s"
  obtain x s1 where rel: "?rel = (x, s1)" by (cases ?rel)
  have x: "x = None" using release_err [OF assms(1,4), of z] assms(2) rel by (cases x) auto
  have s1: "inv s1" "accepting s1 = accepting s" "known s1 = known s" "owner s1 = (owner s)(z := None)"
    using release_inv [OF assms(1,4), of z] release_frame [OF assms(1,4), of z] release_ok [OF assms(1,4), of z] rel x
    by auto
  obtain ns where ns: "ss_List S s1 = Inr ns" using list_accepting [OF s1(1)] by blast
  show ?thesis
  proof (cases "ns = [] \<or> (\<exists>e. alloc (map Some ns) = Inl e)")
    case True
    then have "s' = s1" using rel x ns assms(5-7) by (auto simp: s'_def ps_rehome_def)
    moreover have "accepting s = {}" using True accepting_empty [OF s1(1) ns] s1(2) by auto
    ultimately show ?thesis using s1 by (intro conjI exI [of _ None]) simp_all
  next
    case False
    then obtain n where n: "alloc (map Some ns) = Inr n" by (metis sum.exhaust)
    have acc: "nd_NodeID n \<in> accepting s1" "nd_NodeID n \<noteq> ''''" using accepting_select [OF s1(1) ns n] by auto
    have "z \<in> known s1" "owner s1 z = None" using owned_known [OF assms(1,2)] s1(3,4) by auto
    from claim_free [OF s1(1) this acc(1)] obtain s2 where c: "zs_Claim Z z '''' (nd_NodeID n) s1 = (None, s2)"
      by (metis prod.collapse)
    have "s' = s2" using rel x ns n c False assms(5-7) by (simp add: s'_def ps_rehome_def)
    moreover have "inv s2" "accepting s2 = accepting s1" "known s2 = known s1" "owner s2 = (owner s1)(z := Some (nd_NodeID n))"
      using claim_inv [OF s1(1) acc(2), of z] claim_frame [OF s1(1) acc(2), of z] claim_ok [OF s1(1) acc(2), of z] c by auto
    ultimately show ?thesis using s1 acc by (intro conjI exI [of _ "Some (nd_NodeID n)"]) simp_all
  qed
qed


lemma fold_rehome:
  assumes "ps_servers P = S" "ps_zones P = Z" "ps_allocator P = alloc" "d \<notin> accepting s" "d \<noteq> ''''"
    and "inv s" "distinct zs" "\<forall>z \<in> set zs. owner s z = Some d"
  shows "inv (fst (fold (ps_rehome P ord d) zs (s, f))) \<and> accepting (fst (fold (ps_rehome P ord d) zs (s, f))) = accepting s
    \<and> known (fst (fold (ps_rehome P ord d) zs (s, f))) = known s
    \<and> (\<forall>z. if z \<in> set zs then homed (accepting s) (owner (fst (fold (ps_rehome P ord d) zs (s, f))) z)
           else owner (fst (fold (ps_rehome P ord d) zs (s, f))) z = owner s z)"
  using assms(4-)
proof (induction zs arbitrary: s f)
  case (Cons z zs)
  obtain s1 f1 where s1: "ps_rehome P ord d z (s, f) = (s1, f1)" by (cases "ps_rehome P ord d z (s, f)")
  obtain w where st: "inv s1" "accepting s1 = accepting s" "known s1 = known s" "owner s1 = (owner s)(z := w)" "homed (accepting s) w"
    using rehome [OF Cons.prems(3) _ Cons.prems(1,2) assms(1-3), of z ord f] Cons.prems(5) s1 by (auto simp: homed_def)
  have "\<forall>y \<in> set zs. owner s1 y = Some d" using st(4) Cons.prems(4,5) by auto
  from Cons.IH [OF _ Cons.prems(2) st(1) _ this, of f1] st Cons.prems(1,4) show ?case
    by (auto simp: s1 split: if_splits)
qed simp

definition swept :: "'s \<Rightarrow> ServerID set \<Rightarrow> 's \<Rightarrow> bool" where
  \<comment> \<open>a sweep that began in \<open>s0\<close> has dealt with the servers \<open>D\<close>\<close>
  "swept s0 D s \<longleftrightarrow> inv s \<and> accepting s = accepting s0 - D \<and> known s = known s0
     \<and> (\<forall>z. if \<exists>d \<in> D. owner s0 z = Some d then homed (accepting s) (owner s z) else owner s z = owner s0 z)"

lemma homed_less: "homed A w \<Longrightarrow> w \<noteq> Some d \<Longrightarrow> homed (A - {d}) w"
  by (auto simp: homed_def split: option.splits)

lemma swept_step:
  assumes "ps_servers P = S" "ps_zones P = Z" "ps_allocator P = alloc" "swept s0 D s" "d \<notin> D" "d \<noteq> ''''"
  shows "swept s0 (insert d D) (fst (ps_dead P ord d (s, f)))"
proof -
  have s: "inv s" "accepting s = accepting s0 - D" "known s = known s0"
    "\<And>z. if \<exists>d \<in> D. owner s0 z = Some d then homed (accepting s) (owner s z) else owner s z = owner s0 z"
    using assms(4) unfolding swept_def by blast+
  obtain s1 where m: "mark d s = (None, s1)" and s1: "inv s1" "owner s1 = owner s" "known s1 = known s"
    "accepting s1 = accepting s - {d}" using mark_ok [OF s(1), of d] by blast
  obtain zs where zs: "list_by d s1 = Inr zs" "distinct zs" "set zs = {z. owner s1 z = Some d}"
    using list_by_ok [OF s1(1) assms(6)] by blast
  let ?s = "fst (fold (ps_rehome P ord d) zs (s1, f))"
  have st: "fst (ps_dead P ord d (s, f)) = ?s"
    using assms(1,2) m zs(1) by (simp add: ps_dead_def reassignZonesFor_def optional)
  have f: "inv ?s \<and> accepting ?s = accepting s1 \<and> known ?s = known s1
    \<and> (\<forall>z. if z \<in> set zs then homed (accepting s1) (owner ?s z) else owner ?s z = owner s1 z)"
    by (rule fold_rehome [OF assms(1-3) _ assms(6) s1(1) zs(2)]) (use s1(4) zs(3) in auto)
  have "if \<exists>d' \<in> insert d D. owner s0 z = Some d' then homed (accepting ?s) (owner ?s z) else owner ?s z = owner s0 z" for z
  proof (cases "owner s z = Some d")
    case True
    then have "homed (accepting ?s) (owner ?s z)" using f zs(3) s1(2) by auto
    moreover have "\<exists>d' \<in> insert d D. owner s0 z = Some d'" using s(4) [of z] True by (auto split: if_splits)
    ultimately show ?thesis by simp
  next
    case False
    then have "owner ?s z = owner s z" using f zs(3) s1(2) by auto
    moreover have "homed (accepting s) (owner s z) \<Longrightarrow> homed (accepting ?s) (owner s z)"
      using homed_less [of "accepting s" "owner s z" d] False f s1(4) by simp
    ultimately show ?thesis using s(4) [of z] False by (auto split: if_splits)
  qed
  moreover have "accepting ?s = accepting s0 - insert d D" using f s1(4) s(2) by auto
  moreover have "known ?s = known s0" "inv ?s" using f s1(3) s(3) by simp_all
  ultimately show ?thesis unfolding st swept_def by blast
qed

lemma swept_fold:
  assumes "ps_servers P = S" "ps_zones P = Z" "ps_allocator P = alloc"
    and "swept s0 D s" "distinct ds" "set ds \<inter> D = {}" "'''' \<notin> set ds"
  shows "swept s0 (D \<union> set ds) (fst (fold (ps_dead P ord) ds (s, f)))"
  using assms(4-)
proof (induction ds arbitrary: D s f)
  case (Cons d ds)
  obtain s1 f1 where s1: "ps_dead P ord d (s, f) = (s1, f1)" by (cases "ps_dead P ord d (s, f)")
  have "swept s0 (insert d D) s1"
    using swept_step [OF assms(1-3) Cons.prems(1), of d ord f] Cons.prems(3,4) s1 by auto
  from Cons.IH [OF this, of f1] Cons.prems(2-) s1 show ?case by auto
qed simp

lemma sweep_rehomes:
  fixes ord f
  assumes "inv s" "ps_servers P = S" "ps_zones P = Z" "ps_allocator P = alloc"
  defines "D \<equiv> dead (sc_MissThreshold (ps_cfg P)) s" and "s' \<equiv> fst (ps_sweep P ord (s, f))"
  shows "inv s' \<and> accepting s' = accepting s - D \<and> known s' = known s
    \<and> (if \<exists>d \<in> D. owner s z = Some d
       then (case owner s' z of None \<Rightarrow> accepting s - D = {} | Some t \<Rightarrow> t \<in> accepting s - D)
       else owner s' z = owner s z)"
proof -
  obtain ds where ds: "list_dead (sc_MissThreshold (ps_cfg P)) s = Inr ds" "distinct ds" "set ds = D"
    using list_dead_ok [OF assms(1)] D_def by blast
  have "swept s {} s" using assms(1) by (simp add: swept_def)
  from swept_fold [OF assms(2-4) this ds(2), of ord f] ds dead_named [OF assms(1)]
  have sw: "swept s D s'" by (simp add: s'_def D_def ps_sweep_def assms(2) optional)
  then have "accepting s' = accepting s - D" "inv s'" "known s' = known s" by (simp_all add: swept_def)
  moreover have "if \<exists>d \<in> D. owner s z = Some d then homed (accepting s') (owner s' z) else owner s' z = owner s z"
    using sw unfolding swept_def by blast
  ultimately show ?thesis by (auto simp: homed_def split: if_splits)
qed

end

end
