(* ===== verification/Storage.thy ===== *)
theory Storage
  imports Room_Service
begin

section \<open>The repositories: \<open>internal/storage\<close>\<close>

text \<open>
  The tables of \<open>migrations/001_initial.up.sql\<close> and \<open>002_zone_state.up.sql\<close> and the SQL statements
  of the repositories (\<open>server_repo.go\<close>, \<open>zone_repo.go\<close>, \<open>snapshot_store.go\<close>). A statement is its
  effect on the tables: it fails, changing nothing, when the driver reports an error for it
  (\<open>db_fault\<close>, by the name of the statement) or when a constraint of the schema is violated. The
  order of the rows of a query without \<open>ORDER BY\<close> is an argument. \<open>NOW()\<close> is \<open>db_now\<close>. What the
  column type \<open>JSONB\<close> stores for a text is the argument \<open>jsonb\<close>, which rejects what is not JSON.
\<close>

text \<open>
  The tables of the schema as the repositories use them. The columns no statement reads or writes
  (\<open>metadata\<close>, \<open>size\<close>, and those of \<open>runtimes\<close> but its key) are left out; the keys of the
  finite maps are the primary keys.
\<close>

record game_servers_row =
  gs_host :: string
  gs_port :: int
  gs_status :: string
  gs_max_zones :: int
  gs_registered_at :: Time
  gs_last_heartbeat :: Time

record zones_row =
  zn_runtime_id :: string
  zn_grid_x :: int
  zn_grid_y :: int
  zn_status :: string
  zn_server_id :: "string option"

record zone_state_row =
  st_zone_id :: string
  st_runtime_id :: string
  st_snapshot :: bytes
  st_tick_count :: int
  st_taken_at :: Time

record DB =
  db_now :: Time
  db_fault :: "string \<Rightarrow> error option"
  db_game_servers :: "(string, game_servers_row) fmap"
  db_runtimes :: "string fset"
  db_zones :: "(string, zones_row) fmap"
  db_zone_state :: "zone_state_row list"

definition violates :: "string \<Rightarrow> error" where
  "violates constraint = ErrText (''violates constraint '' @ constraint)"

subsection \<open>Servers\<close>

definition srv_Register :: "NodeDescriptor \<Rightarrow> DB \<Rightarrow> error option \<times> DB" where
  "srv_Register info db =
     (case db_fault db ''register'' of
        Some err \<Rightarrow> (Some (Errorf (''register server '' @ nd_NodeID info @ '': '') err ''''), db)
      | None \<Rightarrow>
          (let row = (case fmlookup (db_game_servers db) (nd_NodeID info) of
                 None \<Rightarrow> \<lparr>gs_host = nd_Host info, gs_port = nd_Port info, gs_status = ServerStatus_String (nd_Status info),
                          gs_max_zones = cap_MaxZones (nd_Capacity info), gs_registered_at = db_now db,
                          gs_last_heartbeat = db_now db\<rparr>
               | Some row \<Rightarrow> row\<lparr>gs_host := nd_Host info, gs_port := nd_Port info,
                                 gs_max_zones := cap_MaxZones (nd_Capacity info)\<rparr>)
           in (None, db\<lparr>db_game_servers := fmupd (nd_NodeID info) row (db_game_servers db)\<rparr>)))"

definition srv_Heartbeat :: "ServerID \<Rightarrow> NodeLoad \<Rightarrow> DB \<Rightarrow> error option \<times> DB" where
  "srv_Heartbeat i load db =
     (case db_fault db ''heartbeat'' of
        Some err \<Rightarrow> (Some (Errorf (''heartbeat server '' @ i @ '': '') err ''''), db)
      | None \<Rightarrow>
          (case fmlookup (db_game_servers db) i of
             None \<Rightarrow> (Some (Errorf (''server '' @ i @ '': '') ErrNotFound ''''), db)
           | Some row \<Rightarrow>
               (None, db\<lparr>db_game_servers := fmupd i (row\<lparr>gs_status := ''active'', gs_last_heartbeat := db_now db\<rparr>)
                                              (db_game_servers db)\<rparr>)))"

definition row_node :: "string \<Rightarrow> game_servers_row \<Rightarrow> NodeDescriptor" where
  \<comment> \<open>the columns a query scans; the status becomes active whatever the row says\<close>
  "row_node i row =
     zero_node\<lparr>nd_NodeID := i, nd_Host := gs_host row, nd_Port := gs_port row,
       nd_Capacity := \<lparr>cap_MaxZones = gs_max_zones row, cap_MaxEntities = 0\<rparr>, nd_Status := ServerStatusActive\<rparr>"

definition scanServer :: "ServerID \<Rightarrow> DB \<Rightarrow> error + NodeDescriptor" where
  "scanServer i db =
     (let row = (case db_fault db ''get'' of
            Some err \<Rightarrow> Inl err
          | None \<Rightarrow> (case fmlookup (db_game_servers db) i of None \<Rightarrow> Inl ErrNoRows | Some row \<Rightarrow> Inr row))
      in case row of
           Inl err \<Rightarrow> if errors_Is err ErrNoRows then Inl (Errorf ''server: '' ErrNotFound '''') else Inl err
         | Inr row \<Rightarrow> Inr ((row_node i row)\<lparr>nd_LastHeartbeat := db_now db\<rparr>))"

definition srv_Get :: "ServerID \<Rightarrow> DB \<Rightarrow> error + NodeDescriptor" where
  "srv_Get i db = scanServer i db"

definition select_ids :: "order \<Rightarrow> ('v \<Rightarrow> bool) \<Rightarrow> (string, 'v) fmap \<Rightarrow> string list" where
  \<comment> \<open>the keys of the rows a \<open>WHERE\<close> selects, in the order the query returns them\<close>
  "select_ids ord P t = filter (\<lambda>i. case fmlookup t i of None \<Rightarrow> False | Some row \<Rightarrow> P row) (ord (fmdom' t))"

definition srv_List :: "order \<Rightarrow> DB \<Rightarrow> error + NodeDescriptor list" where
  "srv_List ord db =
     (case (db_fault db ''list'', db_fault db ''list.scan'') of
        (Some err, _) \<Rightarrow> Inl (Errorf ''list servers: '' err '''')
      | (None, scan) \<Rightarrow>
          (let ids = select_ids ord (\<lambda>row. gs_status row = ''active'') (db_game_servers db)
           in case scan of
                Some err \<Rightarrow> if ids = [] then Inr [] else Inl err
              | None \<Rightarrow> Inr (List.map_filter (\<lambda>i. map_option (row_node i) (fmlookup (db_game_servers db) i)) ids)))"

definition whole_seconds :: "Duration \<Rightarrow> int" where
  \<comment> \<open>\<open>int(since.Seconds())\<close>: towards zero\<close>
  "whole_seconds d = (if d < 0 then - ((- d) div Second) else d div Second)"

definition silent :: "Duration \<Rightarrow> DB \<Rightarrow> game_servers_row \<Rightarrow> bool" where
  "silent since db row \<longleftrightarrow> gs_status row = ''active'' \<and> gs_last_heartbeat row < db_now db - whole_seconds since * Second"

definition srv_ListDead :: "order \<Rightarrow> Duration \<Rightarrow> DB \<Rightarrow> error + ServerID list" where
  "srv_ListDead ord since db =
     (case (db_fault db ''listdead'', db_fault db ''listdead.scan'') of
        (Some err, _) \<Rightarrow> Inl (Errorf ''list dead servers: '' err '''')
      | (None, scan) \<Rightarrow>
          (let ids = select_ids ord (silent since db) (db_game_servers db)
           in case scan of
                Some err \<Rightarrow> if ids = [] then Inr [] else Inl err
              | None \<Rightarrow> Inr ids))"

definition srv_MarkShutdown :: "ServerID \<Rightarrow> DB \<Rightarrow> error option \<times> DB" where
  "srv_MarkShutdown i db =
     (case db_fault db ''shutdown'' of
        Some err \<Rightarrow> (Some (Errorf (''mark shutdown server '' @ i @ '': '') err ''''), db)
      | None \<Rightarrow>
          (case fmlookup (db_game_servers db) i of
             None \<Rightarrow> (None, db)
           | Some row \<Rightarrow> (None, db\<lparr>db_game_servers := fmupd i (row\<lparr>gs_status := ''shutdown''\<rparr>) (db_game_servers db)\<rparr>)))"

definition srv_Remove :: "ServerID \<Rightarrow> DB \<Rightarrow> error option \<times> DB" where
  \<comment> \<open>deleting a server sets \<open>server_id\<close> of its zones to null (\<open>ON DELETE SET NULL\<close>)\<close>
  "srv_Remove i db =
     (case db_fault db ''remove'' of
        Some err \<Rightarrow> (Some (Errorf (''remove server '' @ i @ '': '') err ''''), db)
      | None \<Rightarrow>
          (if fm_has (db_game_servers db) i
           then (None, db\<lparr>db_game_servers := fmdrop i (db_game_servers db),
                          db_zones := fmmap (\<lambda>z. if zn_server_id z = Some i then z\<lparr>zn_server_id := None\<rparr> else z) (db_zones db)\<rparr>)
           else (None, db)))"

definition server_repo :: "order \<Rightarrow> DB ServerStore" where
  "server_repo ord =
     \<lparr>ss_Register = srv_Register, ss_Heartbeat = srv_Heartbeat, ss_Get = srv_Get, ss_List = srv_List ord,
      ss_Remove = srv_Remove, ss_ListDead = Some (srv_ListDead ord), ss_MarkShutdown = Some srv_MarkShutdown\<rparr>"

subsection \<open>Zones\<close>

definition zr_err :: "string \<Rightarrow> error \<Rightarrow> error" where
  "zr_err zoneID e = Errorf (''zone '' @ zoneID @ '': '') e ''''"

definition zr_EnsureRow :: "string \<Rightarrow> string \<Rightarrow> DB \<Rightarrow> error option \<times> DB" where
  "zr_EnsureRow zoneID runtimeID db =
     (let failed = (\<lambda>err. (Some (Errorf (''ensure zone '' @ zoneID @ '': '') err ''''), db)) in
      case db_fault db ''ensure'' of
        Some err \<Rightarrow> failed err
      | None \<Rightarrow>
          if fm_has (db_zones db) zoneID then (None, db)
          else if runtimeID |\<notin>| db_runtimes db then failed (violates ''zones_runtime_id_fkey'')
          else if \<exists>z \<in> fmran' (db_zones db). zn_runtime_id z = runtimeID \<and> zn_grid_x z = 0 \<and> zn_grid_y z = 0
          then failed (violates ''zones_runtime_id_grid_x_grid_y_key'')
          else (None, db\<lparr>db_zones := fmupd zoneID \<lparr>zn_runtime_id = runtimeID, zn_grid_x = 0, zn_grid_y = 0,
                                        zn_status = ''unowned'', zn_server_id = None\<rparr> (db_zones db)\<rparr>))"

definition select_owner :: "string \<Rightarrow> string \<Rightarrow> DB \<Rightarrow> error + string option" where
  \<comment> \<open>\<open>SELECT server_id FROM zones WHERE id=$1\<close>, scanned into a \<open>*string\<close>\<close>
  "select_owner statement zoneID db =
     (case db_fault db statement of
        Some err \<Rightarrow> Inl err
      | None \<Rightarrow> (case fmlookup (db_zones db) zoneID of None \<Rightarrow> Inl ErrNoRows | Some z \<Rightarrow> Inr (zn_server_id z)))"

definition zr_Claim :: "string \<Rightarrow> RuntimeID \<Rightarrow> ServerID \<Rightarrow> DB \<Rightarrow> error option \<times> DB" where
  "zr_Claim zoneID runtimeID serverID db =
     (let failed = (\<lambda>err. (Some (Errorf (''claim zone '' @ zoneID @ '': '') err ''''), db));
          again = (case select_owner ''claim.owner'' zoneID db of
              Inl qerr \<Rightarrow> if errors_Is qerr ErrNoRows then (Some (zr_err zoneID ErrNotFound), db) else (None, db)
            | Inr owner \<Rightarrow>
                (case owner of
                   None \<Rightarrow> (None, db)
                 | Some w \<Rightarrow> if w \<noteq> '''' \<and> w \<noteq> serverID then (Some (zr_err zoneID ErrConflict), db) else (None, db)))
      in case db_fault db ''claim'' of
           Some err \<Rightarrow> failed err
         | None \<Rightarrow>
             (case fmlookup (db_zones db) zoneID of
                None \<Rightarrow> again
              | Some z \<Rightarrow>
                  if zn_server_id z \<noteq> None then again
                  else if \<not> fm_has (db_game_servers db) serverID then failed (violates ''zones_server_id_fkey'')
                  else (None, db\<lparr>db_zones := fmupd zoneID (z\<lparr>zn_server_id := Some serverID, zn_status := ''active''\<rparr>) (db_zones db)\<rparr>)))"

definition zr_Release :: "string \<Rightarrow> ServerID \<Rightarrow> DB \<Rightarrow> error option \<times> DB" where
  "zr_Release zoneID serverID db =
     (let again = (case select_owner ''release.owner'' zoneID db of
              Inl qerr \<Rightarrow> if errors_Is qerr ErrNoRows then (Some (zr_err zoneID ErrNotFound), db)
                         else (Some (zr_err zoneID ErrNotOwned), db)
            | Inr owner \<Rightarrow> (Some (zr_err zoneID ErrNotOwned), db))
      in case db_fault db ''release'' of
           Some err \<Rightarrow> (Some (Errorf (''release zone '' @ zoneID @ '': '') err ''''), db)
         | None \<Rightarrow>
             (case fmlookup (db_zones db) zoneID of
                None \<Rightarrow> again
              | Some z \<Rightarrow>
                  if zn_server_id z \<noteq> Some serverID then again
                  else (None, db\<lparr>db_zones := fmupd zoneID (z\<lparr>zn_server_id := None, zn_status := ''unowned''\<rparr>) (db_zones db)\<rparr>)))"

definition zr_ListByServer :: "order \<Rightarrow> ServerID \<Rightarrow> DB \<Rightarrow> error + string list" where
  "zr_ListByServer ord serverID db =
     (case (db_fault db ''listby'', db_fault db ''listby.scan'') of
        (Some err, _) \<Rightarrow> Inl (Errorf (''list zones by server '' @ serverID @ '': '') err '''')
      | (None, scan) \<Rightarrow>
          (let ids = select_ids ord (\<lambda>z. zn_server_id z = Some serverID) (db_zones db)
           in case scan of
                Some err \<Rightarrow> if ids = [] then Inr [] else Inl err
              | None \<Rightarrow> Inr ids))"

definition zr_Lookup :: "string \<Rightarrow> DB \<Rightarrow> error + ServerID" where
  "zr_Lookup zoneID db =
     (case select_owner ''lookup'' zoneID db of
        Inl err \<Rightarrow>
          if errors_Is err ErrNoRows then Inl (zr_err zoneID ErrNotFound)
          else Inl (Errorf (''lookup zone '' @ zoneID @ '': '') err '''')
      | Inr owner \<Rightarrow>
          (case owner of
             None \<Rightarrow> Inl (zr_err zoneID ErrNotFound)
           | Some w \<Rightarrow> if w = '''' then Inl (zr_err zoneID ErrNotFound) else Inr w))"

definition zone_repo :: "order \<Rightarrow> DB ZoneStore" where
  "zone_repo ord =
     \<lparr>zs_Claim = zr_Claim, zs_Release = zr_Release, zs_Lookup = zr_Lookup, zs_ListByServer = Some (zr_ListByServer ord)\<rparr>"

subsection \<open>Snapshots\<close>

definition snap_Save :: "(bytes \<Rightarrow> bytes option) \<Rightarrow> string \<Rightarrow> string \<Rightarrow> bytes \<Rightarrow> int \<Rightarrow> DB \<Rightarrow> error option \<times> DB" where
  "snap_Save jsonb zoneID runtimeID snapshot tick db =
     (let failed = (\<lambda>err. (Some (Errorf (''save snapshot '' @ zoneID @ '': '') err ''''), db)) in
      case db_fault db ''save'' of
        Some err \<Rightarrow> failed err
      | None \<Rightarrow>
          (case jsonb snapshot of
             None \<Rightarrow> failed (ErrText ''invalid input syntax for type json'')
           | Some stored \<Rightarrow>
               if runtimeID |\<notin>| db_runtimes db then failed (violates ''zone_state_runtime_id_fkey'')
               else if list_ex (\<lambda>r. st_zone_id r = zoneID \<and> st_taken_at r = db_now db) (db_zone_state db)
               then failed (violates ''zone_state_pkey'')
               else (None, db\<lparr>db_zone_state := db_zone_state db @
                       [\<lparr>st_zone_id = zoneID, st_runtime_id = runtimeID, st_snapshot = stored,
                         st_tick_count = tick, st_taken_at = db_now db\<rparr>]\<rparr>)))"

fun newest :: "zone_state_row list \<Rightarrow> zone_state_row option" where
  \<comment> \<open>\<open>ORDER BY taken_at DESC LIMIT 1\<close>\<close>
  "newest [] = None"
| "newest (r # rs) = (case newest rs of None \<Rightarrow> Some r | Some q \<Rightarrow> if st_taken_at q < st_taken_at r then Some r else Some q)"

definition snap_Latest :: "ZoneID \<Rightarrow> DB \<Rightarrow> error + bytes \<times> int" where
  "snap_Latest zoneID db =
     (let row = (case db_fault db ''latest'' of
            Some err \<Rightarrow> Inl err
          | None \<Rightarrow> (case newest (filter (\<lambda>r. st_zone_id r = zoneID) (db_zone_state db)) of
                        None \<Rightarrow> Inl ErrNoRows | Some r \<Rightarrow> Inr r))
      in case row of
           Inl err \<Rightarrow>
             if errors_Is err ErrNoRows then Inl (Errorf (''snapshot '' @ zoneID @ '': '') ErrNoSnapshot '''')
             else Inl (Errorf (''latest snapshot '' @ zoneID @ '': '') err '''')
         | Inr r \<Rightarrow> Inr (st_snapshot r, st_tick_count r))"


subsection \<open>The repositories keep the contract of the stores\<close>

definition db_owner :: "DB \<Rightarrow> string \<Rightarrow> ServerID option" where
  "db_owner db z = (case fmlookup (db_zones db) z of None \<Rightarrow> None | Some r \<Rightarrow> zn_server_id r)"

definition db_ok :: "DB \<Rightarrow> bool" where
  \<comment> \<open>no statement fails, no server has the empty id, and the foreign key of the owners holds\<close>
  "db_ok db \<longleftrightarrow> db_fault db = (\<lambda>_. None) \<and> \<not> fm_has (db_game_servers db) ''''
     \<and> (\<forall>z s. db_owner db z = Some s \<longrightarrow> fm_has (db_game_servers db) s)"

definition active_servers :: "DB \<Rightarrow> ServerID set" where
  "active_servers db = {i. \<exists>row. fmlookup (db_game_servers db) i = Some row \<and> gs_status row = ''active''}"

definition silent_servers :: "Duration \<Rightarrow> DB \<Rightarrow> ServerID set" where
  "silent_servers since db = {i. \<exists>row. fmlookup (db_game_servers db) i = Some row \<and> silent since db row}"

lemma db_okD:
  assumes "db_ok db"
  shows "db_fault db l = None" "\<not> fm_has (db_game_servers db) ''''" "db_owner db z = Some s \<Longrightarrow> fm_has (db_game_servers db) s"
    "db_owner db z \<noteq> Some ''''"
  using assms by (auto simp: db_ok_def)

lemma select_ids_set: "is_order ord \<Longrightarrow> set (select_ids ord P t) = {i. \<exists>row. fmlookup t i = Some row \<and> P row}"
  by (auto simp: select_ids_def fmlookup_dom'_iff split: option.splits)

lemma select_ids_distinct: "is_order ord \<Longrightarrow> distinct (select_ids ord P t)"
  by (simp add: select_ids_def)

lemma row_node_accepts: "CanAccept (row_node i row)"
  by (simp add: CanAccept_def row_node_def zero_node_def zero_load_def)

lemma row_node_id [simp]: "nd_NodeID (row_node i row) = i"
  by (simp add: row_node_def)

lemma db_owner_upd: "db_owner (db\<lparr>db_zones := fmupd z r (db_zones db)\<rparr>) = (db_owner db)(z := zn_server_id r)"
  by (auto simp: db_owner_def)

lemma zr_Claim_eq:
  assumes "db_ok db"
  shows "zr_Claim z rid s db = (case fmlookup (db_zones db) z of
      None \<Rightarrow> (Some (zr_err z ErrNotFound), db)
    | Some r \<Rightarrow>
        (case zn_server_id r of
           None \<Rightarrow>
             if fm_has (db_game_servers db) s
             then (None, db\<lparr>db_zones := fmupd z (r\<lparr>zn_server_id := Some s, zn_status := ''active''\<rparr>) (db_zones db)\<rparr>)
             else (Some (Errorf (''claim zone '' @ z @ '': '') (violates ''zones_server_id_fkey'') ''''), db)
         | Some w \<Rightarrow> if w = s then (None, db) else (Some (zr_err z ErrConflict), db)))"
  using db_okD(1) [OF assms] db_okD(4) [OF assms, of z]
  by (auto simp: zr_Claim_def select_owner_def Let_def db_owner_def split: option.split)

lemma zr_Release_eq:
  assumes "db_ok db"
  shows "zr_Release z s db = (case fmlookup (db_zones db) z of
      None \<Rightarrow> (Some (zr_err z ErrNotFound), db)
    | Some r \<Rightarrow>
        if zn_server_id r = Some s
        then (None, db\<lparr>db_zones := fmupd z (r\<lparr>zn_server_id := None, zn_status := ''unowned''\<rparr>) (db_zones db)\<rparr>)
        else (Some (zr_err z ErrNotOwned), db))"
  using db_okD(1) [OF assms] by (auto simp: zr_Release_def select_owner_def Let_def split: option.split)

lemma db_ok_upd:
  "db_ok db \<Longrightarrow> (\<And>s. zn_server_id r = Some s \<Longrightarrow> fm_has (db_game_servers db) s) \<Longrightarrow>
     db_ok (db\<lparr>db_zones := fmupd z r (db_zones db)\<rparr>)"
  by (auto simp: db_ok_def db_owner_upd split: if_splits)

lemma zone_repo_ownership: "ownership db_ok db_owner (\<lambda>z. zr_Claim z '''') zr_Release"
proof
  fix s :: DB and sid z :: string and e :: error
  assume ok: "db_ok s" and sid: "sid \<noteq> ''''"
  note c = zr_Claim_eq [OF ok, of z "''''" sid] and r = zr_Release_eq [OF ok, of z sid]
  show "db_ok (snd (zr_Claim z '''' sid s))" unfolding c using ok by (auto intro!: db_ok_upd split: option.split)
  show "db_ok (snd (zr_Release z sid s))" unfolding r using ok by (auto intro!: db_ok_upd split: option.split)
  show "(db_owner s z = None \<or> db_owner s z = Some sid) \<and> db_owner (snd (zr_Claim z '''' sid s)) = (db_owner s)(z := Some sid)"
    if "fst (zr_Claim z '''' sid s) = None"
    using that unfolding c by (auto simp: db_owner_upd db_owner_def split: option.splits if_splits)
  show "db_owner (snd (zr_Claim z '''' sid s)) = db_owner s" if "fst (zr_Claim z '''' sid s) = Some e"
    using that unfolding c by (auto split: option.splits if_splits)
  show "db_owner s z = Some sid \<and> db_owner (snd (zr_Release z sid s)) = (db_owner s)(z := None)"
    if "fst (zr_Release z sid s) = None"
    using that unfolding r by (auto simp: db_owner_upd db_owner_def split: option.splits if_splits)
  show "db_owner s z \<noteq> Some sid \<and> db_owner (snd (zr_Release z sid s)) = db_owner s" if "fst (zr_Release z sid s) = Some e"
    using that unfolding r by (auto simp: db_owner_def split: option.splits if_splits)
qed


lemma srv_List_ok:
  assumes "is_order ord" "db_ok db"
  shows "\<exists>ns. srv_List ord db = Inr ns \<and> image nd_NodeID {n \<in> set ns. CanAccept n} = active_servers db"
proof -
  let ?ids = "select_ids ord (\<lambda>row. gs_status row = ''active'') (db_game_servers db)"
  let ?ns = "List.map_filter (\<lambda>i. map_option (row_node i) (fmlookup (db_game_servers db) i)) ?ids"
  have "srv_List ord db = Inr ?ns" using db_okD(1) [OF assms(2)] by (simp add: srv_List_def Let_def)
  moreover have "image nd_NodeID {n \<in> set ?ns. CanAccept n} = active_servers db"
  proof (intro equalityI subsetI)
    fix i assume "i \<in> image nd_NodeID {n \<in> set ?ns. CanAccept n}"
    then show "i \<in> active_servers db"
      using assms(1) by (auto simp: set_map_filter select_ids_set active_servers_def)
  next
    fix i assume "i \<in> active_servers db"
    then obtain row where "fmlookup (db_game_servers db) i = Some row" "gs_status row = ''active''"
      by (auto simp: active_servers_def)
    then have "row_node i row \<in> {n \<in> set ?ns. CanAccept n}"
      using assms(1) by (auto simp: set_map_filter select_ids_set row_node_accepts)
    then show "i \<in> image nd_NodeID {n \<in> set ?ns. CanAccept n}" by (rule rev_image_eqI) simp
  qed
  ultimately show ?thesis by blast
qed

lemma srv_Get_owner:
  assumes "db_ok db" "db_owner db z = Some s"
  shows "\<exists>n. srv_Get s db = Inr n \<and> nd_NodeID n = s"
  using db_okD(1) [OF assms(1)] db_okD(3) [OF assms]
  by (auto simp: srv_Get_def scanServer_def fm_has_def Let_def row_node_def)

lemma srv_MarkShutdown_ok:
  assumes "db_ok db"
  shows "\<exists>db'. srv_MarkShutdown d db = (None, db') \<and> db_ok db' \<and> db_owner db' = db_owner db
    \<and> fmdom' (db_zones db') = fmdom' (db_zones db) \<and> active_servers db' = active_servers db - {d}"
proof (cases "fmlookup (db_game_servers db) d")
  case None
  with db_okD(1) [OF assms] assms show ?thesis by (auto simp: srv_MarkShutdown_def active_servers_def)
next
  case (Some row)
  let ?db = "db\<lparr>db_game_servers := fmupd d (row\<lparr>gs_status := ''shutdown''\<rparr>) (db_game_servers db)\<rparr>"
  have "db_owner ?db = db_owner db" by (auto simp: db_owner_def)
  moreover have "db_ok ?db" using assms Some by (auto simp: db_ok_def db_owner_def fm_has_def)
  moreover have "active_servers ?db = active_servers db - {d}" by (auto simp: active_servers_def)
  ultimately show ?thesis using db_okD(1) [OF assms] Some by (simp add: srv_MarkShutdown_def)
qed

lemma zr_Lookup_iff:
  "db_ok db \<Longrightarrow> zr_Lookup z db = Inr s \<longleftrightarrow> db_owner db z = Some s"
  using db_okD(1) [of db] db_okD(4) [of db z]
  by (auto simp: zr_Lookup_def select_owner_def db_owner_def split: option.splits)

lemma zr_frame:
  assumes "db_ok db"
  shows "active_servers (snd (zr_Claim z rid s db)) = active_servers db"
    "fmdom' (db_zones (snd (zr_Claim z rid s db))) = fmdom' (db_zones db)"
    "active_servers (snd (zr_Release z s db)) = active_servers db"
    "fmdom' (db_zones (snd (zr_Release z s db))) = fmdom' (db_zones db)"
  by (auto simp: zr_Claim_eq [OF assms] zr_Release_eq [OF assms] active_servers_def fmlookup_dom'_iff split: option.splits if_splits)

lemma repo_stores:
  assumes "is_order ord"
  shows "room_stores db_ok db_owner (zone_repo ord) Select (server_repo ord) active_servers (\<lambda>db. fmdom' (db_zones db))
    silent_servers (srv_ListDead ord) srv_MarkShutdown (zr_ListByServer ord)"
proof (intro room_stores.intro room_stores_axioms.intro)
  show "ownership db_ok db_owner (\<lambda>z. zs_Claim (zone_repo ord) z '''') (zs_Release (zone_repo ord))"
    using zone_repo_ownership by (simp add: zone_repo_def)
  show "allocator Select" by (rule ll.allocator_axioms)
  fix db :: DB and z sid d :: string and th
  show "ss_ListDead (server_repo ord) = Some (srv_ListDead ord)" "ss_MarkShutdown (server_repo ord) = Some srv_MarkShutdown"
    "zs_ListByServer (zone_repo ord) = Some (zr_ListByServer ord)" by (simp_all add: server_repo_def zone_repo_def)
  assume ok: "db_ok db"
  show "zs_Lookup (zone_repo ord) z db = Inr sid \<longleftrightarrow> db_owner db z = Some sid"
    using zr_Lookup_iff [OF ok] by (simp add: zone_repo_def)
  show "\<exists>ns. ss_List (server_repo ord) db = Inr ns \<and> image nd_NodeID {n \<in> set ns. CanAccept n} = active_servers db"
    using srv_List_ok [OF assms ok] by (simp add: server_repo_def)
  show "'''' \<notin> active_servers db" "'''' \<notin> silent_servers th db"
    using db_okD(2) [OF ok] by (auto simp: active_servers_def silent_servers_def fm_has_def)
  show "\<exists>db'. srv_MarkShutdown d db = (None, db') \<and> db_ok db' \<and> db_owner db' = db_owner db
    \<and> fmdom' (db_zones db') = fmdom' (db_zones db) \<and> active_servers db' = active_servers db - {d}"
    by (rule srv_MarkShutdown_ok [OF ok])
  show "\<exists>ds. srv_ListDead ord th db = Inr ds \<and> distinct ds \<and> set ds = silent_servers th db"
    using assms db_okD(1) [OF ok] by (simp add: srv_ListDead_def Let_def select_ids_set select_ids_distinct silent_servers_def)
  show "\<exists>n. ss_Get (server_repo ord) sid db = Inr n \<and> nd_NodeID n = sid" if "db_owner db z = Some sid"
    using srv_Get_owner [OF ok that] by (simp add: server_repo_def)
  show "z \<in> fmdom' (db_zones db)" if "db_owner db z = Some sid"
    using that by (auto simp: db_owner_def fmlookup_dom'_iff split: option.splits)
  show "fst (zs_Claim (zone_repo ord) z '''' sid db) = None"
    if "z \<in> fmdom' (db_zones db)" "db_owner db z = None" "sid \<in> active_servers db"
    using that by (auto simp: zone_repo_def zr_Claim_eq [OF ok] db_owner_def active_servers_def fm_has_def fmlookup_dom'_iff)
  show "active_servers (snd (zs_Claim (zone_repo ord) z '''' sid db)) = active_servers db
      \<and> fmdom' (db_zones (snd (zs_Claim (zone_repo ord) z '''' sid db))) = fmdom' (db_zones db)"
    "active_servers (snd (zs_Release (zone_repo ord) z sid db)) = active_servers db
      \<and> fmdom' (db_zones (snd (zs_Release (zone_repo ord) z sid db))) = fmdom' (db_zones db)"
    using zr_frame [OF ok] by (simp_all add: zone_repo_def)
  show "\<exists>zs. zr_ListByServer ord d db = Inr zs \<and> distinct zs \<and> set zs = {z. db_owner db z = Some d}"
  proof -
    have "zr_ListByServer ord d db = Inr (select_ids ord (\<lambda>z. zn_server_id z = Some d) (db_zones db))"
      using db_okD(1) [OF ok] by (simp add: zr_ListByServer_def Let_def)
    moreover have "set (select_ids ord (\<lambda>z. zn_server_id z = Some d) (db_zones db)) = {z. db_owner db z = Some d}"
      using assms by (auto simp: select_ids_set db_owner_def split: option.splits)
    ultimately show ?thesis using select_ids_distinct [OF assms] by simp
  qed
qed

interpretation repo: room_stores db_ok db_owner "zone_repo sorted_list_of_set" Select "server_repo sorted_list_of_set"
  active_servers "\<lambda>db. fmdom' (db_zones db)" silent_servers "srv_ListDead sorted_list_of_set" srv_MarkShutdown
  "zr_ListByServer sorted_list_of_set"
  by (rule repo_stores [OF is_order_sorted])


subsection \<open>What the deployed room service does\<close>

definition demo_db :: DB where
  "demo_db = \<lparr>db_now = 100 * Second, db_fault = (\<lambda>_. None),
     db_game_servers = fmap_of_list
       [(''a'', \<lparr>gs_host = ''ha'', gs_port = 1, gs_status = ''active'', gs_max_zones = 10, gs_registered_at = 0, gs_last_heartbeat = 0\<rparr>),
        (''b'', \<lparr>gs_host = ''hb'', gs_port = 2, gs_status = ''active'', gs_max_zones = 10, gs_registered_at = 0, gs_last_heartbeat = 99 * Second\<rparr>)],
     db_runtimes = {|''r''|},
     db_zones = fmap_of_list
       [(''z'', \<lparr>zn_runtime_id = ''r'', zn_grid_x = 0, zn_grid_y = 0, zn_status = ''active'', zn_server_id = Some ''a''\<rparr>),
        (''y'', \<lparr>zn_runtime_id = ''r'', zn_grid_x = 1, zn_grid_y = 0, zn_status = ''unowned'', zn_server_id = None\<rparr>)],
     db_zone_state = []\<rparr>"

lemma demo_db_owner [simp]: "db_owner demo_db x = (if x = ''z'' then Some ''a'' else None)"
  by (simp add: demo_db_def db_owner_def fmlookup_of_list)

lemma demo_db_ok: "db_ok demo_db"
  by (auto simp: db_ok_def split: if_splits) (auto simp: demo_db_def fm_has_def fmlookup_of_list)

lemma demo_db_sets:
  "active_servers demo_db = {''a'', ''b''}" "silent_servers (15 * Second) demo_db = {''a''}"
  "''y'' \<in> fmdom' (db_zones demo_db)"
  by (auto simp: demo_db_def active_servers_def silent_servers_def silent_def whole_seconds_def fmlookup_of_list
      fmlookup_dom'_iff split: if_splits)

text \<open>
  C32. The zone table of the database implements the abstract ownership machine: while no statement
  fails, the claims and releases that succeed are a run of the machine; so a zone has one owner at
  a time and keeps it until that owner releases the zone.
\<close>

theorem zone_repository_refines:
  assumes "db_ok db" and "named ops"
  shows "own_trace (fst (own_run (\<lambda>z. zr_Claim z '''') zr_Release ops db)) (db_owner db)
    \<and> db_owner (snd (own_run (\<lambda>z. zr_Claim z '''') zr_Release ops db))
        = fold own_apply (fst (own_run (\<lambda>z. zr_Claim z '''') zr_Release ops db)) (db_owner db)
    \<and> (db_owner db z = Some a \<and> ReleaseOp z a \<notin> set (fst (own_run (\<lambda>z. zr_Claim z '''') zr_Release ops db))
         \<longrightarrow> db_owner (snd (own_run (\<lambda>z. zr_Claim z '''') zr_Release ops db)) z = Some a)"
  using ownership.run_refines [OF zone_repo_ownership assms] ownership.run_keeps [OF zone_repo_ownership assms] by blast

theorem zone_repository_refines_witness:
  "db_owner (snd (own_run (\<lambda>z. zr_Claim z '''') zr_Release [ClaimOp ''z'' ''b'', ReleaseOp ''z'' ''b'', ClaimOp ''y'' ''b''] demo_db)) ''z''
     = Some ''a''"
proof -
  let ?ops = "[ClaimOp ''z'' ''b'', ReleaseOp ''z'' ''b'', ClaimOp ''y'' ''b'']"
  from own_run_subset [of "\<lambda>z. zr_Claim z ''''" zr_Release ?ops demo_db]
  have "ReleaseOp ''z'' ''a'' \<notin> set (fst (own_run (\<lambda>z. zr_Claim z '''') zr_Release ?ops demo_db))"
    by fastforce
  moreover have "named ?ops" "db_owner demo_db ''z'' = Some ''a''" by simp_all
  ultimately show ?thesis using zone_repository_refines [OF demo_db_ok, of ?ops "''z''" "''a''"] by blast
qed

text \<open>
  C33. A zone lookup is sticky and claims at most the zone asked for: if the zone has an owner the
  lookup names it and changes nothing; if not, a successful lookup names an active server and has
  made it the owner, of that zone only, and the next lookup names the same server. A failed lookup
  changes no owner, and for a zone of the table it means there is no active server at all; it never
  fails for lack of capacity.
\<close>

theorem lookup_zone_sticky:
  assumes "is_order ord" and "db_ok db"
  defines "srv \<equiv> \<lparr>rs_servers = server_repo ord, rs_zones = zone_repo ord, rs_allocator = Select\<rparr>"
  shows "case rs_LookupZone srv z db of
      (Inr resp, db') \<Rightarrow> db_owner db' = (db_owner db)(z := Some (lzr_server resp))
        \<and> (case db_owner db z of Some s \<Rightarrow> db' = db | None \<Rightarrow> lzr_server resp \<in> active_servers db)
        \<and> (\<exists>resp'. rs_LookupZone srv z db' = (Inr resp', db') \<and> lzr_server resp' = lzr_server resp)
    | (Inl e, db') \<Rightarrow> db_owner db' = db_owner db \<and> db_owner db z = None
        \<and> (z \<in> fmdom' (db_zones db) \<longrightarrow> active_servers db = {})"
proof (cases "db_owner db z")
  case None
  note f = room_stores.lookup_free [OF repo_stores [OF assms(1)] assms(2) None, folded srv_def]
  obtain x db' where r: "rs_LookupZone srv z db = (x, db')" by (cases "rs_LookupZone srv z db")
  show ?thesis
  proof (cases x)
    case (Inl e)
    with f r None show ?thesis by simp
  next
    case (Inr resp)
    with f r have ok: "db_ok db'" "db_owner db' z = Some (lzr_server resp)" by simp_all
    from room_stores.lookup_owned [OF repo_stores [OF assms(1)] ok, folded srv_def]
    have "\<exists>resp'. rs_LookupZone srv z db' = (Inr resp', db') \<and> lzr_server resp' = lzr_server resp"
      by (auto simp: lookup_response_def)
    with f r Inr None show ?thesis by simp
  qed
next
  case (Some s)
  from room_stores.lookup_owned [OF repo_stores [OF assms(1)] assms(2) Some, folded srv_def]
  obtain n where "rs_LookupZone srv z db = (Inr (lookup_response n), db)" "nd_NodeID n = s" by blast
  with Some show ?thesis by (auto simp: lookup_response_def)
qed

theorem lookup_zone_sticky_witness:
  "\<exists>resp db'. rs_LookupZone \<lparr>rs_servers = server_repo sorted_list_of_set, rs_zones = zone_repo sorted_list_of_set, rs_allocator = Select\<rparr>
      ''y'' demo_db = (Inr resp, db') \<and> lzr_server resp \<in> {''a'', ''b''}"
proof -
  let ?srv = "\<lparr>rs_servers = server_repo sorted_list_of_set, rs_zones = zone_repo sorted_list_of_set, rs_allocator = Select\<rparr>"
  obtain x db' where r: "rs_LookupZone ?srv ''y'' demo_db = (x, db')" by (cases "rs_LookupZone ?srv ''y'' demo_db")
  from lookup_zone_sticky [OF is_order_sorted demo_db_ok, of "''y''"] r demo_db_sets show ?thesis
    by (cases x) auto
qed

text \<open>
  C34. The production sweep leaves no zone with a dead server: while no statement fails, every zone
  of a server that was active and silent for longer than the threshold (in whole seconds) ends with
  an active server that is not one of those, or without owner if there is no such server; every
  other zone keeps its owner; the silent servers stop being active and no other server does.
\<close>

theorem production_sweep_rehomes:
  fixes cfg
  assumes "is_order ord" and "db_ok db"
  defines "P \<equiv> NewProductionSweeper (server_repo ord) (zone_repo ord) Select cfg"
  defines "D \<equiv> silent_servers (sc_MissThreshold (sweeper_defaults cfg)) db"
  shows "active_servers (fst (ps_sweep P ord' (db, f))) = active_servers db - D
    \<and> (if \<exists>d \<in> D. db_owner db z = Some d
       then (case db_owner (fst (ps_sweep P ord' (db, f))) z of
               None \<Rightarrow> active_servers db - D = {} | Some t \<Rightarrow> t \<in> active_servers db - D)
       else db_owner (fst (ps_sweep P ord' (db, f))) z = db_owner db z)"
proof -
  have P: "ps_servers P = server_repo ord" "ps_zones P = zone_repo ord" "ps_allocator P = Select" "ps_cfg P = sweeper_defaults cfg"
    by (simp_all add: P_def NewProductionSweeper_def)
  from room_stores.sweep_rehomes [OF repo_stores [OF assms(1)] assms(2) P(1-3), where ord = ord' and f = f and z = z]
  show ?thesis unfolding P(4) D_def [symmetric] by blast
qed

theorem production_sweep_rehomes_witness:
  "db_owner (fst (ps_sweep (NewProductionSweeper (server_repo sorted_list_of_set) (zone_repo sorted_list_of_set) Select
       \<lparr>sc_Interval = 0, sc_MissThreshold = 0\<rparr>) sorted_list_of_set (demo_db, None))) ''z'' = Some ''b''"
proof -
  have th: "sc_MissThreshold (sweeper_defaults \<lparr>sc_Interval = 0, sc_MissThreshold = 0\<rparr>) = 15 * Second"
    by (simp add: sweeper_defaults_def)
  define w where "w = db_owner (fst (ps_sweep (NewProductionSweeper (server_repo sorted_list_of_set) (zone_repo sorted_list_of_set) Select
       \<lparr>sc_Interval = 0, sc_MissThreshold = 0\<rparr>) sorted_list_of_set (demo_db, None))) ''z''"
  have "case w of None \<Rightarrow> {''a'', ''b''} - {''a''} = {} | Some t \<Rightarrow> t \<in> {''a'', ''b''} - {''a''}"
    using production_sweep_rehomes [OF is_order_sorted demo_db_ok, where cfg = "\<lparr>sc_Interval = 0, sc_MissThreshold = 0\<rparr>"
        and ord' = sorted_list_of_set and f = None and z = "''z''", unfolded th demo_db_sets]
    unfolding w_def by simp
  then show ?thesis unfolding w_def by (auto split: option.splits)
qed


subsection \<open>The latest snapshot\<close>

lemma newest_mem: "newest rs = Some r \<Longrightarrow> r \<in> set rs"
  by (induction rs arbitrary: r) (auto split: option.splits if_splits)

lemma newest_snoc: "\<forall>q \<in> set rs. st_taken_at q < st_taken_at r \<Longrightarrow> newest (rs @ [r]) = Some r"
  by (induction rs) (auto split: option.splits)

lemma snap_Latest_now [simp]: "snap_Latest z (db\<lparr>db_now := t\<rparr>) = snap_Latest z db"
  by (cases "db_fault db ''latest''") (simp_all add: snap_Latest_def)

lemma snap_Save_Latest:
  assumes "db_fault db = (\<lambda>_. None)" "\<forall>r \<in> set (db_zone_state db). st_taken_at r \<le> db_now db"
  shows "case snap_Save jsonb z rid snap tick db of
      (Some e, db') \<Rightarrow> db' = db
    | (None, db') \<Rightarrow> db_fault db' = (\<lambda>_. None) \<and> (\<forall>r \<in> set (db_zone_state db'). st_taken_at r \<le> db_now db)
        \<and> (\<exists>stored. jsonb snap = Some stored
             \<and> (\<lambda>y. snap_Latest y db') = (\<lambda>y. snap_Latest y db)(z := Inr (stored, tick)))"
proof -
  let ?row = "\<lambda>stored. \<lparr>st_zone_id = z, st_runtime_id = rid, st_snapshot = stored, st_tick_count = tick, st_taken_at = db_now db\<rparr>"
  have new: "newest (filter (\<lambda>r. st_zone_id r = z) (db_zone_state db) @ [?row stored]) = Some (?row stored)"
    if "\<forall>r \<in> set (db_zone_state db). st_zone_id r = z \<longrightarrow> st_taken_at r \<noteq> db_now db" for stored
    by (rule newest_snoc) (use that assms(2) in fastforce)
  show ?thesis
    using assms new by (auto simp: snap_Save_def Let_def list_ex_iff snap_Latest_def split: option.split)
qed

record save_call =
  sv_now :: Time
  sv_zone :: string
  sv_runtime :: string
  sv_data :: bytes
  sv_tick :: int

fun save_run :: "(bytes \<Rightarrow> bytes option) \<Rightarrow> save_call list \<Rightarrow> DB \<Rightarrow> (string \<times> bytes \<times> int) list \<times> DB" where
  \<comment> \<open>saves one after the other; what was stored, and the database at the end\<close>
  "save_run jsonb [] db = ([], db)"
| "save_run jsonb (c # cs) db =
     (let r = snap_Save jsonb (sv_zone c) (sv_runtime c) (sv_data c) (sv_tick c) (db\<lparr>db_now := sv_now c\<rparr>);
          rest = save_run jsonb cs (snd r)
      in (if fst r = None then (sv_zone c, the (jsonb (sv_data c)), sv_tick c) # fst rest else fst rest, snd rest))"

lemma save_run_latest:
  "db_fault db = (\<lambda>_. None) \<Longrightarrow> sorted (map sv_now cs) \<Longrightarrow>
     (\<forall>r \<in> set (db_zone_state db). \<forall>c \<in> set cs. st_taken_at r \<le> sv_now c) \<Longrightarrow>
     (\<lambda>z. snap_Latest z (snd (save_run jsonb cs db)))
       = fold (\<lambda>(z, s, t) m. m(z := Inr (s, t))) (fst (save_run jsonb cs db)) (\<lambda>z. snap_Latest z db)"
proof (induction cs arbitrary: db)
  case (Cons c cs)
  let ?db = "db\<lparr>db_now := sv_now c\<rparr>"
  obtain x db' where r: "snap_Save jsonb (sv_zone c) (sv_runtime c) (sv_data c) (sv_tick c) ?db = (x, db')"
    by (cases "snap_Save jsonb (sv_zone c) (sv_runtime c) (sv_data c) (sv_tick c) ?db")
  have st: "case (x, db') of
      (Some e, db') \<Rightarrow> db' = ?db
    | (None, db') \<Rightarrow> db_fault db' = (\<lambda>_. None) \<and> (\<forall>r \<in> set (db_zone_state db'). st_taken_at r \<le> sv_now c)
        \<and> (\<exists>stored. jsonb (sv_data c) = Some stored
             \<and> (\<lambda>y. snap_Latest y db') = (\<lambda>y. snap_Latest y ?db)(sv_zone c := Inr (stored, sv_tick c)))"
    using snap_Save_Latest [where db = ?db and jsonb = jsonb and z = "sv_zone c" and rid = "sv_runtime c"
        and snap = "sv_data c" and tick = "sv_tick c"] Cons.prems r by (simp split: option.splits)
  show ?case
  proof (cases x)
    case None
    with st have db': "db_fault db' = (\<lambda>_. None)" "\<forall>r \<in> set (db_zone_state db'). st_taken_at r \<le> sv_now c" by simp_all
    then have "\<forall>r \<in> set (db_zone_state db'). \<forall>c \<in> set cs. st_taken_at r \<le> sv_now c" using Cons.prems(2) by fastforce
    from Cons.IH [OF db'(1) _ this] Cons.prems(2) r None st show ?thesis by (auto simp: Let_def fun_upd_def cong: if_cong)
  next
    case (Some e)
    with Cons.IH [of ?db] Cons.prems r st show ?thesis by (simp add: Let_def)
  qed
qed simp

text \<open>
  A snapshot read back is the last one saved: after any saves with a clock that does not run
  backwards, the latest snapshot of a zone is what the last successful save of that zone stored,
  with its tick, and zones without one answer as before. A save for a runtime that is not in the
  table of runtimes never succeeds.
\<close>

theorem latest_snapshot_roundtrip:
  assumes "db_fault db = (\<lambda>_. None)" and "sorted (map sv_now cs)"
    and "\<forall>r \<in> set (db_zone_state db). \<forall>c \<in> set cs. st_taken_at r \<le> sv_now c"
  shows "snap_Latest z (snd (save_run jsonb cs db))
      = fold (\<lambda>(z, s, t) m. m(z := Inr (s, t))) (fst (save_run jsonb cs db)) (\<lambda>z. snap_Latest z db) z
    \<and> (rid |\<notin>| db_runtimes db \<longrightarrow> fst (snap_Save jsonb z rid snap tick db) \<noteq> None
         \<and> snd (snap_Save jsonb z rid snap tick db) = db)"
  using fun_cong [OF save_run_latest [OF assms], of z]
  by (auto simp: snap_Save_def Let_def split: option.split)

theorem latest_snapshot_roundtrip_witness:
  "snap_Latest ''z'' (snd (save_run Some [\<lparr>sv_now = 1, sv_zone = ''z'', sv_runtime = ''r'', sv_data = [1], sv_tick = 7\<rparr>,
       \<lparr>sv_now = 2, sv_zone = ''z'', sv_runtime = ''r'', sv_data = [2], sv_tick = 8\<rparr>,
       \<lparr>sv_now = 3, sv_zone = ''z'', sv_runtime = ''gs'', sv_data = [3], sv_tick = 9\<rparr>] demo_db)) = Inr ([2], 8)"
proof -
  let ?cs = "[\<lparr>sv_now = 1, sv_zone = ''z'', sv_runtime = ''r'', sv_data = [1], sv_tick = 7\<rparr>,
       \<lparr>sv_now = 2, sv_zone = ''z'', sv_runtime = ''r'', sv_data = [2], sv_tick = 8\<rparr>,
       \<lparr>sv_now = 3, sv_zone = ''z'', sv_runtime = ''gs'', sv_data = [3], sv_tick = 9\<rparr>] :: save_call list"
  have d: "db_fault demo_db = (\<lambda>_. None)" "db_zone_state demo_db = []" "db_runtimes demo_db = {|''r''|}"
    by (simp_all add: demo_db_def)
  then have saved: "fst (save_run Some ?cs demo_db) = [(''z'', [1], 7), (''z'', [2], 8)]"
    by (simp add: snap_Save_def Let_def)
  have "sorted (map sv_now ?cs)" "\<forall>r \<in> set (db_zone_state demo_db). \<forall>c \<in> set ?cs. st_taken_at r \<le> sv_now c"
    using d by simp_all
  from conjunct1 [OF latest_snapshot_roundtrip [OF d(1) this, of "''z''" Some]] show ?thesis unfolding saved by simp
qed

end
