(* ===== verification/Recovery.thy ===== *)
theory Recovery
  imports Game_Queues Game_Server Storage
begin

section \<open>Snapshots of a game server, and its recovery from them\<close>

text \<open>
  The way of a zone through a crash: \<open>snapshotAllZones\<close> hands its rows to the snapshot adapter of
  \<open>apps/game-server/main.go\<close>, the adapter to the table of snapshots, and a new process reads the
  latest snapshot of the zone and makes its entities again. \<open>recovers\<close> is the whole way.
\<close>

subsection \<open>The adapter\<close>

definition snapshotAdapter_Save :: "(bytes \<Rightarrow> bytes option) \<Rightarrow> string \<Rightarrow> ZoneID \<Rightarrow> bytes \<Rightarrow> int \<Rightarrow> DB \<Rightarrow> DB" where
  \<comment> \<open>an error is logged\<close>
  "snapshotAdapter_Save jsonb runtime zoneID snap tick db = snd (snap_Save jsonb zoneID runtime snap tick db)"

fun persist :: "(bytes \<Rightarrow> bytes option) \<Rightarrow> string \<Rightarrow> (Time \<times> ZoneID \<times> bytes \<times> int) list \<Rightarrow> DB \<Rightarrow> DB" where
  \<comment> \<open>the calls of a snapshotter in order, each with the clock of the database\<close>
  "persist jsonb runtime [] db = db"
| "persist jsonb runtime ((now, z, snap, tick) # cs) db =
     persist jsonb runtime cs (snapshotAdapter_Save jsonb runtime z snap tick (db\<lparr>db_now := now\<rparr>))"

definition recovers :: "(bytes \<Rightarrow> error + snapRow list) \<Rightarrow> ZoneID \<Rightarrow> (string \<times> NPCSpec) list \<Rightarrow> DB \<Rightarrow> Game \<Rightarrow> Game" where
  \<comment> \<open>the crash recovery of \<open>main\<close> with what \<open>snapRepo.Latest\<close> answers\<close>
  "recovers unmarshal zid specs db g =
     recover unmarshal (case snap_Latest zid db of Inl err \<Rightarrow> Inl err | Inr (snap, _) \<Rightarrow> Inr snap) specs g"

subsection \<open>What is saved\<close>

definition zone_rows :: "(string \<Rightarrow> order) \<Rightarrow> Game \<Rightarrow> ZoneID \<Rightarrow> zoneSim \<Rightarrow> snapRow list" where
  "zone_rows ord g zid sim = map (\<lambda>i. snap_row (g_ents g (fm_get 0 (sim_entities sim) i))) (ord zid (fmdom' (sim_entities sim)))"

definition zone_saves :: "(snapRow list \<Rightarrow> error + bytes) \<Rightarrow> (string \<Rightarrow> order) \<Rightarrow> Game \<Rightarrow> ZoneID \<Rightarrow> (ZoneID \<times> bytes \<times> int) list" where
  "zone_saves json ord g zid =
     (case fmlookup (g_Zones g) zid of
        None \<Rightarrow> []
      | Some sim \<Rightarrow> (case json (zone_rows ord g zid sim) of Inl _ \<Rightarrow> [] | Inr data \<Rightarrow> [(zid, data, g_tickCount g)]))"

lemma snapshotAllZones_saves:
  "snapshotAllZones json ord g =
     (if g_snapshotter g then g\<lparr>g_saves := g_saves g @ concat (map (zone_saves json ord g) (ord ''zones'' (fmdom' (g_Zones g))))\<rparr> else g)"
proof -
  define f :: "ZoneID \<Rightarrow> Game \<Rightarrow> Game" where "f = (\<lambda>zid g. case fmlookup (g_Zones g) zid of None \<Rightarrow> g
     | Some sim \<Rightarrow> (case json (map (\<lambda>i. snap_row (g_ents g (fm_get 0 (sim_entities sim) i))) (ord zid (fmdom' (sim_entities sim)))) of
         Inl _ \<Rightarrow> g | Inr data \<Rightarrow> g\<lparr>g_saves := g_saves g @ [(zid, data, g_tickCount g)]\<rparr>))"
  have one: "f z (g\<lparr>g_saves := s\<rparr>) = g\<lparr>g_saves := s @ zone_saves json ord g z\<rparr>" for z s
    by (simp add: f_def zone_saves_def zone_rows_def split: option.split sum.split)
  have "fold f zs (g\<lparr>g_saves := s\<rparr>) = g\<lparr>g_saves := s @ concat (map (zone_saves json ord g) zs)\<rparr>" for zs s
    by (induction zs arbitrary: s) (simp_all add: one)
  from this [of "ord ''zones'' (fmdom' (g_Zones g))" "g_saves g"] show ?thesis by (simp add: snapshotAllZones_def f_def)
qed

definition new_saves :: "(snapRow list \<Rightarrow> error + bytes) \<Rightarrow> (string \<Rightarrow> order) \<Rightarrow> Game \<Rightarrow> (ZoneID \<times> bytes \<times> int) list" where
  "new_saves json ord g = drop (length (g_saves g)) (g_saves (snapshotAllZones json ord g))"

lemma new_saves_zone:
  assumes "\<And>l. is_order (ord l)" "g_snapshotter g" "fmlookup (g_Zones g) zid = Some sim" "json (zone_rows ord g zid sim) = Inr data"
  shows "\<exists>pre post. new_saves json ord g = pre @ (zid, data, g_tickCount g) # post \<and> zid \<notin> fst ` set pre \<and> zid \<notin> fst ` set post"
proof -
  let ?zs = "ord ''zones'' (fmdom' (g_Zones g))"
  have "zid \<in> set ?zs" "distinct ?zs" using assms(1,3) by (auto simp: fmlookup_dom'_iff)
  then obtain xs ys where zs: "?zs = xs @ zid # ys" "zid \<notin> set xs" "zid \<notin> set ys" by (metis split_list distinct.simps(2) distinct_append not_distinct_conv_prefix)
  have other: "zid \<notin> fst ` set (concat (map (zone_saves json ord g) us))" if "zid \<notin> set us" for us
    using that by (auto simp: zone_saves_def split: option.splits sum.splits)
  have "zone_saves json ord g zid = [(zid, data, g_tickCount g)]" using assms(3,4) by (simp add: zone_saves_def)
  then have "new_saves json ord g = concat (map (zone_saves json ord g) xs) @ (zid, data, g_tickCount g) # concat (map (zone_saves json ord g) ys)"
    by (simp add: new_saves_def snapshotAllZones_saves assms(2) zs(1))
  with other [OF zs(2)] other [OF zs(3)] show ?thesis by blast
qed

subsection \<open>What is stored\<close>

definition rows_of :: "ZoneID \<Rightarrow> DB \<Rightarrow> zone_state_row list" where
  "rows_of z db = filter (\<lambda>r. st_zone_id r = z) (db_zone_state db)"

lemma Save_frame:
  "db_fault (snapshotAdapter_Save jsonb rt z s t db) = db_fault db" "db_runtimes (snapshotAdapter_Save jsonb rt z s t db) = db_runtimes db"
  "y \<noteq> z \<Longrightarrow> rows_of y (snapshotAdapter_Save jsonb rt z s t db) = rows_of y db"
  "rt |\<notin>| db_runtimes db \<Longrightarrow> snapshotAdapter_Save jsonb rt z s t db = db"
  "rows_of y (db\<lparr>db_now := now\<rparr>) = rows_of y db"
  by (simp_all add: snapshotAdapter_Save_def snap_Save_def rows_of_def Let_def split: option.split)

lemma persist_frame:
  "db_fault (persist jsonb rt cs db) = db_fault db" "db_runtimes (persist jsonb rt cs db) = db_runtimes db"
  "z \<notin> (fst \<circ> snd) ` set cs \<Longrightarrow> rows_of z (persist jsonb rt cs db) = rows_of z db"
  "rt |\<notin>| db_runtimes db \<Longrightarrow> rows_of z (persist jsonb rt cs db) = rows_of z db"
  by (induction cs arbitrary: db rule: list.induct) (auto simp: Save_frame)

lemma persist_append: "persist jsonb rt (cs @ ds) db = persist jsonb rt ds (persist jsonb rt cs db)"
  by (induction cs arbitrary: db) auto

lemma Latest_rows:
  "db_fault db = (\<lambda>_. None) \<Longrightarrow> rows_of z db = rs \<Longrightarrow> newest rs = Some r \<Longrightarrow> snap_Latest z db = Inr (st_snapshot r, st_tick_count r)"
  by (simp add: snap_Latest_def rows_of_def)

lemma Latest_cong: "db_fault db' = db_fault db \<Longrightarrow> rows_of z db' = rows_of z db \<Longrightarrow> snap_Latest z db' = snap_Latest z db"
  unfolding snap_Latest_def rows_of_def [symmetric] by (simp cong: option.case_cong)

lemma persist_latest:
  assumes "db_fault db = (\<lambda>_. None)" "rt |\<in>| db_runtimes db" "jsonb data = Some stored"
    and "\<forall>r \<in> set (rows_of z db). st_taken_at r < now" "z \<notin> (fst \<circ> snd) ` set cs" "z \<notin> (fst \<circ> snd) ` set ds"
  shows "snap_Latest z (persist jsonb rt (cs @ (now, z, data, tick) # ds) db) = Inr (stored, tick)"
proof -
  let ?d = "persist jsonb rt cs db"
  let ?row = "\<lparr>st_zone_id = z, st_runtime_id = rt, st_snapshot = stored, st_tick_count = tick, st_taken_at = now\<rparr>"
  have d: "rows_of z ?d = rows_of z db" using assms(5) by (rule persist_frame(3))
  have "\<forall>r \<in> set (rows_of z ?d). st_taken_at r < now" using assms(4) d by simp
  then have "list_all (\<lambda>r. \<not> (st_zone_id r = z \<and> st_taken_at r = now)) (db_zone_state ?d)"
    by (auto simp: rows_of_def list_all_iff)
  then have "rows_of z (snapshotAdapter_Save jsonb rt z data tick (?d\<lparr>db_now := now\<rparr>)) = rows_of z db @ [?row]"
    using assms(1-3) d by (auto simp: snapshotAdapter_Save_def snap_Save_def rows_of_def persist_frame list_ex_iff list_all_iff Let_def)
  then have "rows_of z (persist jsonb rt (cs @ (now, z, data, tick) # ds) db) = rows_of z db @ [?row]"
    using persist_frame(3) [OF assms(6)] by (simp add: persist_append)
  from Latest_rows [OF _ this newest_snoc] assms(1,4) show ?thesis by (simp add: persist_frame)
qed

subsection \<open>What is made again\<close>

definition live :: "Game \<Rightarrow> EntityID \<Rightarrow> Entity option" where
  "live g i = map_option (g_ents g) (fmlookup (g_Entities g) i)"

lemma bytes_string [simp]: "bytes_of (string_of b) = b"
proof (induction b)
  case (Cons x b)
  have "unat x < 256" by (rule unat8)
  then show ?case using Cons by (simp add: bytes_of_def string_of_def)
qed (simp add: bytes_of_def string_of_def)

definition row_npc :: "snapRow \<Rightarrow> Entity" where
  "row_npc r = npc_of (row_id r) \<lparr>ns_Type = row_type r, ns_Behavior = string_of (row_behavior r),
     ns_Position = row_pos r, ns_Waypoints = [], ns_Radius = 0\<rparr>"

lemma row_npc_simps [simp]:
  "e_ID (row_npc r) = row_id r" "e_Type (row_npc r) = row_type r" "e_Position (row_npc r) = row_pos r" "e_ZoneID (row_npc r) = ''''"
  "e_Attrs (row_npc r) = fmupd ''behavior'' (row_behavior r) fmempty" "lifecycle_ok (e_Lifecycle (row_npc r))"
  by (simp_all add: row_npc_def npc_of_def entity_New_def newBehaviorFor_def)

lemma hydrate_rows: "unmarshal data = Inr rows \<Longrightarrow> hydrateFromSnapshot unmarshal data g = fold addEntity (map row_npc rows) g"
  by (simp add: hydrateFromSnapshot_def row_npc_def fold_map comp_def)

lemma addEntity_live:
  assumes "game_inv g" "fresh_id g (e_ID e)"
  shows "\<exists>sim. live (addEntity e g) = (live g)(e_ID e \<mapsto> derive_space sim (e\<lparr>e_ZoneID := entity_zone e\<rparr>))"
    "fmlookup (g_entityZone (addEntity e g)) j = (if j = e_ID e then Some (entity_zone e) else fmlookup (g_entityZone g) j)"
proof -
  obtain sim g' where es: "ensure_sim (entity_zone e) g = (sim, g')" by (cases "ensure_sim (entity_zone e) g")
  note ok = ensure_sim_ok [OF assms(1) es]
  have "g_nextEnt g \<noteq> r" if "fmlookup (g_Entities g) i = Some r" for i r
    by (rule inv_liveE [OF assms(1) that]) simp
  then have "live (addEntity e g) = (live g)(e_ID e \<mapsto> derive_space sim (e\<lparr>e_ZoneID := entity_zone e\<rparr>))"
    using es ok(4-6) by (intro ext) (auto simp: live_def addEntity_def Let_def map_option_case split: option.split)
  then show "\<exists>sim. live (addEntity e g) = (live g)(e_ID e \<mapsto> derive_space sim (e\<lparr>e_ZoneID := entity_zone e\<rparr>))" by blast
  show "fmlookup (g_entityZone (addEntity e g)) j = (if j = e_ID e then Some (entity_zone e) else fmlookup (g_entityZone g) j)"
    using es ok(7) by (simp add: addEntity_def Let_def)
qed

lemma fresh_addEntity:
  assumes "game_inv g" "fresh_id g j" "j \<noteq> e_ID e"
  shows "fresh_id (addEntity e g) j"
proof -
  obtain sim g' where es: "ensure_sim (entity_zone e) g = (sim, g')" by (cases "ensure_sim (entity_zone e) g")
  let ?e = "derive_space sim (e\<lparr>e_ZoneID := entity_zone e\<rparr>)"
  note ok = ensure_sim_ok [OF assms(1) es]
  have "fresh_id g' j" using ok(3) assms(2) by blast
  then have "fresh_id (put_entity (entity_zone e) sim ?e g') j"
    using assms(3) ok(2) aoi_agree_Enter [of j "e_ID e" "e_Position e" "g_aois g' (sim_aoi sim)"]
    by (auto simp: fresh_id_def put_entity_def aoi_agree_def split: if_splits)
  with fresh_core [OF addEntity_core [OF es]] show ?thesis by blast
qed

lemma adds_fresh:
  assumes "game_inv g" "\<forall>r \<in> set rows. fresh_id g (row_id r)" "distinct (map row_id rows)"
  shows "adds_ok (map row_npc rows) g"
  using assms
proof (induction rows arbitrary: g)
  case (Cons r rows)
  then show ?case by (auto simp: image_iff intro!: Cons.IH inv_addEntity fresh_addEntity)
qed simp

definition restored :: "snapRow \<Rightarrow> Entity \<Rightarrow> bool" where
  "restored r e \<longleftrightarrow> e_ID e = row_id r \<and> e_Type e = row_type r \<and> e_Position e = row_pos r
     \<and> fm_get [] (e_Attrs e) ''behavior'' = row_behavior r \<and> e_ZoneID e = DefaultZoneID"

lemma adds_live:
  assumes "game_inv g" "adds_ok (map row_npc rows) g" "distinct (map row_id rows)"
  shows "dom (live (fold addEntity (map row_npc rows) g)) = dom (live g) \<union> row_id ` set rows
    \<and> (\<forall>i \<in> - row_id ` set rows. live (fold addEntity (map row_npc rows) g) i = live g i)
    \<and> (\<forall>r \<in> set rows. \<exists>e. live (fold addEntity (map row_npc rows) g) (row_id r) = Some e \<and> restored r e)"
  using assms
proof (induction rows arbitrary: g)
  case (Cons r rows)
  let ?g = "addEntity (row_npc r) g"
  have f: "fresh_id g (row_id r)" "adds_ok (map row_npc rows) ?g" using Cons.prems(2) by simp_all
  have inv: "game_inv ?g" using Cons.prems(1) f by (simp add: inv_addEntity)
  obtain sim where l: "live ?g = (live g)(row_id r \<mapsto> derive_space sim ((row_npc r)\<lparr>e_ZoneID := DefaultZoneID\<rparr>))"
    using addEntity_live(1) [OF Cons.prems(1), of "row_npc r"] f by (auto simp: entity_zone_def)
  have "e_Attrs (derive_space sim e) = e_Attrs e" for e by (simp add: derive_space_def split: option.split)
  then have "restored r (derive_space sim ((row_npc r)\<lparr>e_ZoneID := DefaultZoneID\<rparr>))" by (simp add: restored_def fm_get_def)
  with Cons.IH [OF inv f(2)] Cons.prems(3) l show ?case by auto
qed simp


subsection \<open>A zone through a crash\<close>

lemma fresh_New: "fresh_id (WithSnapshotter every (WithTickRate d (game_New sid))) i = plain_id i"
  by (simp add: fresh_id_def game_New_def WithSnapshotter_def WithTickRate_def)

lemma recovered:
  assumes "snap_Latest zid db = Inr (stored, tick)" "unmarshal stored = Inr rows"
    and "distinct (map row_id rows)" "\<forall>r \<in> set rows. plain_id (row_id r)"
    and "g0 = WithSnapshotter every (WithTickRate d (game_New sid))"
  shows "game_inv (recovers unmarshal zid specs db g0) \<and> dom (live (recovers unmarshal zid specs db g0)) = row_id ` set rows
    \<and> (\<forall>r \<in> set rows. \<exists>e. live (recovers unmarshal zid specs db g0) (row_id r) = Some e \<and> restored r e)"
proof -
  have inv: "game_inv g0" by (simp add: assms(5) inv_options game_inv_New)
  have "adds_ok (map row_npc rows) g0" using adds_fresh [OF inv _ assms(3)] assms(4) by (simp add: assms(5) fresh_New)
  moreover have "recovers unmarshal zid specs db g0 = fold addEntity (map row_npc rows) g0"
    using assms(1,2) by (simp add: recovers_def recover_def hydrate_rows)
  moreover have "dom (live g0) = {}" by (auto simp: assms(5) live_def game_New_def WithSnapshotter_def WithTickRate_def)
  ultimately show ?thesis using adds_live [OF inv _ assms(3)] inv_adds [OF inv] by simp
qed


definition demo_npc :: Entity where
  "demo_npc = (entity_New ''n1'' ''guard'' '''')\<lparr>e_Position := \<lparr>vX = 3, vY = 0, vZ = 4\<rparr>\<rparr>"

definition demo_world :: Game where
  "demo_world = WithSnapshotter 5 (addEntity demo_npc (game_New ''gs''))"

definition demo_rows :: "snapRow list" where
  "demo_rows = [\<lparr>row_id = ''n1'', row_type = ''guard'', row_behavior = [], row_pos = \<lparr>vX = 3, vY = 0, vZ = 4\<rparr>\<rparr>]"

definition demo_sim :: zoneSim where
  "demo_sim = \<lparr>sim_zone = None, sim_aoi = 0, sim_entities = fmupd ''n1'' 0 fmempty\<rparr>"

lemma demo_world_simps:
  "game_reach demo_world" "g_snapshotter demo_world" "g_Zones demo_world = fmupd DefaultZoneID demo_sim fmempty"
  "g_saves demo_world = []" "g_tickCount demo_world = 0" "zone_rows (\<lambda>_. sorted_list_of_set) demo_world DefaultZoneID demo_sim = demo_rows"
proof -
  have "cmd_ok (AddCmd demo_npc) (game_New ''gs'')" by (simp add: fresh_id_def game_New_def demo_npc_def entity_New_def plain_id_def)
  then show "game_reach demo_world" unfolding demo_world_def by (intro reach_snapshotter reach_add reach_new)
qed (simp_all add: demo_world_def WithSnapshotter_def addEntity_def game_New_def demo_npc_def entity_New_def entity_zone_def ensure_sim_def
      derive_space_def Let_def demo_sim_def zone_rows_def demo_rows_def snap_row_def fm_get_def)

definition demo_marshal :: "snapRow list \<Rightarrow> error + bytes" where
  "demo_marshal rows = (if rows = demo_rows then Inr [7] else Inl (ErrText ''other''))"

definition demo_unmarshal :: "bytes \<Rightarrow> error + snapRow list" where
  "demo_unmarshal b = (if b = [7] then Inr demo_rows else Inl (ErrText ''other''))"


end
