(* ===== verification/Gateway_Props.thy ===== *)
theory Gateway_Props
  imports Gateway "HOL-Library.Sublist"
begin

section \<open>What the gateway promises\<close>

text \<open>
  Who is admitted and where a client is routed, what the counters and the pool hold along every
  interleaving of requests and relays, and what passes through a relay.
\<close>

subsection \<open>Admission\<close>

lemma count_active_inverse [simp]: "count_active (- 1) (count_active 1 h) = h"
  by (cases "h_reg h") (simp_all add: count_active_def)

lemma count_active_fields [simp]:
  "h_pool (count_active d h) = h_pool h" "h_draining (count_active d h) = h_draining h"
  "h_lookuper (count_active d h) = h_lookuper h" "h_jwtSecret (count_active d h) = h_jwtSecret h"
  "h_conns (count_active d h) = h_conns h + d" "h_softLimit (count_active d h) = h_softLimit h"
  "h_readyFn (count_active d h) = h_readyFn h"
  by (simp_all add: count_active_def)

lemma count_active_pool [simp]: "count_active d (h\<lparr>h_pool := p\<rparr>) = (count_active d h)\<lparr>h_pool := p\<rparr>"
  by (simp add: count_active_def)

definition session_for :: "Claims \<Rightarrow> Session" where
  "session_for c = NewSession (cm_PlayerID c) (cm_PlayerID c) (cm_ZoneID c) ''''"

definition start_for :: "Claims \<Rightarrow> string \<Rightarrow> nat \<Rightarrow> relay_start" where
  "start_for c addr conn =
     \<lparr>rt_conn = conn, rt_readLimit = 64 * 1024, rt_clientID = cm_PlayerID c, rt_addr = addr, rt_claims = c\<rparr>"

lemma ws_serve_eq:
  "ws_serve accept c h st =
     (case h_lookuper h (cm_ZoneID c) st of
        (Inl err, st) \<Rightarrow> ((Answer 503 ''zone not available'', None), h, st)
      | (Inr addr, st) \<Rightarrow>
          (case accept of
             Inl err \<Rightarrow> ((AcceptFailed err, None), h, st)
           | Inr conn \<Rightarrow> ((Upgraded conn, Some (start_for c addr conn)), h\<lparr>h_pool := pool_Add (session_for c) (h_pool h)\<rparr>, st)))"
  by (simp add: ws_serve_def start_for_def session_for_def Let_def split: prod.split sum.split)

lemma handleWS_eq:
  "handleWS Parse accept r h st =
     (if h_draining h then ((Answer 503 ''draining'', None), h, st)
      else if rq_token r = '''' then ((Answer 400 ''missing token'', None), h, st)
      else
        (case ValidateToken Parse (rq_token r) (h_jwtSecret h) of
           Inl err \<Rightarrow> ((Answer 401 ''invalid token'', None), h, st)
         | Inr c \<Rightarrow> ws_serve accept c h st))"
  by (simp add: handleWS_def ws_begin_def ws_serve_eq split: prod.split sum.split)


definition demo_hmac :: jwt_token where
  "demo_hmac = \<lparr>tk_Method = SigningMethodHMAC, tk_alg = ''HS256'',
     tk_Claims = MapClaims (fmap_of_list [(''player_id'', JString ''p1''), (''zone_id'', JString ''z1'')]), tk_Valid = False\<rparr>"

definition hmac_parse :: jwt_parser where
  "hmac_parse s kf =
     (case kf demo_hmac of
        Inl err \<Rightarrow> Inl err
      | Inr key \<Rightarrow> if key = Secret [1] then Inr (demo_hmac\<lparr>tk_Valid := True\<rparr>) else Inl (ErrText ''signature is invalid''))"

definition demo_request :: http_request where
  "demo_request = \<lparr>rq_Method = ''GET'', rq_Path = ''/ws'', rq_token = ''t''\<rparr>"

definition demo_claims :: Claims where
  "demo_claims = \<lparr>cm_RuntimeID = '''', cm_PlayerID = ''p1'', cm_ZoneID = ''z1''\<rparr>"

lemma hmac_parse_law: "jwt_law hmac_parse (\<lambda>_. Some demo_hmac) (\<lambda>_ key. key = Secret [1])"
  by (auto simp: jwt_law_def hmac_parse_def split: sum.splits)

lemma demo_valid: "ValidateToken hmac_parse s [1] = Inr demo_claims"
  by (simp add: ValidateToken_iff [OF hmac_parse_law] demo_hmac_def demo_claims_def getString_def)


subsection \<open>Requests and relays together\<close>

record 's gateway =
  gw_h :: "'s Handler"
  gw_st :: 's
  gw_hand :: "Claims list"            \<comment> \<open>requests for a WebSocket that are being served\<close>
  gw_relays :: "relay_start list"     \<comment> \<open>relays that run\<close>

datatype gw_event =
    WSBegin http_request
  | WSFinish nat "error + nat"
  | RelayEnds nat
  | Drain bool

fun gw_step :: "jwt_parser \<Rightarrow> gw_event \<Rightarrow> 's gateway \<Rightarrow> 's gateway" where
  "gw_step Parse (WSBegin r) g =
     (case ws_begin Parse r (gw_h g) of
        (Inl a, h) \<Rightarrow> g\<lparr>gw_h := h\<rparr>
      | (Inr c, h) \<Rightarrow> g\<lparr>gw_h := h, gw_hand := gw_hand g @ [c]\<rparr>)"
| "gw_step Parse (WSFinish i accept) g =
     (if i < length (gw_hand g) then
        (case ws_serve accept (gw_hand g ! i) (gw_h g) (gw_st g) of
           ((a, rel), h, st) \<Rightarrow>
             g\<lparr>gw_h := count_active (- 1) h, gw_st := st, gw_hand := take i (gw_hand g) @ drop (Suc i) (gw_hand g),
               gw_relays := gw_relays g @ (case rel of None \<Rightarrow> [] | Some s \<Rightarrow> [s])\<rparr>)
      else g)"
| "gw_step Parse (RelayEnds i) g =
     (if i < length (gw_relays g) then
        g\<lparr>gw_h := relay_leave (rt_clientID (gw_relays g ! i)) (gw_h g),
          gw_relays := take i (gw_relays g) @ drop (Suc i) (gw_relays g)\<rparr>
      else g)"
| "gw_step Parse (Drain v) g = g\<lparr>gw_h := SetDraining v (gw_h g)\<rparr>"

definition gw_run :: "jwt_parser \<Rightarrow> gw_event list \<Rightarrow> 's gateway \<Rightarrow> 's gateway" where
  "gw_run Parse evs g = fold (gw_step Parse) evs g"

definition authentic :: "jwt_parser \<Rightarrow> bytes \<Rightarrow> Claims \<Rightarrow> bool" where
  "authentic Parse secret c \<longleftrightarrow> (\<exists>token. token \<noteq> '''' \<and> ValidateToken Parse token secret = Inr c)"

definition gw_inv :: "jwt_parser \<Rightarrow> bytes \<Rightarrow> 's gateway \<Rightarrow> bool" where
  "gw_inv Parse secret g \<longleftrightarrow>
     h_jwtSecret (gw_h g) = secret
   \<and> h_conns (gw_h g) = int (length (gw_hand g))
   \<and> (\<forall>c \<in> set (gw_hand g). authentic Parse secret c)
   \<and> (\<forall>s \<in> set (gw_relays g). authentic Parse secret (rt_claims s) \<and> rt_clientID s = cm_PlayerID (rt_claims s))
   \<and> (\<forall>p sn. pool_Get p (h_pool (gw_h g)) = Some sn \<longrightarrow>
         (\<exists>s \<in> set (gw_relays g). rt_clientID s = p \<and> sn = session_for (rt_claims s)))"

lemma remove_nth_set: "i < length xs \<Longrightarrow> set xs = insert (xs ! i) (set (take i xs @ drop (Suc i) xs))"
  by (subst id_take_nth_drop [of i xs]) auto

lemma remove_nth_length: "i < length xs \<Longrightarrow> int (length (take i xs @ drop (Suc i) xs)) = int (length xs) - 1"
  by auto

lemma gw_inv_begin: "gw_inv Parse secret g \<Longrightarrow> gw_inv Parse secret (gw_step Parse (WSBegin r) g)"
  by (auto simp: gw_inv_def ws_begin_def authentic_def split: sum.splits if_splits)

lemma gw_inv_finish:
  assumes inv: "gw_inv Parse secret g"
  shows "gw_inv Parse secret (gw_step Parse (WSFinish i accept) g)"
proof (cases "i < length (gw_hand g)")
  case True
  let ?c = "gw_hand g ! i" and ?rest = "take i (gw_hand g) @ drop (Suc i) (gw_hand g)"
  have c: "authentic Parse secret ?c" and rest: "\<forall>c \<in> set ?rest. authentic Parse secret c"
    using inv remove_nth_set [OF True] by (auto simp: gw_inv_def)
  obtain x st' where l: "h_lookuper (gw_h g) (cm_ZoneID ?c) (gw_st g) = (x, st')"
    by (cases "h_lookuper (gw_h g) (cm_ZoneID ?c) (gw_st g)")
  show ?thesis
  proof (cases "(\<exists>addr. x = Inr addr) \<and> (\<exists>conn. accept = Inr conn)")
    case ok: True
    then obtain addr conn where "x = Inr addr" "accept = Inr conn" by blast
    then have step: "gw_step Parse (WSFinish i accept) g =
        g\<lparr>gw_h := count_active (- 1) ((gw_h g)\<lparr>h_pool := pool_Add (session_for ?c) (h_pool (gw_h g))\<rparr>), gw_st := st',
          gw_hand := ?rest, gw_relays := gw_relays g @ [start_for ?c addr conn]\<rparr>"
      using True l by (simp add: ws_serve_eq)
    show ?thesis unfolding step using inv c rest remove_nth_length [OF True]
      by (auto simp: gw_inv_def pool_Get_def pool_Add_def start_for_def session_for_def NewSession_def)
  next
    case False
    then have step: "gw_step Parse (WSFinish i accept) g = g\<lparr>gw_h := count_active (- 1) (gw_h g), gw_st := st', gw_hand := ?rest\<rparr>"
      using True l by (auto simp: ws_serve_eq split: sum.splits)
    show ?thesis unfolding step using inv rest remove_nth_length [OF True] by (auto simp: gw_inv_def)
  qed
qed (use inv in simp)

lemma gw_inv_end:
  fixes g :: "'s gateway"
  assumes inv: "gw_inv Parse secret g"
  shows "gw_inv Parse secret (gw_step Parse (RelayEnds i) g)"
proof (cases "i < length (gw_relays g)")
  case True
  let ?s = "gw_relays g ! i" and ?rest = "take i (gw_relays g) @ drop (Suc i) (gw_relays g)"
  have pool: "\<exists>s \<in> set ?rest. rt_clientID s = p \<and> sn = session_for (rt_claims s)"
    if "p \<noteq> rt_clientID ?s" "fmlookup (h_pool (gw_h g)) p = Some sn" for p sn
    using inv that unfolding gw_inv_def pool_Get_def remove_nth_set [OF True] by blast
  have rest: "set ?rest \<subseteq> set (gw_relays g)" using remove_nth_set [OF True] by blast
  have step: "gw_h (gw_step Parse (RelayEnds i) g) = relay_leave (rt_clientID ?s) (gw_h g)"
    "gw_hand (gw_step Parse (RelayEnds i) g) = gw_hand g" "gw_relays (gw_step Parse (RelayEnds i) g) = ?rest"
    using True by simp_all
  have fields: "h_jwtSecret (relay_leave p h) = h_jwtSecret h" "h_conns (relay_leave p h) = h_conns h"
    "pool_Get q (h_pool (relay_leave p h)) = (if p = q then None else fmlookup (h_pool h) q)" for p q and h :: "'s Handler"
    by (simp_all add: relay_leave_def pool_Get_def pool_Remove_def)
  show ?thesis
    unfolding gw_inv_def step fields
  proof (intro conjI allI impI)
    show "h_jwtSecret (gw_h g) = secret" "h_conns (gw_h g) = int (length (gw_hand g))"
      "\<forall>c \<in> set (gw_hand g). authentic Parse secret c"
      using inv by (simp_all add: gw_inv_def)
    show "\<forall>s \<in> set ?rest. authentic Parse secret (rt_claims s) \<and> rt_clientID s = cm_PlayerID (rt_claims s)"
      using inv rest unfolding gw_inv_def by blast
    fix p sn
    assume "(if rt_clientID ?s = p then None else fmlookup (h_pool (gw_h g)) p) = Some sn"
    then show "\<exists>s \<in> set ?rest. rt_clientID s = p \<and> sn = session_for (rt_claims s)"
      by (intro pool) (auto split: if_splits)
  qed
qed (use inv in simp)

lemma gw_inv_drain:
  assumes "gw_inv Parse secret g"
  shows "gw_inv Parse secret (gw_step Parse (Drain v) g)"
proof -
  have "gw_h (gw_step Parse (Drain v) g) = (gw_h g)\<lparr>h_draining := v\<rparr>"
    "gw_hand (gw_step Parse (Drain v) g) = gw_hand g" "gw_relays (gw_step Parse (Drain v) g) = gw_relays g"
    by (simp_all add: SetDraining_def)
  moreover have "h_jwtSecret (h\<lparr>h_draining := v\<rparr>) = h_jwtSecret h" "h_conns (h\<lparr>h_draining := v\<rparr>) = h_conns h"
    "h_pool (h\<lparr>h_draining := v\<rparr>) = h_pool h" for h :: "'a Handler" by simp_all
  ultimately show ?thesis using assms unfolding gw_inv_def by presburger
qed

lemma gw_inv_run: "gw_inv Parse secret g \<Longrightarrow> gw_inv Parse secret (gw_run Parse evs g)"
proof (induction evs arbitrary: g)
  case (Cons e evs)
  have "gw_inv Parse secret (gw_step Parse e g)"
    using Cons.prems by (cases e) (simp_all only: gw_inv_begin gw_inv_finish gw_inv_end gw_inv_drain)
  with Cons.IH show ?case by (simp add: gw_run_def)
qed (simp add: gw_run_def)

lemma pool_backed:
  assumes "gw_inv Parse secret g"
  shows "pool_Count (h_pool (gw_h g)) \<le> int (length (gw_relays g))"
proof -
  have "fmdom' (h_pool (gw_h g)) \<subseteq> set (map rt_clientID (gw_relays g))"
    using assms by (fastforce simp: gw_inv_def pool_Get_def fmlookup_dom'_iff)
  then have "card (fmdom' (h_pool (gw_h g))) \<le> card (set (map rt_clientID (gw_relays g)))"
    by (intro card_mono) simp_all
  also have "\<dots> \<le> length (gw_relays g)" using card_length [of "map rt_clientID (gw_relays g)"] by simp
  finally show ?thesis by (simp add: pool_Count_def fm_len_def)
qed

definition gw_start :: "(string \<Rightarrow> 's \<Rightarrow> (error + string) \<times> 's) \<Rightarrow> bytes \<Rightarrow> RouterCache \<Rightarrow> 's \<Rightarrow> 's gateway" where
  "gw_start lookuper secret cache st =
     \<lparr>gw_h = NewHandler cache lookuper secret, gw_st = st, gw_hand = [], gw_relays = []\<rparr>"

lemma gw_inv_start: "gw_inv Parse secret (gw_start lookuper secret cache st)"
  by (simp add: gw_inv_def gw_start_def NewHandler_def NewPool_def pool_Get_def)

text \<open>
  C20. Along every interleaving of requests, relays and draining: every relay that runs was started
  with the claims of a token that validates with the gateway's secret and for the player named there;
  every session of the pool is that of a relay that runs, so the pool never counts more sessions than
  there are relays; and the count of connections is the number of requests being served, whatever the
  number of relays that run.
\<close>

theorem gateway_sessions:
  assumes "g = gw_run Parse evs (gw_start lookuper secret cache st)"
  shows "(\<forall>s \<in> set (gw_relays g).
        (\<exists>token. token \<noteq> '''' \<and> ValidateToken Parse token secret = Inr (rt_claims s)) \<and> rt_clientID s = cm_PlayerID (rt_claims s))
    \<and> (\<forall>p sn. pool_Get p (h_pool (gw_h g)) = Some sn \<longrightarrow>
         (\<exists>s \<in> set (gw_relays g). rt_clientID s = p \<and> sn = session_for (rt_claims s)))
    \<and> pool_Count (h_pool (gw_h g)) \<le> int (length (gw_relays g))
    \<and> ConnCount (gw_h g) = int (length (gw_hand g))"
proof -
  have "gw_inv Parse secret g" unfolding assms by (intro gw_inv_run gw_inv_start)
  then show ?thesis using pool_backed unfolding gw_inv_def authentic_def ConnCount_def by blast
qed

theorem gateway_sessions_witness:
  "let g = gw_run hmac_parse [WSBegin demo_request, WSFinish 0 (Inr 7)] (gw_start (\<lambda>z st. (Inr z, st)) [1] (NewRouterCache 5) ())
   in gw_relays g = [start_for demo_claims ''z1'' 7] \<and> ConnCount (gw_h g) = 0 \<and> pool_Count (h_pool (gw_h g)) \<le> 1
     \<and> (\<exists>token. token \<noteq> '''' \<and> ValidateToken hmac_parse token [1] = Inr demo_claims)"
proof -
  define g where "g = gw_run hmac_parse [WSBegin demo_request, WSFinish 0 (Inr 7)] (gw_start (\<lambda>z st. (Inr z, st)) [1] (NewRouterCache 5) ())"
  have r: "gw_relays g = [start_for demo_claims ''z1'' 7]" "gw_hand g = []"
    by (simp_all add: g_def gw_run_def gw_start_def ws_begin_def NewHandler_def ws_serve_eq demo_valid demo_request_def)
      (simp_all add: demo_claims_def)
  with gateway_sessions [OF g_def] show ?thesis
    unfolding g_def [symmetric] Let_def by (simp add: start_for_def)
qed


subsection \<open>What passes through a relay\<close>

type_synonym 's relay_history = "(relay_event \<times> 's Handler) list"

definition relay_run :: "'s relay_history \<Rightarrow> relay \<Rightarrow> relay" where
  \<comment> \<open>the steps of one relay, each with the handler as other relays and requests left it\<close>
  "relay_run hist rl = fold (\<lambda>(ev, h) rl. fst (relay_step ev rl h)) hist rl"

fun event_data :: "relay_event \<Rightarrow> bytes option" where
  "event_data (ClientReads r) = (case cr_data r of Inr data \<Rightarrow> Some data | Inl _ \<Rightarrow> None)"
| "event_data _ = None"

fun event_payload :: "relay_event \<Rightarrow> bytes option" where
  "event_payload (ServerSends (Inr pkt) res) = Some (rp_Payload pkt)"
| "event_payload _ = None"

fun event_time :: "relay_event \<Rightarrow> Time option" where
  "event_time (ClientReads r) = Some (cr_now r)"
| "event_time _ = None"

definition of_kind :: "int \<Rightarrow> RelayPacket list \<Rightarrow> RelayPacket list" where
  "of_kind k ps = filter (\<lambda>p. rp_Kind p = k) ps"

lemma of_kind_append [simp]: "of_kind k (ps @ qs) = of_kind k ps @ of_kind k qs"
  by (simp add: of_kind_def)

lemma packet_fields [simp]: "rp_ClientId (packet c k) = c" "rp_Kind (packet c k) = k"
  by (simp_all add: packet_def)

definition relay_ok :: "Time \<Rightarrow> RelayPacket list \<Rightarrow> bytes list \<Rightarrow> bytes list \<Rightarrow> relay \<Rightarrow> bool" where
  "relay_ok now0 connect ds ws rl \<longleftrightarrow>
     (\<exists>rest. rl_sent rl = connect @ rest \<and> of_kind KIND_CONNECT rest = [])
   \<and> (\<forall>p \<in> set (rl_sent rl). rp_ClientId p = rl_clientID rl \<and> rp_Kind p \<in> {KIND_CONNECT, KIND_DATA, KIND_PEER_DISCONNECTED})
   \<and> length (of_kind KIND_PEER_DISCONNECTED (rl_sent rl)) \<le> of_bool (rl_main rl \<noteq> Relaying)
   \<and> subseq (map rp_Payload (of_kind KIND_DATA (rl_sent rl))) ds
   \<and> (rl_writer rl \<longrightarrow> rl_written rl = ws) \<and> prefix (rl_written rl) ws
   \<and> tb_ok (cl_bucket (rl_connLimiter rl)) \<and> tb_rate (cl_bucket (rl_connLimiter rl)) = 100
   \<and> tb_tokens (cl_bucket (rl_connLimiter rl)) + length (of_kind KIND_DATA (rl_sent rl))
       \<le> 100 + 100 * dur_Seconds (tb_lastTime (cl_bucket (rl_connLimiter rl)) - now0)
   \<and> length (rl_errCh rl) + of_bool (rl_main rl \<noteq> Relaying) = of_bool (\<not> rl_reader rl) + of_bool (\<not> rl_writer rl)"

lemma relay_ok_limiter:
  assumes "relay_ok now0 connect ds ws rl" "tb_lastTime (cl_bucket (rl_connLimiter rl)) \<le> t"
  defines "l \<equiv> snd (cl_allow t (rl_connLimiter rl))"
  shows "tb_ok (cl_bucket l)" "tb_rate (cl_bucket l) = 100" "tb_lastTime (cl_bucket l) = t"
    "tb_tokens (cl_bucket l) + of_bool (fst (cl_allow t (rl_connLimiter rl))) + length (of_kind KIND_DATA (rl_sent rl)) \<le> 100 + 100 * dur_Seconds (t - now0)"
proof -
  let ?b = "cl_bucket (rl_connLimiter rl)"
  have r: "tb_ok ?b" "tb_rate ?b = 100" "tb_tokens ?b + length (of_kind KIND_DATA (rl_sent rl)) \<le> 100 + 100 * dur_Seconds (tb_lastTime ?b - now0)"
    using assms(1) by (simp_all add: relay_ok_def)
  show "tb_ok (cl_bucket l)" "tb_rate (cl_bucket l) = 100" "tb_lastTime (cl_bucket l) = t"
    unfolding l_def using cl.allow_inv [of "rl_connLimiter rl" t] cl.allow_rate [of t "rl_connLimiter rl"]
      cl.allow_clock [of t "rl_connLimiter rl"] r assms(2) by simp_all
  have "dur_Seconds (t - now0) = dur_Seconds (t - tb_lastTime ?b) + dur_Seconds (tb_lastTime ?b - now0)"
    by (simp add: go_simps diff_divide_distrib)
  then show "tb_tokens (cl_bucket l) + of_bool (fst (cl_allow t (rl_connLimiter rl))) + length (of_kind KIND_DATA (rl_sent rl)) \<le> 100 + 100 * dur_Seconds (t - now0)"
    unfolding l_def using cl.allow_budget [of "rl_connLimiter rl" t] r assms(2) by (simp add: distrib_left)
qed

lemma relay_ok_more:
  "relay_ok now0 connect ds ws rl \<Longrightarrow> relay_ok now0 connect (ds @ ds') ws rl"
  "relay_ok now0 connect ds ws rl \<Longrightarrow> \<not> rl_writer rl \<Longrightarrow> relay_ok now0 connect ds (ws @ ws') rl"
  by (auto simp: relay_ok_def intro: list_emb_prefix)

lemma relay_read_cases:
  obtains
    (failed) err where "cr_data r = Inl err" "fst (relay_read r rl h) = rl\<lparr>rl_errCh := rl_errCh rl @ [err], rl_reader := False\<rparr>"
  | (dropped) data where "cr_data r = Inr data" "fst (relay_read r rl h) = rl\<lparr>rl_connLimiter := snd (cl_allow (cr_now r) (rl_connLimiter rl))\<rparr>"
  | (send_failed) data err where "cr_data r = Inr data"
      "fst (relay_read r rl h) = rl\<lparr>rl_connLimiter := snd (cl_allow (cr_now r) (rl_connLimiter rl)), rl_errCh := rl_errCh rl @ [err], rl_reader := False\<rparr>"
  | (sent) data where "cr_data r = Inr data" "fst (cl_allow (cr_now r) (rl_connLimiter rl))"
      "fst (relay_read r rl h) = rl\<lparr>rl_connLimiter := snd (cl_allow (cr_now r) (rl_connLimiter rl)),
          rl_sent := rl_sent rl @ [(packet (rl_clientID rl) KIND_DATA)\<lparr>rp_Payload := data\<rparr>]\<rparr>"
proof (cases "cr_data r")
  case (Inl err)
  then show ?thesis by (intro failed [of err]) (simp_all add: relay_read_def go_simps)
next
  case (Inr data)
  obtain ok l where l: "cl_allow (cr_now r) (rl_connLimiter rl) = (ok, l)" by (cases "cl_allow (cr_now r) (rl_connLimiter rl)")
  obtain ip h' where h': "ip_allow (rl_clientID rl) r h = (ip, h')" by (cases "ip_allow (rl_clientID rl) r h")
  show ?thesis
  proof (cases "ok \<and> ip")
    case False
    then show ?thesis using Inr l h' by (intro dropped [of data]) (auto simp: relay_read_def Let_def split: bool.splits)
  next
    case True
    show ?thesis
    proof (cases "cancelled (rl\<lparr>rl_connLimiter := l\<rparr>) (cr_send r)")
      case None
      then show ?thesis using Inr l h' True by (intro sent [of data]) (simp_all add: relay_read_def Let_def)
    next
      case (Some err)
      then show ?thesis using Inr l h' True by (intro send_failed [of data err]) (simp_all add: relay_read_def Let_def go_simps)
    qed
  qed
qed

lemma relay_ok_read:
  assumes ok: "relay_ok now0 connect ds ws rl" and t: "tb_lastTime (cl_bucket (rl_connLimiter rl)) \<le> cr_now r" and live: "rl_reader rl"
  shows "relay_ok now0 connect (ds @ (case cr_data r of Inr d \<Rightarrow> [d] | Inl _ \<Rightarrow> [])) ws (fst (relay_read r rl h))"
proof -
  let ?l = "snd (cl_allow (cr_now r) (rl_connLimiter rl))"
  note lim = relay_ok_limiter [OF ok t]
  have weak: "tb_tokens (cl_bucket ?l) + length (of_kind KIND_DATA (rl_sent rl)) \<le> 100 + 100 * dur_Seconds (cr_now r - now0)"
    using lim(4) by (cases "fst (cl_allow (cr_now r) (rl_connLimiter rl))") simp_all
  have limited: "relay_ok now0 connect (ds @ ds') ws (rl\<lparr>rl_connLimiter := ?l\<rparr>)" for ds'
    using ok lim(1-3) weak by (simp add: relay_ok_def list_emb_prefix)
  show ?thesis
  proof (cases rule: relay_read_cases [of r rl h])
    case (failed err)
    then show ?thesis using ok live by (simp add: relay_ok_def)
  next
    case (dropped data)
    then show ?thesis using limited by simp
  next
    case (send_failed data err)
    then show ?thesis using limited [of "[data]"] live by (simp add: relay_ok_def)
  next
    case (sent data)
    obtain rest where "rl_sent rl = connect @ rest" "of_kind KIND_CONNECT rest = []" using ok by (auto simp: relay_ok_def)
    moreover have "subseq (map rp_Payload (of_kind KIND_DATA (rl_sent rl)) @ [data]) (ds @ [data])"
      using ok by (intro list_emb_append_mono) (simp_all add: relay_ok_def)
    ultimately show ?thesis using ok lim sent by (simp add: relay_ok_def of_kind_def)
  qed
qed


lemma relay_ok_write:
  assumes "relay_ok now0 connect ds ws rl" "rl_writer rl"
  shows "relay_ok now0 connect ds (ws @ (case recv of Inr p \<Rightarrow> [rp_Payload p] | Inl _ \<Rightarrow> [])) (fst (relay_write recv res rl h))"
  using assms by (cases recv) (auto simp: relay_ok_def relay_write_def go_simps split: option.split)

lemma relay_ok_main:
  assumes "relay_ok now0 connect ds ws rl"
  shows "relay_ok now0 connect ds ws (fst (relay_step (MainWakes res) rl h))" "relay_ok now0 connect ds ws (fst (relay_step MainReturns rl h))"
proof -
  obtain rest where "rl_sent rl = connect @ rest" "of_kind KIND_CONNECT rest = []" using assms by (auto simp: relay_ok_def)
  then show "relay_ok now0 connect ds ws (fst (relay_step (MainWakes res) rl h))"
    using assms by (cases "rl_errCh rl") (auto simp: relay_ok_def of_kind_def)
  show "relay_ok now0 connect ds ws (fst (relay_step MainReturns rl h))"
    using assms by (auto simp: relay_ok_def)
qed

definition relay_clock :: "relay \<Rightarrow> Time" where
  "relay_clock rl = tb_lastTime (cl_bucket (rl_connLimiter rl))"

lemma relay_ok_step:
  assumes ok: "relay_ok now0 connect ds ws rl" and t: "\<And>t. event_time ev = Some t \<Longrightarrow> relay_clock rl \<le> t"
  shows "relay_ok now0 connect (ds @ (case event_data ev of Some d \<Rightarrow> [d] | None \<Rightarrow> []))
      (ws @ (case event_payload ev of Some d \<Rightarrow> [d] | None \<Rightarrow> [])) (fst (relay_step ev rl h))
    \<and> (case event_time ev of Some t \<Rightarrow> relay_clock (fst (relay_step ev rl h)) \<le> t | None \<Rightarrow> relay_clock (fst (relay_step ev rl h)) = relay_clock rl)"
proof (cases ev)
  case (ClientReads r)
  have d: "(case event_data ev of Some d \<Rightarrow> [d] | None \<Rightarrow> []) = (case cr_data r of Inr d \<Rightarrow> [d] | Inl _ \<Rightarrow> [])"
    by (simp add: ClientReads split: sum.split)
  have "relay_clock (fst (relay_read r rl h)) \<le> cr_now r"
    using t ClientReads by (cases rule: relay_read_cases [of r rl h]) (simp_all add: relay_clock_def cl.allow_clock)
  then show ?thesis using relay_ok_read [OF ok, of r h] relay_ok_more(1) [OF ok] t ClientReads
    unfolding d by (cases "rl_reader rl") (simp_all add: relay_clock_def)
next
  case (ServerSends recv res)
  have d: "(case event_payload ev of Some d \<Rightarrow> [d] | None \<Rightarrow> []) = (case recv of Inr p \<Rightarrow> [rp_Payload p] | Inl _ \<Rightarrow> [])"
    by (cases recv) (simp_all add: ServerSends)
  have "relay_clock (fst (relay_write recv res rl h)) = relay_clock rl"
    by (simp add: relay_clock_def relay_write_def split: sum.split option.split)
  then show ?thesis using relay_ok_write [OF ok, of recv res h] relay_ok_more(2) [OF ok] ServerSends
    unfolding d by (cases "rl_writer rl") simp_all
next
  case (MainWakes res)
  then show ?thesis using relay_ok_main(1) [OF ok, of res h] by (simp add: relay_clock_def)
next
  case MainReturns
  then show ?thesis using relay_ok_main(2) [OF ok, of h] by (simp add: relay_clock_def)
qed

lemma map_filter_snoc: "List.map_filter f (xs @ [x]) = List.map_filter f xs @ (case f x of Some y \<Rightarrow> [y] | None \<Rightarrow> [])"
  by (induction xs) (simp_all add: List.map_filter_simps split: option.split)

lemma relay_ok_run:
  assumes "relay_ok now0 connect [] [] rl" "relay_clock rl = now0" "sorted (now0 # List.map_filter event_time (map fst hist))"
  shows "relay_ok now0 connect (List.map_filter event_data (map fst hist)) (List.map_filter event_payload (map fst hist)) (relay_run hist rl)
    \<and> relay_clock (relay_run hist rl) \<le> last (now0 # List.map_filter event_time (map fst hist))"
  using assms(3)
proof (induction hist rule: rev_induct)
  case Nil
  show ?case using assms(1,2) by (simp add: relay_run_def List.map_filter_simps)
next
  case (snoc x hist)
  obtain ev h where x: "x = (ev, h)" by (cases x)
  let ?ts = "now0 # List.map_filter event_time (map fst hist)"
  let ?ds = "List.map_filter event_data (map fst hist)" and ?ws = "List.map_filter event_payload (map fst hist)"
  have sorted: "sorted (?ts @ (case event_time ev of Some t \<Rightarrow> [t] | None \<Rightarrow> []))"
    using snoc.prems by (simp add: map_filter_snoc x)
  then have "sorted ?ts" using sorted_append by blast
  with snoc.IH have IH: "relay_ok now0 connect ?ds ?ws (relay_run hist rl)" "relay_clock (relay_run hist rl) \<le> last ?ts"
    by blast+
  have t: "relay_clock (relay_run hist rl) \<le> t" if "event_time ev = Some t" for t
  proof -
    have "\<forall>x \<in> set ?ts. x \<le> t" using sorted unfolding sorted_append that by simp
    moreover have "last ?ts \<in> set ?ts" by (rule last_in_set) simp
    ultimately have "last ?ts \<le> t" by blast
    with IH(2) show ?thesis by simp
  qed
  have run: "relay_run (hist @ [x]) rl = fst (relay_step ev (relay_run hist rl) h)" by (simp add: relay_run_def x)
  show ?case
    using relay_ok_step [OF IH(1), of ev h, OF t] IH(2) unfolding run
    by (cases "event_time ev") (simp_all add: map_filter_snoc x)
qed

lemma relay_run_clientID: "rl_clientID (relay_run hist rl) = rl_clientID rl"
proof (induction hist rule: rev_induct)
  case (snoc x hist)
  obtain ev h where x: "x = (ev, h)" by (cases x)
  have "rl_clientID (fst (relay_read r rl h)) = rl_clientID rl" for r rl
    by (cases rule: relay_read_cases [of r rl h]) simp_all
  then have "rl_clientID (fst (relay_step ev rl h)) = rl_clientID rl" for rl
    by (cases ev) (simp_all add: relay_write_def split: sum.split option.split)
  with snoc show ?case by (simp add: relay_run_def x)
qed (simp add: relay_run_def)

text \<open>
  C21. A relay forwards faithfully and within its limit. Along every interleaving of its goroutines and
  of other relays, what the game server gets is the connect packet with the claims, then packets with
  messages of the client, in order and each at most once, and at most one notice of the end, all under
  the client's id; the messages are at most 100 and 100 for each second. What the client gets are
  the payloads of the game server, in order, without a gap up to where writing ends. And when a
  goroutine has ended, the relay is ending or has an error waiting that makes it end.
\<close>

theorem relay_stream:
  assumes "relay_open u s h0 = (Some rl0, h1)" and "rl = relay_run hist rl0"
    and "sorted (ru_now u # List.map_filter event_time (map fst hist))"
  shows "(\<exists>rest. rl_sent rl = (if ru_connect u = None
        then [\<lparr>rp_ClientId = rt_clientID s, rp_Kind = KIND_CONNECT, rp_Payload = [],
               rp_Meta = Some \<lparr>cn_PlayerId = cm_PlayerID (rt_claims s), cn_RuntimeId = cm_RuntimeID (rt_claims s), cn_ZoneId = cm_ZoneID (rt_claims s)\<rparr>\<rparr>]
        else []) @ rest \<and> of_kind KIND_CONNECT rest = [])
    \<and> (\<forall>p \<in> set (rl_sent rl). rp_ClientId p = rt_clientID s \<and> rp_Kind p \<in> {KIND_CONNECT, KIND_DATA, KIND_PEER_DISCONNECTED})
    \<and> length (of_kind KIND_PEER_DISCONNECTED (rl_sent rl)) \<le> 1
    \<and> subseq (map rp_Payload (of_kind KIND_DATA (rl_sent rl))) (List.map_filter event_data (map fst hist))
    \<and> length (of_kind KIND_DATA (rl_sent rl))
        \<le> 100 + 100 * dur_Seconds (last (ru_now u # List.map_filter event_time (map fst hist)) - ru_now u)
    \<and> prefix (rl_written rl) (List.map_filter event_payload (map fst hist))
    \<and> (\<not> rl_reader rl \<or> \<not> rl_writer rl \<longrightarrow> rl_main rl \<noteq> Relaying \<or> rl_errCh rl \<noteq> [])"
proof -
  let ?c = "\<lparr>rp_ClientId = rt_clientID s, rp_Kind = KIND_CONNECT, rp_Payload = [],
     rp_Meta = Some \<lparr>cn_PlayerId = cm_PlayerID (rt_claims s), cn_RuntimeId = cm_RuntimeID (rt_claims s), cn_ZoneId = cm_ZoneID (rt_claims s)\<rparr>\<rparr>"
  let ?connect = "if ru_connect u = None then [?c] else []"
  let ?ts = "ru_now u # List.map_filter event_time (map fst hist)"
  have rl0: "rl0 = \<lparr>rl_clientID = rt_clientID s, rl_sent = ?connect, rl_written = [],
      rl_connLimiter = newConnectionLimiter 100 100 (ru_now u), rl_errCh = [], rl_reader = True, rl_writer = True, rl_main = Relaying\<rparr>"
    using assms(1) by (auto simp: relay_open_def Let_def packet_def split: if_splits)
  have "relay_ok (ru_now u) ?connect [] [] rl0" "relay_clock rl0 = ru_now u"
    by (simp_all add: rl0 relay_ok_def of_kind_def newConnectionLimiter_def newTokenBucket_def tb_ok_def go_simps relay_clock_def)
  from relay_ok_run [OF this assms(3)]
  have ok: "relay_ok (ru_now u) ?connect (List.map_filter event_data (map fst hist)) (List.map_filter event_payload (map fst hist)) rl"
    and clock: "relay_clock rl \<le> last ?ts" unfolding assms(2) by simp_all
  have id: "rl_clientID rl = rt_clientID s"
    by (simp add: assms(2) relay_run_clientID) (simp add: rl0)
  have "0 \<le> tb_tokens (cl_bucket (rl_connLimiter rl))" using ok by (simp add: relay_ok_def tb_ok_def)
  moreover have "dur_Seconds (relay_clock rl - ru_now u) \<le> dur_Seconds (last ?ts - ru_now u)"
    using clock by (simp add: go_simps divide_right_mono)
  ultimately have "length (of_kind KIND_DATA (rl_sent rl)) \<le> 100 + 100 * dur_Seconds (last ?ts - ru_now u)"
    using ok unfolding relay_ok_def relay_clock_def by linarith
  moreover have "\<not> rl_reader rl \<or> \<not> rl_writer rl \<longrightarrow> rl_main rl \<noteq> Relaying \<or> rl_errCh rl \<noteq> []"
    using ok by (auto simp: relay_ok_def)
  moreover have "length (of_kind KIND_PEER_DISCONNECTED (rl_sent rl)) \<le> 1"
    using ok by (cases "rl_main rl = Relaying") (simp_all add: relay_ok_def)
  ultimately show ?thesis
    using ok [unfolded relay_ok_def id] by (elim conjE) (intro conjI, assumption+)
qed


definition demo_setup :: relay_setup where
  "demo_setup = \<lparr>ru_dial = None, ru_stream = None, ru_connect = None, ru_now = 0\<rparr>"

definition demo_handler :: "unit Handler" where
  "demo_handler = NewHandler (NewRouterCache 5) (\<lambda>z st. (Inr z, st)) [1]"

definition demo_history :: "unit relay_history" where
  "demo_history =
     [(ClientReads \<lparr>cr_data = Inr [9], cr_now = 1000000000, cr_ip_now1 = 1, cr_ip_now2 = 1, cr_send = None\<rparr>, demo_handler),
      (ServerSends (Inr ((packet ''p1'' 1)\<lparr>rp_Payload := [8]\<rparr>)) None, demo_handler),
      (ServerSends (Inl (ErrText ''EOF'')) None, demo_handler), (MainWakes None, demo_handler), (MainReturns, demo_handler)]"

theorem relay_stream_witness:
  "\<exists>rl0. fst (relay_open demo_setup (start_for demo_claims ''a'' 7) demo_handler) = Some rl0
     \<and> prefix (rl_written (relay_run demo_history rl0)) [[8]]
     \<and> length (of_kind KIND_DATA (rl_sent (relay_run demo_history rl0))) \<le> (200 :: real)"
proof -
  let ?s = "start_for demo_claims ''a'' 7"
  obtain rl0 h1 where o: "relay_open demo_setup ?s demo_handler = (Some rl0, h1)"
    by (auto simp: relay_open_def demo_setup_def Let_def)
  have ts: "List.map_filter event_time (map fst demo_history) = [1000000000]" and ps: "List.map_filter event_payload (map fst demo_history) = [[8]]"
    by (simp_all add: demo_history_def List.map_filter_simps)
  have now: "ru_now demo_setup = 0" by (simp add: demo_setup_def)
  have "sorted (ru_now demo_setup # List.map_filter event_time (map fst demo_history))" by (simp add: ts now)
  from relay_stream [OF o refl this] show ?thesis unfolding ts ps now using o by (simp add: go_simps)
qed

end
