(* ===== verification/Routing.thy ===== *)
theory Routing
  imports Gateway_Props Storage
begin

section \<open>From the gateway to the owner of a zone\<close>

text \<open>
  The gateway asks the room service for the address of a zone, and the room service answers from the
  tables of zones and servers. Here the two are put together: \<open>room_client\<close> is the generated client
  of \<open>LookupZone\<close> on a server over the repositories, as \<open>apps/room-service/main.go\<close> wires it.
\<close>

definition room_client :: "order \<Rightarrow> string \<Rightarrow> DB \<Rightarrow> (error + zone_answer) \<times> DB" where
  "room_client ord zoneID db =
     (case rs_LookupZone \<lparr>rs_servers = server_repo ord, rs_zones = zone_repo ord, rs_allocator = Select\<rparr> zoneID db of
        (Inl err, db) \<Rightarrow> (Inl err, db)
      | (Inr resp, db) \<Rightarrow>
          (Inr \<lparr>za_advertise_addr = lzr_advertise_addr resp, za_host = lzr_host resp, za_port = lzr_port resp\<rparr>, db))"

definition server_addr :: "DB \<Rightarrow> ServerID \<Rightarrow> string option" where
  \<comment> \<open>host and port of a server in the table\<close>
  "server_addr db s = map_option (\<lambda>row. gs_host row @ '':'' @ itoa (gs_port row)) (fmlookup (db_game_servers db) s)"

lemma server_addr_node:
  "fmlookup (db_game_servers db) i = Some row \<Longrightarrow> server_addr db i = Some (node_Address (row_node i row))"
  "node_Address (n\<lparr>nd_LastHeartbeat := t\<rparr>) = node_Address n" "nd_NodeID (row_node i row) = i"
  by (simp_all add: server_addr_def row_node_def node_Address_def zero_node_def)

lemma srv_Get_addr: "srv_Get i db = Inr n \<Longrightarrow> server_addr db (nd_NodeID n) = Some (node_Address n)"
  by (auto simp: srv_Get_def scanServer_def Let_def server_addr_node split: option.splits if_splits)

lemma srv_List_addr: "srv_List ord db = Inr ns \<Longrightarrow> n \<in> set ns \<Longrightarrow> server_addr db (nd_NodeID n) = Some (node_Address n)"
  by (auto simp: srv_List_def List.map_filter_def Let_def server_addr_node split: option.splits if_splits)

lemma zr_Claim_servers: "db_game_servers (snd (zr_Claim z rt s db)) = db_game_servers db"
  by (auto simp: zr_Claim_def Let_def split: option.splits sum.splits)

lemma lookup_addr:
  assumes "rs_LookupZone \<lparr>rs_servers = server_repo ord, rs_zones = zone_repo ord, rs_allocator = Select\<rparr> z db = (x, db')"
  shows "db_game_servers db' = db_game_servers db"
    "x = Inr resp \<Longrightarrow> server_addr db (lzr_server resp) = Some (lzr_advertise_addr resp)"
proof -
  note d = assms [unfolded rs_LookupZone_def lookup_owner_def server_repo_def zone_repo_def, simplified]
  have c: "db_game_servers db2 = db_game_servers db" if "zr_Claim z rt s db = (e, db2)" for e db2 rt s
    using zr_Claim_servers [of z rt s db] that by simp
  show "db_game_servers db' = db_game_servers db"
    using d by (auto split: sum.splits option.splits prod.splits if_splits dest: c)
  assume "x = Inr resp"
  with d obtain n where "resp = lookup_response n" "(\<exists>i. srv_Get i db = Inr n) \<or> (\<exists>ns. srv_List ord db = Inr ns \<and> Select (map Some ns) = Inr n)"
    by (auto split: sum.splits option.splits prod.splits if_splits)
  then show "server_addr db (lzr_server resp) = Some (lzr_advertise_addr resp)"
    using srv_Get_addr [of _ db n] srv_List_addr [of ord db _ n] ll.select_of_nodes [of _ n] by (auto simp: lookup_response_def)
qed

lemma lookup_nonempty: "rs_LookupZone srv z db = (Inr resp, db') \<Longrightarrow> lzr_advertise_addr resp \<noteq> []"
  by (auto simp: rs_LookupZone_def lookup_response_def node_Address_def split: sum.splits option.splits prod.splits if_splits)

lemma room_lookup:
  assumes "is_order ord" "db_ok db" "roomLookuper_LookupZone (room_client ord) z db = (x, db')"
  shows "db_ok db' \<and> db_game_servers db' = db_game_servers db
    \<and> (case x of Inl e \<Rightarrow> db_owner db' = db_owner db
        | Inr addr \<Rightarrow> \<exists>s. db_owner db' = (db_owner db)(z := Some s) \<and> db_owner db z \<in> {None, Some s} \<and> server_addr db s = Some addr)"
proof -
  let ?srv = "\<lparr>rs_servers = server_repo ord, rs_zones = zone_repo ord, rs_allocator = Select\<rparr>"
  obtain y where r: "rs_LookupZone ?srv z db = (y, db')"
    and x: "x = (case y of Inl e \<Rightarrow> Inl e | Inr resp \<Rightarrow> Inr (lzr_advertise_addr resp))"
    using assms(3) lookup_nonempty by (fastforce simp: roomLookuper_LookupZone_def room_client_def split: prod.splits sum.splits if_splits)
  note a = lookup_addr [OF r]
  show ?thesis
  proof (cases "db_owner db z")
    case None
    from room_stores.lookup_free [OF repo_stores [OF assms(1)] assms(2) None] r x a None show ?thesis
      by (auto split: sum.splits)
  next
    case (Some s)
    from room_stores.lookup_owned [OF repo_stores [OF assms(1)] assms(2) Some] r
    obtain n where "y = Inr (lookup_response n)" "db' = db" "nd_NodeID n = s" by auto
    with a x Some assms(2) show ?thesis by (auto simp: lookup_response_def)
  qed
qed

definition routed :: "DB \<Rightarrow> relay_start option \<Rightarrow> DB \<Rightarrow> bool" where
  \<comment> \<open>what a request does to the tables: nothing, or a free zone gets its owner; a relay goes to the owner\<close>
  "routed db rel db' \<longleftrightarrow> db_ok db' \<and> db_game_servers db' = db_game_servers db
     \<and> (\<forall>z s. db_owner db z = Some s \<longrightarrow> db_owner db' z = Some s)
     \<and> (\<forall>st. rel = Some st \<longrightarrow>
          (\<exists>s. db_owner db' = (db_owner db)(cm_ZoneID (rt_claims st) := Some s) \<and> server_addr db' s = Some (rt_addr st)))"

lemma handshake_step:
  assumes "is_order ord" and ok: "db_ok db" and h: "h_lookuper h = roomLookuper_LookupZone (room_client ord)"
    and ws: "handleWS Parse accept r h db = ((a, rel), h', db')"
  shows "routed db rel db' \<and> h_lookuper h' = h_lookuper h"
proof -
  consider (same) "db' = db" "h' = h" "rel = None"
    | (look) c x where "roomLookuper_LookupZone (room_client ord) (cm_ZoneID c) db = (x, db')"
        "rel = (case (x, accept) of (Inr addr, Inr conn) \<Rightarrow> Some (start_for c addr conn) | _ \<Rightarrow> None)" "h_lookuper h' = h_lookuper h"
    using ws h by (auto simp: handleWS_eq ws_serve_eq split: if_splits sum.splits prod.splits)
  then show ?thesis
  proof cases
    case same
    with ok show ?thesis by (simp add: routed_def)
  next
    case look
    from room_lookup [OF assms(1) ok look(1)] look(2,3) show ?thesis
      by (auto simp: routed_def start_for_def server_addr_def split: sum.splits)
  qed
qed

end
