(* ===== verification/Deployment.thy ===== *)
theory Deployment
  imports Routing
begin

section \<open>Game servers and the room service over time\<close>

text \<open>
  \<open>apps/room-service/main.go\<close> builds the handlers and the sweeper over the same repositories, and
  \<open>apps/game-server/main.go\<close> registers and then sends a heartbeat every five seconds. A run of the
  room service is a list of calls and sweeps with the times of the database at which they happen.
\<close>

subsection \<open>The wiring\<close>

definition room_server :: "order \<Rightarrow> DB roomServiceServer" where
  "room_server ord = \<lparr>rs_servers = server_repo ord, rs_zones = zone_repo ord, rs_allocator = Select\<rparr>"

definition room_sweeper :: "order \<Rightarrow> DB ProductionSweeper" where
  "room_sweeper ord =
     NewProductionSweeper (server_repo ord) (zone_repo ord) Select \<lparr>sc_Interval = 5 * Second, sc_MissThreshold = 15 * Second\<rparr>"

definition register_request :: "string \<Rightarrow> string \<Rightarrow> int \<Rightarrow> RegisterRequest" where
  "register_request serverID host gRPCPort =
     \<lparr>rrq_server_id = serverID, rrq_host = host, rrq_port = to_int32 gRPCPort, rrq_max_zones = 10, rrq_advertise_addr = '''',
      rrq_version = '''', rrq_build = '''', rrq_labels = fmempty\<rparr>"

definition heartbeat_request :: "string \<Rightarrow> HeartbeatRequest" where
  "heartbeat_request serverID =
     \<lparr>hbr_node_id = serverID, hbr_active_entities = 0, hbr_active_spaces = 0, hbr_connected_users = 0,
      hbr_queue_depth = 0, hbr_tick_duration_ms = 0\<rparr>"

datatype room_event =
    Registers RegisterRequest
  | Beats HeartbeatRequest
  | LooksUp string
  | Sweeps order

fun room_step :: "order \<Rightarrow> Time \<times> room_event \<Rightarrow> DB \<times> WatcherFanout option \<Rightarrow> DB \<times> WatcherFanout option" where
  "room_step ord (t, Registers req) w = (snd (rs_Register (room_server ord) req ((fst w)\<lparr>db_now := t\<rparr>)), snd w)"
| "room_step ord (t, Beats req) w = (snd (rs_Heartbeat (room_server ord) req ((fst w)\<lparr>db_now := t\<rparr>)), snd w)"
| "room_step ord (t, LooksUp z) w = (snd (rs_LookupZone (room_server ord) z ((fst w)\<lparr>db_now := t\<rparr>)), snd w)"
| "room_step ord (t, Sweeps o') w = ps_sweep (room_sweeper ord) o' ((fst w)\<lparr>db_now := t\<rparr>, snd w)"

definition room_run :: "order \<Rightarrow> (Time \<times> room_event) list \<Rightarrow> DB \<times> WatcherFanout option \<Rightarrow> DB \<times> WatcherFanout option" where
  "room_run ord evs w = fold (room_step ord) evs w"

subsection \<open>Heartbeats and owners\<close>

definition room_inv :: "DB \<Rightarrow> bool" where
  \<comment> \<open>every owner of a zone is an active server\<close>
  "room_inv db \<longleftrightarrow> db_ok db \<and> (\<forall>z s. db_owner db z = Some s \<longrightarrow> s \<in> active_servers db)"

definition beat :: "DB \<Rightarrow> ServerID \<Rightarrow> Time option" where
  "beat db s = map_option gs_last_heartbeat (fmlookup (db_game_servers db) s)"

lemma room_now [simp]:
  "db_ok (db\<lparr>db_now := t\<rparr>) = db_ok db" "db_owner (db\<lparr>db_now := t\<rparr>) = db_owner db" "active_servers (db\<lparr>db_now := t\<rparr>) = active_servers db"
  "room_inv (db\<lparr>db_now := t\<rparr>) = room_inv db" "beat (db\<lparr>db_now := t\<rparr>) = beat db"
  by (simp_all add: db_ok_def db_owner_def active_servers_def room_inv_def beat_def fun_eq_iff)

lemma db_ok_servers:
  assumes "db_ok db" "i \<noteq> ''''"
  shows "db_ok (db\<lparr>db_game_servers := fmupd i row (db_game_servers db)\<rparr>)"
  using assms by (auto simp: db_ok_def db_owner_def)

lemma Register_step:
  assumes "room_inv db" "rrq_server_id req \<noteq> ''''"
    and db'_def: "db' = snd (rs_Register (room_server ord) req db)"
  shows "room_inv db'" "db_owner db' = db_owner db" "beat db s \<noteq> None \<Longrightarrow> beat db' s = beat db s"
    "beat db s \<noteq> None \<Longrightarrow> s \<in> active_servers db' \<longleftrightarrow> s \<in> active_servers db"
proof -
  have ok: "db_ok db" using assms(1) by (simp add: room_inv_def)
  obtain row where db': "db' = db\<lparr>db_game_servers := fmupd (rrq_server_id req) row (db_game_servers db)\<rparr>"
    and row: "\<And>r. fmlookup (db_game_servers db) (rrq_server_id req) = Some r \<Longrightarrow> gs_status row = gs_status r \<and> gs_last_heartbeat row = gs_last_heartbeat r"
    using db_okD(1) [OF ok, of "''register''"]
    by (auto simp: db'_def rs_Register_def room_server_def server_repo_def srv_Register_def Let_def split: option.splits)
  show owner: "db_owner db' = db_owner db" by (auto simp: db' db_owner_def)
  show "beat db s \<noteq> None \<Longrightarrow> beat db' s = beat db s" using row by (auto simp: db' beat_def)
  show act: "beat db s \<noteq> None \<Longrightarrow> s \<in> active_servers db' \<longleftrightarrow> s \<in> active_servers db" for s
    using row by (auto simp: db' beat_def active_servers_def)
  have "db_ok db'" unfolding db' by (rule db_ok_servers [OF ok assms(2)])
  moreover have "beat db s \<noteq> None" if "s \<in> active_servers db" for s using that by (auto simp: active_servers_def beat_def)
  ultimately show "room_inv db'" using assms(1) owner act by (metis room_inv_def)
qed

lemma Heartbeat_step:
  assumes "room_inv db"
    and db'_def: "db' = snd (rs_Heartbeat (room_server ord) req db)"
  shows "room_inv db'" "db_owner db' = db_owner db" "active_servers db \<subseteq> active_servers db'"
    "beat db s \<noteq> None \<Longrightarrow> beat db' s = (if hbr_node_id req = s then Some (db_now db) else beat db s)"
    "hbr_node_id req \<noteq> s \<Longrightarrow> s \<in> active_servers db' \<longleftrightarrow> s \<in> active_servers db"
proof -
  have ok: "db_ok db" using assms(1) by (simp add: room_inv_def)
  have db': "db' = (case fmlookup (db_game_servers db) (hbr_node_id req) of None \<Rightarrow> db
      | Some row \<Rightarrow> db\<lparr>db_game_servers := fmupd (hbr_node_id req) (row\<lparr>gs_status := ''active'', gs_last_heartbeat := db_now db\<rparr>) (db_game_servers db)\<rparr>)"
    using db_okD(1) [OF ok, of "''heartbeat''"]
    by (simp add: db'_def rs_Heartbeat_def room_server_def server_repo_def srv_Heartbeat_def split: option.split)
  show owner: "db_owner db' = db_owner db" by (auto simp: db' db_owner_def split: option.split)
  show act: "active_servers db \<subseteq> active_servers db'" by (auto simp: db' active_servers_def split: option.split)
  show "beat db s \<noteq> None \<Longrightarrow> beat db' s = (if hbr_node_id req = s then Some (db_now db) else beat db s)"
    by (auto simp: db' beat_def split: option.split)
  show "hbr_node_id req \<noteq> s \<Longrightarrow> s \<in> active_servers db' \<longleftrightarrow> s \<in> active_servers db" by (auto simp: db' active_servers_def split: option.split)
  have "db_ok db'" using ok db_okD(2) [OF ok] by (auto simp: db' fm_has_def intro!: db_ok_servers split: option.split)
  then show "room_inv db'" using assms(1) owner act by (auto simp: room_inv_def)
qed

lemma Lookup_step:
  assumes "is_order ord" "room_inv db" and db'_def: "db' = snd (rs_LookupZone (room_server ord) z db)"
  shows "room_inv db'" "db_owner db y = Some s \<Longrightarrow> db_owner db' y = Some s" "beat db' = beat db" "active_servers db' = active_servers db"
proof -
  have ok: "db_ok db" using assms(2) by (simp add: room_inv_def)
  obtain x where r: "rs_LookupZone (room_server ord) z db = (x, db')" using db'_def by (metis prod.collapse)
  have gs: "db_game_servers db' = db_game_servers db" using lookup_addr(1) r by (simp add: room_server_def)
  then show "beat db' = beat db" and act: "active_servers db' = active_servers db" by (simp_all add: beat_def active_servers_def fun_eq_iff)
  have "db_ok db' \<and> (db_owner db' = db_owner db \<or> db_owner db z = None \<and> (\<exists>s \<in> active_servers db. db_owner db' = (db_owner db)(z := Some s)))"
  proof (cases "db_owner db z")
    case None
    from room_stores.lookup_free [OF repo_stores [OF assms(1)] ok None] r None show ?thesis
      by (auto simp: room_server_def split: sum.splits)
  next
    case (Some w)
    from room_stores.lookup_owned [OF repo_stores [OF assms(1)] ok Some] r ok show ?thesis by (auto simp: room_server_def)
  qed
  then show "room_inv db'" "db_owner db y = Some s \<Longrightarrow> db_owner db' y = Some s"
    using assms(2) act by (auto simp: room_inv_def split: if_splits)
qed

lemma beat_frame:
  "beat (snd (zr_Claim z rt s db)) = beat db" "beat (snd (zr_Release z s db)) = beat db" "beat (snd (srv_MarkShutdown i db)) = beat db"
  by (auto simp: zr_Claim_def zr_Release_def srv_MarkShutdown_def beat_def fun_eq_iff Let_def split: option.splits sum.splits)

lemma rehome_beat: "beat (fst (ps_rehome (room_sweeper ord) o' d z w)) = beat (fst w)"
proof -
  have r: "beat st = beat (fst w)" if "zr_Release z d (fst w) = (x, st)" for x st using beat_frame(2) [of z d "fst w"] that by simp
  have c: "beat st' = beat st" if "zr_Claim z rt s st = (x, st')" for x st st' rt s using beat_frame(1) [of z rt s st] that by simp
  show ?thesis
    by (auto simp: ps_rehome_def room_sweeper_def NewProductionSweeper_def server_repo_def zone_repo_def r c split: prod.split option.split sum.split)
qed

lemma sweep_beat: "beat (fst (ps_sweep (room_sweeper ord) o' w)) = beat (fst w)"
proof -
  have fold: "beat (fst (fold f xs v)) = beat (fst v)" if "\<And>x v. beat (fst (f x v)) = beat (fst v)"
    for f :: "string \<Rightarrow> DB \<times> WatcherFanout option \<Rightarrow> DB \<times> WatcherFanout option" and xs v
    using that by (induction xs arbitrary: v) simp_all
  have "beat (fst (reassignZonesFor (room_sweeper ord) o' d v)) = beat (fst v)" for d v
    by (auto simp: reassignZonesFor_def fold rehome_beat split: option.split sum.split)
  then have "beat (fst (ps_dead (room_sweeper ord) o' d v)) = beat (fst v)" for d v
    using beat_frame(3) [of d "fst v"]
    by (auto simp: ps_dead_def room_sweeper_def NewProductionSweeper_def server_repo_def split: prod.split option.split)
  then show ?thesis by (auto simp: ps_sweep_def fold split: option.split sum.split)
qed

lemma Sweep_step:
  assumes "is_order ord" "room_inv db" and db'_def: "db' = fst (ps_sweep (room_sweeper ord) o' (db, f))"
  shows "room_inv db'" "beat db' = beat db" "active_servers db' = active_servers db - silent_servers (15 * Second) db"
    "if \<exists>d \<in> silent_servers (15 * Second) db. db_owner db z = Some d then db_owner db' z \<notin> Some ` silent_servers (15 * Second) db
     else db_owner db' z = db_owner db z"
proof -
  let ?D = "silent_servers (15 * Second) db"
  have ok: "db_ok db" and own: "db_owner db z = Some s \<Longrightarrow> s \<in> active_servers db" for z s using assms(2) by (simp_all add: room_inv_def)
  have P: "ps_servers (room_sweeper ord) = server_repo ord" "ps_zones (room_sweeper ord) = zone_repo ord" "ps_allocator (room_sweeper ord) = Select"
    "sc_MissThreshold (ps_cfg (room_sweeper ord)) = 15 * Second"
    by (simp_all add: room_sweeper_def NewProductionSweeper_def sweeper_defaults_def)
  note sw = room_stores.sweep_rehomes [OF repo_stores [OF assms(1)] ok P(1-3), where ord = o' and f = f, unfolded P(4), folded db'_def]
  show act: "active_servers db' = active_servers db - ?D" using sw by blast
  show "beat db' = beat db" unfolding db'_def using sweep_beat [of ord o' "(db, f)"] by simp
  have z: "if \<exists>d \<in> ?D. db_owner db z = Some d
       then (case db_owner db' z of None \<Rightarrow> active_servers db - ?D = {} | Some t \<Rightarrow> t \<in> active_servers db - ?D)
       else db_owner db' z = db_owner db z" for z using sw by blast
  show "if \<exists>d \<in> ?D. db_owner db z = Some d then db_owner db' z \<notin> Some ` ?D else db_owner db' z = db_owner db z"
    using z [of z] by (auto split: option.splits if_splits)
  have "s \<in> active_servers db'" if "db_owner db' z = Some s" for z s
    using z [of z] that own [of z s] act by (auto split: option.splits if_splits)
  then show "room_inv db'" using sw by (auto simp: room_inv_def)
qed


subsection \<open>Runs\<close>

definition registers_named :: "(Time \<times> room_event) list \<Rightarrow> bool" where
  "registers_named evs \<longleftrightarrow> (\<forall>t req. (t, Registers req) \<in> set evs \<longrightarrow> rrq_server_id req \<noteq> '''')"

fun timely :: "ServerID \<Rightarrow> Time \<Rightarrow> (Time \<times> room_event) list \<Rightarrow> bool" where
  \<comment> \<open>at every sweep the last heartbeat of \<open>s\<close>, first \<open>lb\<close>, is at most 15 seconds old\<close>
  "timely s lb [] \<longleftrightarrow> True"
| "timely s lb ((t, Beats req) # evs) \<longleftrightarrow> timely s (if hbr_node_id req = s then t else lb) evs"
| "timely s lb ((t, Sweeps o') # evs) \<longleftrightarrow> t \<le> lb + 15 * Second \<and> timely s lb evs"
| "timely s lb ((t, Registers req) # evs) \<longleftrightarrow> timely s lb evs"
| "timely s lb ((t, LooksUp z) # evs) \<longleftrightarrow> timely s lb evs"

lemma silent_iff:
  "s \<in> silent_servers (15 * Second) db \<longleftrightarrow> s \<in> active_servers db \<and> (\<exists>b. beat db s = Some b \<and> b + 15 * Second < db_now db)"
  by (auto simp: silent_servers_def silent_def active_servers_def beat_def whole_seconds_def)

lemma room_step_inv:
  assumes "is_order ord" "room_inv db" "registers_named [ev]"
  shows "room_inv (fst (room_step ord ev (db, f)))"
proof (cases ev)
  case (Pair t e)
  have inv: "room_inv (db\<lparr>db_now := t\<rparr>)" using assms(2) by simp
  show ?thesis
  proof (cases e)
    case (Registers req)
    with Pair assms(3) Register_step(1) [OF inv, of req _ ord] show ?thesis by (simp add: registers_named_def)
  next
    case (Beats req)
    with Pair Heartbeat_step(1) [OF inv, of _ ord req] show ?thesis by simp
  next
    case (LooksUp z)
    with Pair Lookup_step(1) [OF assms(1) inv, of _ z] show ?thesis by simp
  next
    case (Sweeps o')
    with Pair Sweep_step(1) [OF assms(1) inv, of _ o' f] show ?thesis by simp
  qed
qed

lemma room_run_Cons: "room_run ord (ev # evs) w = room_run ord evs (fst (room_step ord ev w), snd (room_step ord ev w))"
  by (simp add: room_run_def)

lemma room_run_inv:
  "is_order ord \<Longrightarrow> room_inv db \<Longrightarrow> registers_named evs \<Longrightarrow> room_inv (fst (room_run ord evs (db, f)))"
proof (induction evs arbitrary: db f)
  case (Cons ev evs)
  have "registers_named [ev]" "registers_named evs" using Cons.prems(3) by (auto simp: registers_named_def)
  with Cons.IH [OF Cons.prems(1) room_step_inv [OF Cons.prems(1,2)]] show ?case unfolding room_run_Cons by blast
qed (simp add: room_run_def)

lemma timely_keeps:
  assumes "is_order ord"
  shows "room_inv db \<Longrightarrow> registers_named evs \<Longrightarrow> s \<in> active_servers db \<Longrightarrow> beat db s = Some lb \<Longrightarrow> timely s lb evs \<Longrightarrow>
    s \<in> active_servers (fst (room_run ord evs (db, f))) \<and> (\<forall>z. db_owner db z = Some s \<longrightarrow> db_owner (fst (room_run ord evs (db, f))) z = Some s)"
proof (induction evs arbitrary: db f lb)
  case (Cons ev evs)
  obtain t e where ev: "ev = (t, e)" by (cases ev)
  let ?db = "db\<lparr>db_now := t\<rparr>"
  let ?w = "room_step ord ev (db, f)"
  have inv: "room_inv ?db" and reg: "registers_named [ev]" "registers_named evs"
    using Cons.prems(1,2) by (auto simp: registers_named_def)
  have "\<exists>b. beat (fst ?w) s = Some b \<and> timely s b evs \<and> s \<in> active_servers (fst ?w) \<and> (\<forall>z. db_owner db z = Some s \<longrightarrow> db_owner (fst ?w) z = Some s)"
  proof (cases e)
    case (Registers req)
    with Register_step(2-4) [OF inv _ refl, where req = req and ord = ord] reg(1) Cons.prems(3-5) ev show ?thesis by (simp add: registers_named_def)
  next
    case (Beats req)
    with Heartbeat_step(2-4) [OF inv refl, where req = req and ord = ord] Cons.prems(3-5) ev show ?thesis by auto
  next
    case (LooksUp z)
    with Lookup_step(2-4) [OF assms inv refl, where z = z] Cons.prems(3-5) ev show ?thesis by simp
  next
    case (Sweeps o')
    have "s \<notin> silent_servers (15 * Second) ?db" unfolding silent_iff using Cons.prems(4,5) ev Sweeps by simp
    with Sweep_step(2-4) [OF assms inv refl, where o' = o' and f = f] Cons.prems(3-5) ev Sweeps show ?thesis by (auto split: if_splits)
  qed
  then obtain b where b: "beat (fst ?w) s = Some b" "timely s b evs" "s \<in> active_servers (fst ?w)"
    "\<And>z. db_owner db z = Some s \<Longrightarrow> db_owner (fst ?w) z = Some s" by blast
  from Cons.IH [OF room_step_inv [OF assms Cons.prems(1) reg(1)] reg(2) b(3,1,2), of "snd ?w"] b(4) show ?case
    unfolding room_run_Cons by blast
qed (simp add: room_run_def)

lemma silence_beat:
  assumes "is_order ord"
  shows "room_inv db \<Longrightarrow> registers_named evs \<Longrightarrow> \<forall>t req. (t, Beats req) \<in> set evs \<longrightarrow> hbr_node_id req \<noteq> s \<Longrightarrow> beat db s = Some lb \<Longrightarrow>
    beat (fst (room_run ord evs (db, f))) s = Some lb"
proof (induction evs arbitrary: db f)
  case (Cons ev evs)
  obtain t e where ev: "ev = (t, e)" by (cases ev)
  have inv: "room_inv (db\<lparr>db_now := t\<rparr>)" and reg: "registers_named [ev]" "registers_named evs"
    using Cons.prems(1,2) by (auto simp: registers_named_def)
  have "beat (fst (room_step ord ev (db, f))) s = Some lb"
    using Register_step(3) [OF inv _ refl, where s = s and ord = ord] Heartbeat_step(4) [OF inv refl, where s = s and ord = ord] Lookup_step(3) [OF assms inv refl]
      Sweep_step(2) [OF assms inv refl, where f = f] reg(1) Cons.prems(3,4) ev by (cases e) (auto simp: registers_named_def)
  moreover have "\<forall>t req. (t, Beats req) \<in> set evs \<longrightarrow> hbr_node_id req \<noteq> s" using Cons.prems(3) by simp
  ultimately show ?case unfolding room_run_Cons
    using Cons.IH [OF room_step_inv [OF assms Cons.prems(1) reg(1)] reg(2)] by blast
qed (simp add: room_run_def)





end
