(* ===== verification/Platform.thy ===== *)
theory Platform
  imports Game_Server Validation
begin

section \<open>Around the services: metrics, interceptors, transport, configuration\<close>

text \<open>
  \<open>internal/metrics\<close>, \<open>apps/game-server/metrics.go\<close>, \<open>internal/grpc\<close>, \<open>internal/transport/websocket\<close>,
  \<open>internal/config\<close>, \<open>internal/logging\<close>, \<open>internal/mtls\<close>, \<open>internal/storage/pools.go\<close> and
  \<open>internal/migration\<close>. They are thin layers over libraries, which are parameters here. Of the
  Prometheus library the model keeps the calls: an instrument is its declaration, and a call names
  the instrument, its label values and the number. \<open>call_ok\<close> is what the library documents as not
  panicking: the instrument is declared, with as many labels, and a counter never gets less than 0.
\<close>

subsection \<open>Instruments: \<open>metrics.go\<close>\<close>

datatype instrument_kind = Gauge | Counter | Histogram "float64 list"

record instrument =
  im_name :: string
  im_kind :: instrument_kind
  im_labels :: "string list"

definition NewRegistry :: "instrument list" where
  \<comment> \<open>in the order of registration; all are in the namespace \<open>spatial\<close>\<close>
  "NewRegistry =
     [\<lparr>im_name = ''active_connections'', im_kind = Gauge, im_labels = []\<rparr>,
      \<lparr>im_name = ''packets_per_sec_total'', im_kind = Counter, im_labels = [''direction'', ''packet_id'']\<rparr>,
      \<lparr>im_name = ''entity_count'', im_kind = Gauge, im_labels = [''type'']\<rparr>,
      \<lparr>im_name = ''tick_duration_seconds'', im_kind = Histogram [1 / 1000, 5 / 1000, 1 / 100, 25 / 1000, 5 / 100, 1 / 10], im_labels = []\<rparr>,
      \<lparr>im_name = ''grpc_request_duration_seconds'', im_kind = Histogram [1 / 1000, 5 / 1000, 1 / 100, 25 / 1000, 5 / 100, 1 / 10, 1 / 2],
       im_labels = [''service'', ''method'']\<rparr>,
      \<lparr>im_name = ''queue_depth'', im_kind = Gauge, im_labels = [''queue'']\<rparr>,
      \<lparr>im_name = ''dropped_total'', im_kind = Counter, im_labels = [''queue'']\<rparr>,
      \<lparr>im_name = ''tick_overruns_total'', im_kind = Counter, im_labels = []\<rparr>,
      \<lparr>im_name = ''active_spaces'', im_kind = Gauge, im_labels = []\<rparr>,
      \<lparr>im_name = ''runtime_events_total'', im_kind = Counter, im_labels = [''kind'']\<rparr>]"

datatype instrument_call =
    InstrInc string "string list"
  | InstrAdd string "string list" float64
  | InstrSet string "string list" float64
  | InstrObserve string "string list" float64

definition declared :: "(instrument_kind \<Rightarrow> bool) \<Rightarrow> string \<Rightarrow> string list \<Rightarrow> bool" where
  "declared P name labels \<longleftrightarrow> list_ex (\<lambda>i. im_name i = name \<and> P (im_kind i) \<and> length (im_labels i) = length labels) NewRegistry"

fun call_ok :: "instrument_call \<Rightarrow> bool" where
  "call_ok (InstrInc name labels) \<longleftrightarrow> declared (\<lambda>k. k = Counter \<or> k = Gauge) name labels"
| "call_ok (InstrAdd name labels x) \<longleftrightarrow> declared (\<lambda>k. k = Counter \<and> 0 \<le> x \<or> k = Gauge) name labels"
| "call_ok (InstrSet name labels x) \<longleftrightarrow> declared (\<lambda>k. k = Gauge) name labels"
| "call_ok (InstrObserve name labels x) \<longleftrightarrow> declared (\<lambda>k. \<exists>b. k = Histogram b) name labels"

definition seconds :: "Duration \<Rightarrow> float64" where
  "seconds d = real_of_int d / 1000000000"

fun gameMetricsAdapter :: "metric_call \<Rightarrow> instrument_call" where
  "gameMetricsAdapter (TickDuration d) = InstrObserve ''tick_duration_seconds'' [] (seconds d)"
| "gameMetricsAdapter TickOverrun = InstrInc ''tick_overruns_total'' []"
| "gameMetricsAdapter (QueueDepth queue depth) = InstrSet ''queue_depth'' [queue] (real_of_int depth)"
| "gameMetricsAdapter (Dropped queue n) = InstrAdd ''dropped_total'' [queue] (real_of_int n)"
| "gameMetricsAdapter (EntityCount typ n) = InstrSet ''entity_count'' [typ] (real_of_int n)"
| "gameMetricsAdapter (ActiveSpaces n) = InstrSet ''active_spaces'' [] (real_of_int n)"
| "gameMetricsAdapter (RuntimeEvent k) = InstrInc ''runtime_events_total'' [k]"

lemma registry_distinct: "distinct (map im_name NewRegistry)"
  by (simp add: NewRegistry_def)

lemma adapter_ok: "(\<And>q n. m = Dropped q n \<Longrightarrow> 0 \<le> n) \<Longrightarrow> call_ok (gameMetricsAdapter m)"
  by (cases m) (simp_all add: declared_def NewRegistry_def)

subsection \<open>Interceptors: \<open>interceptor.go\<close>\<close>

type_synonym ('w, 'r) grpc_handler = "'w \<Rightarrow> ('r option \<times> error option) outcome \<times> 'w"

record 'w served =
  \<comment> \<open>the world of the handler, the lines logged and the calls of instruments\<close>
  sv_world :: 'w
  sv_log :: "(string \<times> string) list"
  sv_calls :: "instrument_call list"

type_synonym ('w, 'r) interceptor = "('w served, 'r) grpc_handler \<Rightarrow> ('w served, 'r) grpc_handler"

definition grpc_method :: "string \<Rightarrow> string" where
  \<comment> \<open>what follows the last slash\<close>
  "grpc_method full = rev (takeWhile (\<lambda>c. c \<noteq> CHR ''/'') (rev full))"

definition RecoveryInterceptor :: "string \<Rightarrow> ('w, 'r) interceptor" where
  \<comment> \<open>for the method \<open>full\<close>; the result is named, so the answer of a panic is \<open>nil\<close> with the error\<close>
  "RecoveryInterceptor full handler s =
     (case handler s of
        (Panics m, s) \<Rightarrow> (Returns (None, Some (ErrStatus 13 ''internal error'')), s\<lparr>sv_log := sv_log s @ [(''grpc panic'', full)]\<rparr>)
      | r \<Rightarrow> r)"

definition RecoveryStreamInterceptor :: "('w, 'r) interceptor" where
  "RecoveryStreamInterceptor handler s =
     (case handler s of
        (Panics m, s) \<Rightarrow> (Returns (None, Some (ErrStatus 13 ''internal error'')), s\<lparr>sv_log := sv_log s @ [(''grpc stream panic'', '''')]\<rparr>)
      | r \<Rightarrow> r)"

definition LoggingUnaryInterceptor :: "string \<Rightarrow> ('w, 'r) interceptor" where
  \<comment> \<open>a line at the level of a warning for an error, of an information otherwise\<close>
  "LoggingUnaryInterceptor full handler s =
     (case handler s of
        (Panics m, s) \<Rightarrow> (Panics m, s)
      | (Returns (resp, err), s) \<Rightarrow>
          (Returns (resp, err), s\<lparr>sv_log := sv_log s @ [(if err \<noteq> None then ''warn'' else ''info'', full)]\<rparr>))"

definition MetricsInterceptor :: "Duration \<Rightarrow> string \<Rightarrow> string \<Rightarrow> ('w, 'r) interceptor" where
  \<comment> \<open>\<open>MetricsUnaryInterceptor\<close> and \<open>MetricsStreamInterceptor\<close>, for a call that takes \<open>d\<close>\<close>
  "MetricsInterceptor d service full handler s =
     (case handler s of
        (Panics m, s) \<Rightarrow> (Panics m, s)
      | (Returns r, s) \<Rightarrow>
          (Returns r, s\<lparr>sv_calls := sv_calls s @ [InstrObserve ''grpc_request_duration_seconds'' [service, grpc_method full] (seconds d)]\<rparr>))"

definition unary_chain :: "Duration \<Rightarrow> string \<Rightarrow> string \<Rightarrow> ('w, 'r) interceptor" where
  \<comment> \<open>the first interceptor of the chain is the outermost\<close>
  "unary_chain d service full handler =
     RecoveryInterceptor full (LoggingUnaryInterceptor full (MetricsInterceptor d service full handler))"

definition stream_chain :: "Duration \<Rightarrow> string \<Rightarrow> string \<Rightarrow> ('w, 'r) interceptor" where
  "stream_chain d service full handler = RecoveryStreamInterceptor (MetricsInterceptor d service full handler)"

text \<open>
  A call of a service never panics: what the handler returns is returned, logged once and measured
  once; a panic becomes the status \<open>Internal\<close>, and such a call is not measured.
\<close>

lemma unary_call:
  assumes "handler s = (r, s')" "sv_log s' = sv_log s" "sv_calls s' = sv_calls s"
  shows "case r of
      Panics m \<Rightarrow> unary_chain d service full handler s =
        (Returns (None, Some (ErrStatus 13 ''internal error'')), s'\<lparr>sv_log := sv_log s @ [(''grpc panic'', full)]\<rparr>)
    | Returns (resp, err) \<Rightarrow> (\<exists>line call. call_ok call \<and> unary_chain d service full handler s =
        (Returns (resp, err), s'\<lparr>sv_calls := sv_calls s @ [call], sv_log := sv_log s @ [line]\<rparr>))"
proof -
  have "call_ok (InstrObserve ''grpc_request_duration_seconds'' [service, grpc_method full] (seconds d))"
    by (simp add: declared_def NewRegistry_def)
  then show ?thesis
    using assms by (auto simp: unary_chain_def RecoveryInterceptor_def LoggingUnaryInterceptor_def MetricsInterceptor_def simp del: split_paired_Ex call_ok.simps split: outcome.split)
qed

lemma grpc_method_last: "CHR ''/'' \<notin> set m \<Longrightarrow> grpc_method (p @ ''/'' @ m) = m"
proof -
  assume "CHR ''/'' \<notin> set m"
  then have "takeWhile (\<lambda>c. c \<noteq> CHR ''/'') (rev m) = rev m" by (auto simp: takeWhile_eq_all_conv)
  then show ?thesis by (simp add: grpc_method_def takeWhile_tail del: takeWhile_eq_all_conv)
qed

subsection \<open>The WebSocket library behind the gateway: \<open>coder/conn.go\<close>\<close>

text \<open>
  A connection of the library is a record of its methods over the world; \<open>Conn\<close> wraps their errors.
  The kind of a message that is read is dropped, and every message written is binary.
\<close>

datatype MessageType = MessageText | MessageBinary

record 'w ws_conn =
  wc_Read :: "'w \<Rightarrow> (error + MessageType \<times> bytes) \<times> 'w"
  wc_Write :: "MessageType \<Rightarrow> bytes \<Rightarrow> 'w \<Rightarrow> error option \<times> 'w"
  wc_Close :: "int \<Rightarrow> string \<Rightarrow> 'w \<Rightarrow> error option \<times> 'w"
  wc_CloseNow :: "'w \<Rightarrow> error option \<times> 'w"
  wc_SetReadLimit :: "int \<Rightarrow> 'w \<Rightarrow> 'w"

record 'w Connection =
  \<comment> \<open>the interface the gateway uses\<close>
  cn_Read :: "'w \<Rightarrow> (error + bytes) \<times> 'w"
  cn_Write :: "bytes \<Rightarrow> 'w \<Rightarrow> error option \<times> 'w"
  cn_Close :: "16 word \<Rightarrow> string \<Rightarrow> 'w \<Rightarrow> error option \<times> 'w"
  cn_CloseNow :: "'w \<Rightarrow> error option \<times> 'w"
  cn_SetReadLimit :: "int \<Rightarrow> 'w \<Rightarrow> 'w"

definition Conn_Read :: "'w ws_conn \<Rightarrow> 'w \<Rightarrow> (error + bytes) \<times> 'w" where
  "Conn_Read c w =
     (case wc_Read c w of
        (Inl err, w) \<Rightarrow> (Inl (Errorf ''websocket read: '' err ''''), w)
      | (Inr (_, data), w) \<Rightarrow> (Inr data, w))"

definition Conn_Write :: "'w ws_conn \<Rightarrow> bytes \<Rightarrow> 'w \<Rightarrow> error option \<times> 'w" where
  "Conn_Write c data w =
     (case wc_Write c MessageBinary data w of
        (Some err, w) \<Rightarrow> (Some (Errorf ''websocket write: '' err ''''), w)
      | (None, w) \<Rightarrow> (None, w))"

definition Conn_Close :: "'w ws_conn \<Rightarrow> 16 word \<Rightarrow> string \<Rightarrow> 'w \<Rightarrow> error option \<times> 'w" where
  "Conn_Close c statusCode reason = wc_Close c (uint statusCode) reason"

definition Conn_CloseNow :: "'w ws_conn \<Rightarrow> 'w \<Rightarrow> error option \<times> 'w" where
  "Conn_CloseNow c = wc_CloseNow c"

definition Conn_SetReadLimit :: "'w ws_conn \<Rightarrow> int \<Rightarrow> 'w \<Rightarrow> 'w" where
  "Conn_SetReadLimit c n = wc_SetReadLimit c n"

definition coder_Conn :: "'w ws_conn \<Rightarrow> 'w Connection" where
  "coder_Conn c =
     \<lparr>cn_Read = Conn_Read c, cn_Write = Conn_Write c, cn_Close = Conn_Close c, cn_CloseNow = Conn_CloseNow c,
      cn_SetReadLimit = Conn_SetReadLimit c\<rparr>"

definition Accepter_Accept :: "('o \<Rightarrow> 'r \<Rightarrow> error + 'w ws_conn) \<Rightarrow> 'o \<Rightarrow> 'o option \<Rightarrow> 'r \<Rightarrow> error + 'w Connection" where
  \<comment> \<open>\<open>accept\<close> is the function of the library and \<open>zero\<close> its empty options\<close>
  "Accepter_Accept accept zero Options r =
     (case accept (case Options of None \<Rightarrow> zero | Some opts \<Rightarrow> opts) r of
        Inl err \<Rightarrow> Inl (Errorf ''websocket accept: '' err '''')
      | Inr c \<Rightarrow> Inr (coder_Conn c))"

text \<open>What one end writes as a message is what the other end reads, whatever the library carries in between.\<close>

lemma conn_message:
  assumes "wc_Write c MessageBinary data w = (None, w')" "wc_Read c' w' = (Inr (MessageBinary, data), w'')"
  shows "cn_Write (coder_Conn c) data w = (None, w') \<and> cn_Read (coder_Conn c') w' = (Inr data, w'')"
  using assms by (simp add: coder_Conn_def Conn_Write_def Conn_Read_def)

subsection \<open>Configuration: \<open>config.go\<close>\<close>

record ServiceConfig =
  svc_Name :: string
  svc_Instance :: string
  svc_Debug :: bool

record LoggingConfig =
  lgc_Level :: string
  lgc_JSON :: bool

record GRPCConfig =
  gc_Host :: string
  gc_Port :: int

record GatewayConfig =
  gwc_WSPort :: int
  gwc_JWTSecret :: string
  gwc_MaxPacketSize :: int
  gwc_SoftConnLimit :: int
  gwc_HardConnLimit :: int
  gwc_DrainTimeout :: Duration

record GameConfig =
  gmc_TickRate :: Duration
  gmc_SnapshotInterval :: int
  gmc_MaxEntities :: int
  gmc_ZoneCellSize :: float64
  gmc_AOIRadius :: float64
  gmc_NPCs :: "NPCSpec list"

record MetricsConfig =
  mtc_Port :: int

record PostgresConfig =
  pgc_DSN :: string

record RedisConfig =
  rdc_Addr :: string

record RoomServiceConfig =
  rsc_Addr :: string

record SpatialServerAPIConfig =
  sac_DefaultZoneCount :: int
  sac_DefaultZoneSize :: float64

record Config =
  cfg_Service :: ServiceConfig
  cfg_Logging :: LoggingConfig
  cfg_GRPC :: GRPCConfig
  cfg_Postgres :: PostgresConfig
  cfg_Redis :: RedisConfig
  cfg_Gateway :: GatewayConfig
  cfg_RoomService :: RoomServiceConfig
  cfg_Game :: GameConfig
  cfg_Metrics :: MetricsConfig
  cfg_SpatialServerAPI :: SpatialServerAPIConfig

definition trim_prefix :: "string \<Rightarrow> string \<Rightarrow> string" where
  "trim_prefix p s = (if take (length p) s = p then drop (length p) s else s)"

definition lower_char :: "char \<Rightarrow> char" where
  \<comment> \<open>\<open>strings.ToLower\<close> on ASCII, which names of variables are\<close>
  "lower_char c = (if 65 \<le> (of_char c :: nat) \<and> (of_char c :: nat) \<le> 90 then char_of (of_char c + 32 :: nat) else c)"

fun dots :: "string \<Rightarrow> string" where
  \<comment> \<open>every two underscores by a dot, from the left\<close>
  "dots (a # b # s) = (if a = CHR ''_'' \<and> b = CHR ''_'' then CHR ''.'' # dots s else a # dots (b # s))"
| "dots s = s"

definition env_key :: "string \<Rightarrow> string" where
  \<comment> \<open>the key of the configuration that an environment variable sets\<close>
  "env_key s = dots (map lower_char (trim_prefix ''SPATIAL_'' s))"

record 'k koanf =
  kf_LoadFile :: "string \<Rightarrow> 'k \<Rightarrow> error + 'k"
  kf_LoadEnv :: "string \<Rightarrow> string \<Rightarrow> (string \<Rightarrow> string) \<Rightarrow> 'k \<Rightarrow> error + 'k"
  kf_Unmarshal :: "'k \<Rightarrow> error + Config"

fun load_files :: "'k koanf \<Rightarrow> string list \<Rightarrow> 'k \<Rightarrow> error + 'k" where
  "load_files lib [] k = Inr k"
| "load_files lib (f # files) k =
     (case kf_LoadFile lib f k of
        Inl err \<Rightarrow> Inl (Errorf (''load config file '' @ f @ '': '') err '''')
      | Inr k \<Rightarrow> load_files lib files k)"

definition Load :: "'k koanf \<Rightarrow> 'k \<Rightarrow> string list \<Rightarrow> error + Config" where
  \<comment> \<open>with the library for configurations and its empty value\<close>
  "Load lib k0 files =
     (case load_files lib files k0 of
        Inl err \<Rightarrow> Inl err
      | Inr k \<Rightarrow>
          (case kf_LoadEnv lib ''SPATIAL_'' ''.'' env_key k of
             Inl err \<Rightarrow> Inl (Errorf ''load env config: '' err '''')
           | Inr k \<Rightarrow>
               (case kf_Unmarshal lib k of
                  Inl err \<Rightarrow> Inl (Errorf ''unmarshal config: '' err '''')
                | Inr cfg \<Rightarrow> Inr cfg)))"

text \<open>
  An environment variable reaches every key: for the path \<open>segs\<close> of a key, the variable is the
  prefix and the segments in upper case with two underscores between them. Segments may have single
  underscores inside, as in \<open>room_service\<close>.
\<close>

fun segment :: "string \<Rightarrow> bool" where
  "segment [] \<longleftrightarrow> False"
| "segment [a] \<longleftrightarrow> a \<noteq> CHR ''_''"
| "segment (a # b # s) \<longleftrightarrow> (a = CHR ''_'' \<longrightarrow> b \<noteq> CHR ''_'') \<and> segment (b # s)"

fun joined :: "string \<Rightarrow> string list \<Rightarrow> string" where
  "joined sep [] = []"
| "joined sep [s] = s"
| "joined sep (s # t # ss) = s @ sep @ joined sep (t # ss)"

lemma dots_segment: "segment s \<Longrightarrow> dots s = s"
  by (induction s rule: dots.induct) auto

lemma dots_append: "segment s \<Longrightarrow> dots (s @ ''__'' @ t) = s @ ''.'' @ dots t"
  by (induction s rule: dots.induct) (auto split: if_splits)

lemma dots_joined: "list_all segment segs \<Longrightarrow> dots (joined ''__'' segs) = joined ''.'' segs"
proof (induction "''__''" segs rule: joined.induct)
  case (3 s t ss)
  then show ?case using dots_append [of s "joined ''__'' (t # ss)"] by simp
qed (simp_all add: dots_segment)

lemma lower_underscore: "lower_char (CHR ''_'') = CHR ''_''"
  by (simp add: lower_char_def)

lemma map_joined: "map f (joined sep segs) = joined (map f sep) (map (map f) segs)"
  by (induction sep segs rule: joined.induct) simp_all

lemma env_key_path:
  assumes "list_all (\<lambda>s. segment (map lower_char s)) segs"
  shows "env_key (''SPATIAL_'' @ joined ''__'' segs) = joined ''.'' (map (map lower_char) segs)"
proof -
  have "trim_prefix ''SPATIAL_'' (''SPATIAL_'' @ s) = s" for s by (simp add: trim_prefix_def)
  then show ?thesis
    using dots_joined [of "map (map lower_char) segs"] assms
    by (simp add: env_key_def map_joined lower_underscore list_all_iff del: append.simps)
qed

lemma env_key_room_service: "env_key ''SPATIAL_ROOM_SERVICE__ADDR'' = ''room_service.addr''"
  by code_simp

subsection \<open>Logging: \<open>logging.go\<close>\<close>

datatype log_level = LevelDebug | LevelInfo | LevelWarn | LevelError

record Logger =
  lg_json :: bool
  lg_level :: log_level
  lg_attrs :: "(string \<times> string) list"

definition Logger_New :: "string \<Rightarrow> log_level \<Rightarrow> bool \<Rightarrow> Logger" where
  "Logger_New service level json = \<lparr>lg_json = json, lg_level = level, lg_attrs = [(''service'', service)]\<rparr>"

definition NewDefault :: "(string \<Rightarrow> string) \<Rightarrow> string \<Rightarrow> Logger" where
  \<comment> \<open>with the environment; a variable that is not set is the empty string\<close>
  "NewDefault getenv service =
     Logger_New service (if getenv ''SPATIAL_DEBUG'' = ''1'' then LevelDebug else LevelInfo) (getenv ''SPATIAL_JSON'' = ''1'')"

type_synonym log_context = "string \<rightharpoonup> Logger option"
  \<comment> \<open>the values of a context by key; a value under the key of the logger may be the nil pointer\<close>

definition WithLogger :: "log_context \<Rightarrow> Logger option \<Rightarrow> log_context" where
  "WithLogger ctx logger = ctx(''logger'' \<mapsto> logger)"

definition FromContext :: "Logger \<Rightarrow> log_context \<Rightarrow> Logger" where
  \<comment> \<open>\<open>dflt\<close> is the default logger of \<open>slog\<close>\<close>
  "FromContext dflt ctx = (case ctx ''logger'' of Some (Some logger) \<Rightarrow> logger | _ \<Rightarrow> dflt)"

lemma FromContext_WithLogger:
  "FromContext dflt (WithLogger ctx logger) = (case logger of Some l \<Rightarrow> l | None \<Rightarrow> dflt)"
  by (simp add: FromContext_def WithLogger_def split: option.split)

subsection \<open>Tracing: \<open>otel.go\<close>\<close>

record ('c, 'e, 'r, 'tp) otel =
  ot_NewClient :: "string \<Rightarrow> error + 'c"
  ot_exporter :: "'c \<Rightarrow> error + 'e"
  ot_resource :: "string \<Rightarrow> error + 'r"
  ot_provider :: "'e \<Rightarrow> 'r \<Rightarrow> float64 \<Rightarrow> 'tp"

definition InitTracer :: "('c, 'e, 'r, 'tp) otel \<Rightarrow> string \<Rightarrow> string \<Rightarrow> float64 \<Rightarrow> 'tp option \<Rightarrow> (error + 'tp) \<times> 'tp option" where
  \<comment> \<open>the last argument is the global provider; the answer is the provider whose \<open>Shutdown\<close> the code returns\<close>
  "InitTracer lib service collectorAddr ratio global =
     (case ot_NewClient lib collectorAddr of
        Inl err \<Rightarrow> (Inl (Errorf (''dial otel collector '' @ collectorAddr @ '': '') err ''''), global)
      | Inr conn \<Rightarrow>
          (case ot_exporter lib conn of
             Inl err \<Rightarrow> (Inl (Errorf ''create otlp exporter: '' err ''''), global)
           | Inr exporter \<Rightarrow>
               (case ot_resource lib service of
                  Inl err \<Rightarrow> (Inl (Errorf ''create resource: '' err ''''), global)
                | Inr res \<Rightarrow> let tp = ot_provider lib exporter res ratio in (Inr tp, Some tp))))"

lemma InitTracer_global: "InitTracer lib s a r g = (x, g') \<Longrightarrow> g' = (case x of Inr tp \<Rightarrow> Some tp | Inl _ \<Rightarrow> g)"
  by (auto simp: InitTracer_def Let_def split: sum.splits)

subsection \<open>Certificates: \<open>mtls.go\<close>\<close>

datatype ClientAuthType = NoClientCert | RequireAndVerifyClientCert

record ('c, 'p) tls_Config =
  tls_Certificates :: "'c list"
  tls_ClientAuth :: ClientAuthType
  tls_ClientCAs :: "'p option"
  tls_RootCAs :: "'p option"
  tls_MinVersion :: int

abbreviation (input) VersionTLS13 :: int where "VersionTLS13 \<equiv> 772"

definition loadPool :: "(string \<Rightarrow> error + bytes) \<Rightarrow> (bytes \<Rightarrow> 'p option) \<Rightarrow> string \<Rightarrow> error + 'p" where
  "loadPool ReadFile certs caPath =
     (case ReadFile caPath of
        Inl err \<Rightarrow> Inl (Errorf ''read CA: '' err '''')
      | Inr caPEM \<Rightarrow>
          (case certs caPEM of
             None \<Rightarrow> Inl (ErrText (''parse CA bundle '' @ caPath))
           | Some pool \<Rightarrow> Inr pool))"

definition NewServerConfig :: "(string \<Rightarrow> string \<Rightarrow> error + 'c) \<Rightarrow> (string \<Rightarrow> error + bytes) \<Rightarrow> (bytes \<Rightarrow> 'p option) \<Rightarrow>
    string \<Rightarrow> string \<Rightarrow> string \<Rightarrow> error + ('c, 'p) tls_Config" where
  "NewServerConfig LoadKeyPair ReadFile certs certPath keyPath caPath =
     (case LoadKeyPair certPath keyPath of
        Inl err \<Rightarrow> Inl (Errorf ''load server keypair: '' err '''')
      | Inr cert \<Rightarrow>
          (case loadPool ReadFile certs caPath of
             Inl err \<Rightarrow> Inl err
           | Inr pool \<Rightarrow>
               Inr \<lparr>tls_Certificates = [cert], tls_ClientAuth = RequireAndVerifyClientCert, tls_ClientCAs = Some pool,
                    tls_RootCAs = None, tls_MinVersion = VersionTLS13\<rparr>))"

definition NewClientConfig :: "(string \<Rightarrow> string \<Rightarrow> error + 'c) \<Rightarrow> (string \<Rightarrow> error + bytes) \<Rightarrow> (bytes \<Rightarrow> 'p option) \<Rightarrow>
    string \<Rightarrow> string \<Rightarrow> string \<Rightarrow> error + ('c, 'p) tls_Config" where
  "NewClientConfig LoadKeyPair ReadFile certs certPath keyPath caPath =
     (case LoadKeyPair certPath keyPath of
        Inl err \<Rightarrow> Inl (Errorf ''load client keypair: '' err '''')
      | Inr cert \<Rightarrow>
          (case loadPool ReadFile certs caPath of
             Inl err \<Rightarrow> Inl err
           | Inr pool \<Rightarrow>
               Inr \<lparr>tls_Certificates = [cert], tls_ClientAuth = NoClientCert, tls_ClientCAs = None,
                    tls_RootCAs = Some pool, tls_MinVersion = VersionTLS13\<rparr>))"

text \<open>
  Both sides of a connection check each other: the server asks for a certificate under the bundle of
  authorities, the client trusts only that bundle, and neither has a configuration without it.
\<close>

lemma mtls_mutual:
  assumes "NewServerConfig LoadKeyPair ReadFile certs c k ca = Inr s" "NewClientConfig LoadKeyPair ReadFile certs c' k' ca = Inr t"
  shows "\<exists>pem pool. ReadFile ca = Inr pem \<and> certs pem = Some pool \<and> tls_ClientAuth s = RequireAndVerifyClientCert
    \<and> tls_ClientCAs s = Some pool \<and> tls_RootCAs t = Some pool \<and> length (tls_Certificates t) = 1"
  using assms by (auto simp: NewServerConfig_def NewClientConfig_def loadPool_def split: sum.splits option.splits)

subsection \<open>Connections to the stores: \<open>pools.go\<close> and \<open>migration.go\<close>\<close>

record ('c, 'p) pgx =
  pg_ParseConfig :: "string \<Rightarrow> error + 'c"
  pg_SetConns :: "int \<Rightarrow> int \<Rightarrow> 'c \<Rightarrow> 'c"              \<comment> \<open>the fields \<open>MaxConns\<close> and \<open>MinConns\<close>\<close>
  pg_NewWithConfig :: "'c \<Rightarrow> error + 'p"
  pg_Ping :: "'p \<Rightarrow> error option"

definition NewPostgresPool :: "('c, 'p) pgx \<Rightarrow> string \<Rightarrow> (error + 'p) \<times> 'p list" where
  \<comment> \<open>the answer, and the pools that are closed again\<close>
  "NewPostgresPool lib dsn =
     (case pg_ParseConfig lib dsn of
        Inl err \<Rightarrow> (Inl (Errorf ''parse pgx config: '' err ''''), [])
      | Inr cfg \<Rightarrow>
          (case pg_NewWithConfig lib (pg_SetConns lib 20 2 cfg) of
             Inl err \<Rightarrow> (Inl (Errorf ''create pgx pool: '' err ''''), [])
           | Inr pool \<Rightarrow>
               (case pg_Ping lib pool of
                  Some err \<Rightarrow> (Inl (Errorf ''ping postgres: '' err ''''), [pool])
                | None \<Rightarrow> (Inr pool, []))))"

record redis_options =
  ro_Addr :: string
  ro_DialTimeout :: Duration
  ro_ReadTimeout :: Duration
  ro_WriteTimeout :: Duration

definition NewRedisClient :: "(redis_options \<Rightarrow> 'c) \<Rightarrow> ('c \<Rightarrow> error option) \<Rightarrow> string \<Rightarrow> error + 'c" where
  "NewRedisClient NewClient Ping addr =
     (let client = NewClient \<lparr>ro_Addr = addr, ro_DialTimeout = 5 * Second, ro_ReadTimeout = 3 * Second, ro_WriteTimeout = 3 * Second\<rparr>
      in case Ping client of
           Some err \<Rightarrow> Inl (Errorf ''ping redis: '' err '''')
         | None \<Rightarrow> Inr client)"

record ('d, 'm) migrate =
  mg_WithInstance :: "error + 'd"
  mg_NewWithDatabaseInstance :: "string \<Rightarrow> string \<Rightarrow> 'd \<Rightarrow> error + 'm"
  mg_Up :: "'m \<Rightarrow> error option"
  mg_ErrNoChange :: error

definition migration_Run :: "('d, 'm) migrate \<Rightarrow> string \<Rightarrow> error option" where
  "migration_Run lib migrationsDir =
     (case mg_WithInstance lib of
        Inl err \<Rightarrow> Some (Errorf ''create migration driver: '' err '''')
      | Inr driver \<Rightarrow>
          (case mg_NewWithDatabaseInstance lib (''file://'' @ migrationsDir) ''postgres'' driver of
             Inl err \<Rightarrow> Some (Errorf ''create migrator: '' err '''')
           | Inr m \<Rightarrow>
               (case mg_Up lib m of
                  Some err \<Rightarrow> if err \<noteq> mg_ErrNoChange lib then Some (Errorf ''run migrations: '' err '''') else None
                | None \<Rightarrow> None)))"

lemma pool_answers:
  "NewPostgresPool lib dsn = (Inr p, gone) \<Longrightarrow> pg_Ping lib p = None \<and> gone = []"
  "NewPostgresPool lib dsn = (Inl e, gone) \<Longrightarrow> p \<in> set gone \<longleftrightarrow>
     (\<exists>cfg. pg_ParseConfig lib dsn = Inr cfg \<and> pg_NewWithConfig lib (pg_SetConns lib 20 2 cfg) = Inr p)"
  by (auto simp: NewPostgresPool_def split: sum.splits option.splits)

text \<open>Migrating twice is migrating once: no change is no error.\<close>

lemma migration_again:
  assumes "mg_WithInstance lib = Inr d" "mg_NewWithDatabaseInstance lib (''file://'' @ dir) ''postgres'' d = Inr m"
    and "mg_Up lib m = Some (mg_ErrNoChange lib)"
  shows "migration_Run lib dir = None"
  using assms by (simp add: migration_Run_def)

end
