(* ===== verification/Apps.thy ===== *)
theory Apps
  imports Provision Platform Recovery
begin

section \<open>The three processes: \<open>apps/*/main.go\<close>\<close>

text \<open>
  Each \<open>main\<close> reads its configuration, opens its connections in a fixed order, and serves until a
  signal. An error ends the process with exit code 1 and a log line (\<open>Exits\<close>, with the message);
  otherwise \<open>Serves\<close> gives the objects the process runs with. The libraries are the record \<open>libs\<close>,
  used through the functions of \<open>Platform\<close>. Starting an HTTP server for the metrics, registering the
  health service and logging change nothing the model has.
\<close>

datatype 'a boot = Exits string | Serves 'a

record ('k, 'c, 'p, 'r, 'd, 'm) libs =
  li_koanf :: "'k koanf"
  li_empty :: 'k
  li_pgx :: "('c, 'p) pgx"
  li_redis :: "redis_options \<Rightarrow> 'r"
  li_redisPing :: "'r \<Rightarrow> error option"
  li_migrate :: "'p \<Rightarrow> ('d, 'm) migrate"
  li_dial :: "string \<Rightarrow> error option"      \<comment> \<open>\<open>grpc.NewClient\<close>\<close>
  li_listen :: "string \<Rightarrow> error option"

subsection \<open>The gateway\<close>

abbreviation (input) SERVING :: int where "SERVING \<equiv> 1"

definition ready_check :: "('s \<Rightarrow> error + int) \<Rightarrow> 's \<Rightarrow> bool" where
  \<comment> \<open>the answer of the health service of the room service, within two seconds\<close>
  "ready_check Check st \<longleftrightarrow> (case Check st of Inl err \<Rightarrow> False | Inr status \<Rightarrow> status = SERVING)"

definition new_gw_metrics :: gw_metrics where
  "new_gw_metrics = \<lparr>gm_ActiveConnections = 0, gm_Dropped = fmempty, gm_Packets = fmempty\<rparr>"

definition gateway_main :: "('k, 'c, 'p, 'r, 'd, 'm) libs \<Rightarrow> (string \<Rightarrow> 's \<Rightarrow> (error + zone_answer) \<times> 's) \<Rightarrow> ('s \<Rightarrow> error + int) \<Rightarrow>
    ('s Handler \<times> string) boot" where
  \<comment> \<open>the handler and the address it is served at; \<open>rsClient\<close> and \<open>Check\<close> are calls on the connection to the room service\<close>
  "gateway_main lib rsClient Check =
     (case Load (li_koanf lib) (li_empty lib) [''configs/defaults.yml'', ''configs/gateway.yml''] of
        Inl err \<Rightarrow> Exits (''load config: '' @ error_Error err)
      | Inr cfg \<Rightarrow>
          (case li_dial lib (rsc_Addr (cfg_RoomService cfg)) of
             Some err \<Rightarrow> Exits ''connect to room service''
           | None \<Rightarrow>
               (let handler = NewHandler (NewRouterCache (5 * Second)) (roomLookuper_LookupZone rsClient) (bytes_of (gwc_JWTSecret (cfg_Gateway cfg)));
                    handler = SetReadyFn (ready_check Check) handler;
                    handler = SetMetrics new_gw_metrics handler
                in Serves (handler, '':'' @ itoa (gwc_WSPort (cfg_Gateway cfg))))))"

definition gateway_signal :: "'s Handler \<Rightarrow> 's Handler" where
  \<comment> \<open>SIGINT or SIGTERM; the server then shuts down within the drain timeout\<close>
  "gateway_signal h = SetDraining True h"

subsection \<open>The room service\<close>

record room_process =
  rp_service :: "DB roomServiceServer"
  rp_sweeper :: "DB ProductionSweeper"
  rp_api :: "MemoryRuntimeStore SpatialServerAPI"
  rp_runtimes :: MemoryRuntimeStore
  rp_addr :: string

definition room_main :: "('k, 'c, 'p, 'r, 'd, 'm) libs \<Rightarrow> order \<Rightarrow> Time \<Rightarrow> room_process boot" where
  \<comment> \<open>\<open>ord\<close> is the order in which the database returns rows, \<open>now\<close> the clock of the store of runtimes\<close>
  "room_main lib ord now =
     (case Load (li_koanf lib) (li_empty lib) [''configs/defaults.yml'', ''configs/room-service.yml''] of
        Inl err \<Rightarrow> Exits (''load config: '' @ error_Error err)
      | Inr cfg \<Rightarrow>
          (case fst (NewPostgresPool (li_pgx lib) (pgc_DSN (cfg_Postgres cfg))) of
             Inl err \<Rightarrow> Exits ''postgres connection failed''
           | Inr pgPool \<Rightarrow>
               (case NewRedisClient (li_redis lib) (li_redisPing lib) (rdc_Addr (cfg_Redis cfg)) of
                  Inl err \<Rightarrow> Exits ''redis connection failed''
                | Inr redisClient \<Rightarrow>
                    if migration_Run (li_migrate lib pgPool) ''internal/storage/migrations'' \<noteq> None then Exits ''migration failed''
                    else if li_listen lib ('':'' @ itoa (gc_Port (cfg_GRPC cfg))) \<noteq> None then Exits ''listen failed''
                    else Serves \<lparr>rp_service = room_server ord, rp_sweeper = room_sweeper ord,
                           rp_api = NewSpatialServerAPI (mem_runtime_store now ord) (''gateway:'' @ itoa (gwc_WSPort (cfg_Gateway cfg))),
                           rp_runtimes = NewMemoryRuntimeStore, rp_addr = '':'' @ itoa (gc_Port (cfg_GRPC cfg))\<rparr>)))"

subsection \<open>The game server\<close>

record game_process =
  gp_server :: gameServerServer
  gp_addr :: string

definition rpc_Register :: "error option \<Rightarrow> order \<Rightarrow> RegisterRequest \<Rightarrow> DB \<Rightarrow> (error + bool) \<times> DB" where
  \<comment> \<open>the call over gRPC, with the error of the transport if there is one\<close>
  "rpc_Register call ord req db =
     (case call of Some err \<Rightarrow> (Inl err, db) | None \<Rightarrow> (case rs_Register (room_server ord) req db of (ok, db) \<Rightarrow> (Inr ok, db)))"

definition game_options :: "ServerID \<Rightarrow> GameConfig \<Rightarrow> Game" where
  "game_options serverID cfg = WithSnapshotter (gmc_SnapshotInterval cfg) (WithTickRate (gmc_TickRate cfg) (game_New serverID))"

definition game_main :: "('k, 'c, 'p, 'r, 'd, 'm) libs \<Rightarrow> (bytes \<Rightarrow> error + snapRow list) \<Rightarrow> order \<Rightarrow> error option \<Rightarrow> ServerID \<Rightarrow> string list \<Rightarrow>
    DB \<Rightarrow> game_process boot \<times> DB" where
  \<comment> \<open>\<open>serverID\<close> and \<open>eids\<close> are the new ids; the tables are those the room service answers from\<close>
  "game_main lib unmarshal ord call serverID eids db =
     (case Load (li_koanf lib) (li_empty lib) [''configs/defaults.yml'', ''configs/game-server.yml''] of
        Inl err \<Rightarrow> (Exits (''load config: '' @ error_Error err), db)
      | Inr cfg \<Rightarrow>
          if li_dial lib (rsc_Addr (cfg_RoomService cfg)) \<noteq> None then (Exits ''connect to room service failed'', db)
          else
            (case rpc_Register call ord (register_request serverID (gc_Host (cfg_GRPC cfg)) (gc_Port (cfg_GRPC cfg))) db of
               (Inl err, db) \<Rightarrow> (Exits ''register with room service failed'', db)
             | (Inr success, db) \<Rightarrow>
                 if li_listen lib ('':'' @ itoa (gc_Port (cfg_GRPC cfg))) \<noteq> None then (Exits ''listen failed'', db)
                 else
                   (case fst (NewPostgresPool (li_pgx lib) (pgc_DSN (cfg_Postgres cfg))) of
                      Inl err \<Rightarrow> (Exits ''connect to postgres failed'', db)
                    | Inr pgPool \<Rightarrow>
                        if migration_Run (li_migrate lib pgPool) ''internal/storage/migrations'' \<noteq> None then (Exits ''run migrations failed'', db)
                        else
                          (let g = recovers unmarshal (serverID @ ''-z1'') (zip eids (gmc_NPCs (cfg_Game cfg))) db (game_options serverID (cfg_Game cfg))
                           in (Serves \<lparr>gp_server = newGameServerServer g (Some 0), gp_addr = '':'' @ itoa (gc_Port (cfg_GRPC cfg))\<rparr>, db)))))"

fun heartbeat_loop :: "ServerID \<Rightarrow> Time list \<Rightarrow> (Time \<times> room_event) list" where
  \<comment> \<open>the requests of the goroutine, one for each tick of its ticker, with the times the room service handles them\<close>
  "heartbeat_loop serverID [] = []"
| "heartbeat_loop serverID (t # ts) = (t, Beats (heartbeat_request serverID)) # heartbeat_loop serverID ts"

subsection \<open>Starting\<close>

text \<open>The handler of a gateway that starts is open, uses the room service and has the configured secret.\<close>

lemma gateway_main_handler:
  assumes "gateway_main lib rsClient Check = Serves (h, addr)"
  shows "\<not> h_draining h \<and> h_lookuper h = roomLookuper_LookupZone rsClient
    \<and> (\<exists>cfg. Load (li_koanf lib) (li_empty lib) [''configs/defaults.yml'', ''configs/gateway.yml''] = Inr cfg
         \<and> h_jwtSecret h = bytes_of (gwc_JWTSecret (cfg_Gateway cfg)))"
  using assms by (auto simp: gateway_main_def NewHandler_def SetReadyFn_def SetMetrics_def Let_def split: sum.splits option.splits)

lemma gateway_signal_closes: "handleWS Parse accept r (gateway_signal h) st = ((Answer 503 ''draining'', None), gateway_signal h, st)"
  by (simp add: handleWS_eq gateway_signal_def SetDraining_def)

lemma game_main_tables:
  assumes "game_main lib unmarshal ord call serverID eids db = (x, db')"
  shows "db' = db \<or> (\<exists>host port. db' = snd (rs_Register (room_server ord) (register_request serverID host port) db))"
proof -
  have r: "db2 = snd (rs_Register (room_server ord) req db)" if "rs_Register (room_server ord) req db = (ok, db2)" for req ok db2
    using that by simp
  show ?thesis
    using assms by (auto simp: game_main_def rpc_Register_def Let_def split: sum.splits option.splits prod.splits if_splits dest!: r)
qed

lemma Register_inactive: "s \<notin> active_servers db \<Longrightarrow> s \<notin> active_servers (snd (rs_Register (room_server ord) req db))"
  by (auto simp: rs_Register_def room_server_def server_repo_def srv_Register_def active_servers_def zero_node_def ServerStatus_String_def
      Let_def split: option.splits if_splits)

lemma inactive_step:
  assumes "is_order ord" "room_inv db" "\<And>req. e = Beats req \<Longrightarrow> hbr_node_id req \<noteq> s" "s \<notin> active_servers db"
  shows "s \<notin> active_servers (fst (room_step ord (t, e) (db, f)))"
proof (cases e)
  case (Registers req)
  then show ?thesis using Register_inactive [of s "db\<lparr>db_now := t\<rparr>"] assms(4) by simp
next
  case (Beats req)
  then show ?thesis using Heartbeat_step(5) [of "db\<lparr>db_now := t\<rparr>", OF _ refl, where s = s and req = req and ord = ord] assms by simp
next
  case (LooksUp z)
  then show ?thesis using Lookup_step(4) [OF assms(1), of "db\<lparr>db_now := t\<rparr>", OF _ refl, where z = z] assms(2,4) by simp
next
  case (Sweeps o')
  then show ?thesis using Sweep_step(3) [OF assms(1), of "db\<lparr>db_now := t\<rparr>", OF _ refl, where o' = o' and f = f] assms(2,4) by simp
qed

lemma inactive_run:
  "is_order ord \<Longrightarrow> room_inv db \<Longrightarrow> registers_named evs \<Longrightarrow> \<forall>t req. (t, Beats req) \<in> set evs \<longrightarrow> hbr_node_id req \<noteq> s \<Longrightarrow>
     s \<notin> active_servers db \<Longrightarrow> s \<notin> active_servers (fst (room_run ord evs (db, f)))"
proof (induction evs arbitrary: db f)
  case (Cons ev evs)
  obtain t e where ev: "ev = (t, e)" by (cases ev)
  have reg: "registers_named [ev]" "registers_named evs" using Cons.prems(3) by (auto simp: registers_named_def)
  have "s \<notin> active_servers (fst (room_step ord ev (db, f)))" unfolding ev
    using inactive_step [OF Cons.prems(1,2)] Cons.prems(4,5) ev by (metis list.set_intros(1))
  moreover have "\<forall>t req. (t, Beats req) \<in> set evs \<longrightarrow> hbr_node_id req \<noteq> s" using Cons.prems(4) by simp
  ultimately show ?case unfolding room_run_Cons using Cons.IH [OF Cons.prems(1) room_step_inv [OF Cons.prems(1,2) reg(1)] reg(2)] by blast
qed (simp add: room_run_def)

text \<open>
  C18. A server gets no zone before its first heartbeat. A game server registers before it listens,
  opens its pool and migrates, and may exit on the way; whatever its start did, no run of the room
  service without a heartbeat of that server makes it active or the owner of a zone.
\<close>

theorem no_zone_before_heartbeat:
  assumes "is_order ord" and "room_inv db" and "\<not> fm_has (db_game_servers db) serverID" and "serverID \<noteq> ''''"
    and "game_main lib unmarshal ord call serverID eids db = (x, db')"
    and "registers_named evs" and "\<forall>t req. (t, Beats req) \<in> set evs \<longrightarrow> hbr_node_id req \<noteq> serverID"
  shows "room_inv db' \<and> serverID \<notin> active_servers (fst (room_run ord evs (db', f)))
    \<and> (\<forall>z. db_owner (fst (room_run ord evs (db', f))) z \<noteq> Some serverID)"
proof -
  have "serverID \<notin> active_servers db" using assms(3) by (auto simp: active_servers_def fm_has_def)
  then have db': "room_inv db'" "serverID \<notin> active_servers db'"
    using game_main_tables [OF assms(5)] assms(2,4) Register_step(1) [OF assms(2) _ refl, where ord = ord] Register_inactive
    by (auto simp: register_request_def)
  note i = inactive_run [OF assms(1) db'(1) assms(6,7) db'(2), of f]
  moreover have "room_inv (fst (room_run ord evs (db', f)))" by (rule room_run_inv [OF assms(1) db'(1) assms(6)])
  ultimately show ?thesis using db'(1) by (auto simp: room_inv_def)
qed

definition demo_cfg :: Config where
  "demo_cfg = \<lparr>cfg_Service = \<lparr>svc_Name = ''gs'', svc_Instance = ''1'', svc_Debug = False\<rparr>, cfg_Logging = \<lparr>lgc_Level = ''info'', lgc_JSON = True\<rparr>,
     cfg_GRPC = \<lparr>gc_Host = ''hn'', gc_Port = 9000\<rparr>, cfg_Postgres = \<lparr>pgc_DSN = ''pg''\<rparr>, cfg_Redis = \<lparr>rdc_Addr = ''r''\<rparr>,
     cfg_Gateway = \<lparr>gwc_WSPort = 8080, gwc_JWTSecret = ''s'', gwc_MaxPacketSize = 65536, gwc_SoftConnLimit = 9000, gwc_HardConnLimit = 10000,
       gwc_DrainTimeout = 30 * Second\<rparr>,
     cfg_RoomService = \<lparr>rsc_Addr = ''room:9000''\<rparr>,
     cfg_Game = \<lparr>gmc_TickRate = 50 * Millisecond, gmc_SnapshotInterval = 100, gmc_MaxEntities = 5000, gmc_ZoneCellSize = 100, gmc_AOIRadius = 300, gmc_NPCs = []\<rparr>,
     cfg_Metrics = \<lparr>mtc_Port = 9090\<rparr>, cfg_SpatialServerAPI = \<lparr>sac_DefaultZoneCount = 1, sac_DefaultZoneSize = 100\<rparr>\<rparr>"

definition demo_libs :: "error option \<Rightarrow> (unit, unit, unit, unit, unit, unit) libs" where
  \<comment> \<open>libraries that succeed, but for the answer of \<open>Listen\<close>\<close>
  "demo_libs listen = \<lparr>li_koanf = \<lparr>kf_LoadFile = (\<lambda>_. Inr), kf_LoadEnv = (\<lambda>_ _ _. Inr), kf_Unmarshal = (\<lambda>_. Inr demo_cfg)\<rparr>, li_empty = (),
     li_pgx = \<lparr>pg_ParseConfig = Inr o (\<lambda>_. ()), pg_SetConns = (\<lambda>_ _ c. c), pg_NewWithConfig = Inr, pg_Ping = (\<lambda>_. None)\<rparr>,
     li_redis = (\<lambda>_. ()), li_redisPing = (\<lambda>_. None),
     li_migrate = (\<lambda>_. \<lparr>mg_WithInstance = Inr (), mg_NewWithDatabaseInstance = (\<lambda>_ _. Inr), mg_Up = (\<lambda>_. None), mg_ErrNoChange = ErrConflict\<rparr>),
     li_dial = (\<lambda>_. None), li_listen = (\<lambda>_. listen)\<rparr>"

theorem no_zone_before_heartbeat_witness:
  "\<exists>db'. game_main (demo_libs (Some ErrConflict)) (\<lambda>_. Inr []) sorted_list_of_set None ''n'' [] demo_db = (Exits ''listen failed'', db')
    \<and> fm_has (db_game_servers db') ''n''
    \<and> ''n'' \<notin> active_servers (fst (room_run sorted_list_of_set [(101 * Second, LooksUp ''y''), (105 * Second, Sweeps sorted_list_of_set)] (db', None)))"
proof -
  have load: "Load (li_koanf (demo_libs l)) (li_empty (demo_libs l)) [''configs/defaults.yml'', ''configs/game-server.yml''] = Inr demo_cfg" for l
    by (simp add: Load_def demo_libs_def)
  let ?req = "register_request ''n'' ''hn'' 9000"
  let ?r = "rs_Register (room_server sorted_list_of_set) ?req demo_db"
  have g: "game_main (demo_libs (Some ErrConflict)) (\<lambda>_. Inr []) sorted_list_of_set None ''n'' [] demo_db = (Exits ''listen failed'', snd ?r)"
    unfolding game_main_def load rpc_Register_def by (simp add: demo_libs_def demo_cfg_def split: prod.split)
  have row: "fm_has (db_game_servers (snd ?r)) ''n''"
    by (simp add: rs_Register_def room_server_def server_repo_def srv_Register_def register_request_def demo_db_def Let_def fm_has_def)
  have inv: "room_inv demo_db" using demo_db_ok demo_db_sets by (auto simp: room_inv_def)
  have new: "\<not> fm_has (db_game_servers demo_db) ''n''" by (simp add: demo_db_def fm_has_def)
  from no_zone_before_heartbeat [OF is_order_sorted inv new _ g, of "[(101 * Second, LooksUp ''y''), (105 * Second, Sweeps sorted_list_of_set)]" None] g row
  show ?thesis by (simp add: registers_named_def)
qed

subsection \<open>Heartbeats\<close>

lemma beats_timely:
  "sorted (map fst evs) \<Longrightarrow> \<forall>t req. (t, Beats req) \<in> set evs \<and> hbr_node_id req = s \<longrightarrow> lb \<le> t \<Longrightarrow>
   \<forall>t o'. (t, Sweeps o') \<in> set evs \<longrightarrow> t \<le> lb + 15 * Second \<or>
     (\<exists>t0 req. (t0, Beats req) \<in> set evs \<and> hbr_node_id req = s \<and> t0 < t \<and> t \<le> t0 + 15 * Second) \<Longrightarrow>
   timely s lb evs"
proof (induction s lb evs rule: timely.induct)
  case (2 s lb t req evs)
  let ?lb = "if hbr_node_id req = s then t else lb"
  have le: "lb \<le> ?lb" using "2.prems"(2) by auto
  have later: "t \<le> t'" if "(t', e) \<in> set evs" for t' e using "2.prems"(1) that by force
  have "timely s ?lb evs"
  proof (rule "2.IH")
    show "sorted (map fst evs)" using "2.prems"(1) by simp
    show "\<forall>t' req'. (t', Beats req') \<in> set evs \<and> hbr_node_id req' = s \<longrightarrow> ?lb \<le> t'" using later "2.prems"(2) by auto
    show "\<forall>t' o'. (t', Sweeps o') \<in> set evs \<longrightarrow> t' \<le> ?lb + 15 * Second \<or>
       (\<exists>t0 req'. (t0, Beats req') \<in> set evs \<and> hbr_node_id req' = s \<and> t0 < t' \<and> t' \<le> t0 + 15 * Second)"
    proof (intro allI impI)
      fix t' o' assume "(t', Sweeps o') \<in> set evs"
      then consider "t' \<le> lb + 15 * Second" | "hbr_node_id req = s" "t' \<le> t + 15 * Second"
        | t0 req' where "(t0, Beats req') \<in> set evs" "hbr_node_id req' = s" "t0 < t'" "t' \<le> t0 + 15 * Second"
        using "2.prems"(3) by auto
      then show "t' \<le> ?lb + 15 * Second \<or>
          (\<exists>t0 req'. (t0, Beats req') \<in> set evs \<and> hbr_node_id req' = s \<and> t0 < t' \<and> t' \<le> t0 + 15 * Second)"
        using le by cases (simp, simp, blast)
    qed
  qed
  then show ?case by simp
next
  case (3 s lb t o' evs)
  have "\<not> t0 < t" if "(t0, Beats req) \<in> set evs" for t0 req using "3.prems"(1) that by force
  moreover have "t \<le> lb + 15 * Second \<or> (\<exists>t0 req. (t0, Beats req) \<in> set evs \<and> t0 < t)"
    using "3.prems"(3) by (auto dest!: spec [of _ t] spec [of _ o'])
  ultimately have "t \<le> lb + 15 * Second" by blast
  moreover have "timely s lb evs" using "3.prems" by (intro "3.IH") auto
  ultimately show ?case by simp
qed auto

lemma heartbeat_loop_set: "set (heartbeat_loop s ts) = (\<lambda>t. (t, Beats (heartbeat_request s))) ` set ts"
  by (induction ts) auto

lemma late_beats_cover:
  fixes ts :: "Time list"
  assumes "\<And>k. k < length ts \<Longrightarrow> start + 5 * int k * Second \<le> ts ! k \<and> ts ! k \<le> start + 5 * int k * Second + 10 * Second"
    and "hd ts < t" "ts \<noteq> []" "t \<le> start + 5 * int (length ts) * Second + 10 * Second"
  shows "\<exists>t0 \<in> set ts. t0 < t \<and> t \<le> t0 + 15 * Second"
proof -
  have "\<exists>k < length ts. ts ! k < t \<and> (Suc k < length ts \<longrightarrow> t \<le> ts ! Suc k)" (is "\<exists>k < _. ?P k")
  proof (rule ccontr)
    assume none: "\<not> ?thesis"
    have "k < length ts \<Longrightarrow> ts ! k < t" for k
    proof (induction k)
      case 0
      then show ?case using assms(2,3) by (simp add: hd_conv_nth)
    next
      case (Suc k)
      have "\<not> ?P k" using none Suc.prems by (auto dest!: spec [of _ k])
      then show ?case using Suc by (auto simp: not_le)
    qed
    then have "ts ! (length ts - 1) < t" using assms(3) by simp
    moreover have "\<not> ?P (length ts - 1)" using none assms(3) by (auto dest!: spec [of _ "length ts - 1"])
    moreover have "\<not> Suc (length ts - 1) < length ts" using assms(3) by simp
    ultimately show False by blast
  qed
  then obtain k where k: "k < length ts" "ts ! k < t" "Suc k < length ts \<Longrightarrow> t \<le> ts ! Suc k" by blast
  have "t \<le> start + 5 * int (Suc k) * Second + 10 * Second"
  proof (cases "Suc k < length ts")
    case True
    then show ?thesis using k(3) assms(1) [of "Suc k"] by linarith
  next
    case False
    then have "length ts = Suc k" using k(1) by simp
    then show ?thesis using assms(4) by simp
  qed
  then have "t \<le> ts ! k + 15 * Second" using assms(1) [OF k(1)] by simp
  then show ?thesis using k(1,2) nth_mem by blast
qed

text \<open>
  C17. A running server keeps its zones. The goroutine of a game server sends a heartbeat every five
  seconds. Over a run of the room service, with any other events in between, in which these
  heartbeats are handled at most ten seconds late, the server stays active and keeps every zone it
  has at its first heartbeat, although a sweep every five seconds shuts down silent servers.
\<close>

theorem running_server_keeps_zones:
  assumes "is_order ord" and "room_inv db" and "registers_named evs" and "sorted (map fst evs)"
    and "s \<in> active_servers db" and "beat db s = Some t0"
    and "\<forall>k < length (t0 # ts). start + 5 * int k * Second \<le> (t0 # ts) ! k \<and> (t0 # ts) ! k \<le> start + 5 * int k * Second + 10 * Second"
    and "set (heartbeat_loop s ts) \<subseteq> set evs"
    and "\<forall>t \<in> fst ` set evs. t0 \<le> t \<and> t \<le> start + 5 * int (length (t0 # ts)) * Second + 10 * Second"
  shows "s \<in> active_servers (fst (room_run ord evs (db, f)))
    \<and> (\<forall>z. db_owner db z = Some s \<longrightarrow> db_owner (fst (room_run ord evs (db, f))) z = Some s)"
proof -
  have "t \<le> t0 + 15 * Second \<or> (\<exists>b req. (b, Beats req) \<in> set evs \<and> hbr_node_id req = s \<and> b < t \<and> t \<le> b + 15 * Second)"
    if "(t, Sweeps o') \<in> set evs" for t o'
  proof (cases "t0 < t")
    case True
    have "t \<le> start + 5 * int (length (t0 # ts)) * Second + 10 * Second" using assms(9) that by force
    then obtain b where b: "b \<in> set (t0 # ts)" "b < t" "t \<le> b + 15 * Second"
      using late_beats_cover [of "t0 # ts" start t] assms(7) True by auto
    show ?thesis
    proof (cases "b = t0")
      case False
      with b(1) assms(8) have "(b, Beats (heartbeat_request s)) \<in> set evs" by (auto simp: heartbeat_loop_set)
      with b show ?thesis by (force simp: heartbeat_request_def)
    qed (use b in simp)
  qed simp
  then have "timely s t0 evs" using assms(4,9) by (intro beats_timely) force+
  from timely_keeps [OF assms(1-3,5,6) this] show ?thesis by blast
qed

theorem running_server_keeps_zones_witness:
  "db_owner (fst (room_run sorted_list_of_set
      [(5 * Second, Beats (heartbeat_request ''a'')), (7 * Second, Sweeps sorted_list_of_set), (12 * Second, Beats (heartbeat_request ''a'')),
       (25 * Second, Sweeps sorted_list_of_set)] (demo_db, None))) ''z'' = Some ''a''"
proof -
  let ?evs = "[(5 * Second, Beats (heartbeat_request ''a'')), (7 * Second, Sweeps sorted_list_of_set), (12 * Second, Beats (heartbeat_request ''a'')),
       (25 * Second, Sweeps sorted_list_of_set)]"
  have inv: "room_inv demo_db" using demo_db_ok demo_db_sets by (auto simp: room_inv_def)
  have b: "beat demo_db ''a'' = Some 0" by (simp add: beat_def demo_db_def)
  have o: "db_owner demo_db ''z'' = Some ''a''" "''a'' \<in> active_servers demo_db" using demo_db_sets by simp_all
  have reg: "registers_named ?evs" by (simp add: registers_named_def)
  have d: "\<forall>k < length [0, 5 * Second, 12 * Second]. 0 + 5 * int k * Second \<le> [0, 5 * Second, 12 * Second] ! k
      \<and> [0, 5 * Second, 12 * Second] ! k \<le> 0 + 5 * int k * Second + 10 * Second"
    by (auto simp: less_Suc_eq numeral_2_eq_2 numeral_3_eq_3)
  from running_server_keeps_zones [OF is_order_sorted inv reg _ o(2) b d, of None] o(1) show ?thesis by simp
qed

end
