(* ===== verification/Harness.thy ===== *)
theory Harness
  imports Validation
begin

section \<open>The process harness of the scenarios: \<open>internal/validation/harness\<close>\<close>

text \<open>
  The harness starts the containers and the services of a scenario and is the \<open>Infrastructure\<close> the
  runner works on. Building and starting programs, dialling and the containers are functions of a
  record \<open>host\<close> over the state \<open>'w\<close> of the machine. A failed \<open>require\<close> or \<open>t.Fatalf\<close> ends the test
  (\<open>Fails\<close>); the harness is kept then, because what it started still runs. A path is the list of its
  elements, the last first.
\<close>

abbreviation (input) ResourceRuntime :: ResourceID where "ResourceRuntime \<equiv> ''runtime''"

datatype cleanup = StopService nat string | TerminateContainers

record processHarness =
  ph_pgDSN :: string
  ph_redisAddr :: string
  ph_endpoints :: "(ResourceID, string) fmap"
  ph_processes :: "(ResourceID, nat list) fmap"
  ph_cleanups :: "cleanup list"

record 'w host =
  ho_environ :: "string list"
  ho_gomod :: "string list \<Rightarrow> bool"                      \<comment> \<open>a directory has a \<open>go.mod\<close>\<close>
  ho_getwd :: "string list"
  ho_build :: "string \<Rightarrow> 'w \<Rightarrow> (error + string) \<times> 'w"     \<comment> \<open>\<open>go build\<close> of a service: the path of the binary\<close>
  ho_create :: "string \<Rightarrow> 'w \<Rightarrow> error option \<times> 'w"        \<comment> \<open>the log file of a service\<close>
  ho_start :: "string \<Rightarrow> string list \<Rightarrow> 'w \<Rightarrow> (error + nat) \<times> 'w"
  ho_wait :: "string \<Rightarrow> 'w \<Rightarrow> bool \<times> 'w"                \<comment> \<open>an address answers before the deadline\<close>
  ho_postgres :: "'w \<Rightarrow> (error + string) \<times> 'w"
  ho_redis :: "'w \<Rightarrow> (error + string) \<times> 'w"
  ho_migrate :: "string \<Rightarrow> 'w \<Rightarrow> error option \<times> 'w"

subsection \<open>Waiting for a service: \<open>health.go\<close>\<close>

partial_function (option) waitFor :: "(nat \<Rightarrow> Time) \<Rightarrow> (nat \<Rightarrow> bool) \<Rightarrow> Time \<Rightarrow> nat \<Rightarrow> bool option" where
  \<comment> \<open>round \<open>k\<close> of the loop: the clock at its head, and whether the probe succeeds; \<open>Some False\<close>: the test fails\<close>
  "waitFor clock ok deadline k =
     (if clock k < deadline then (if ok k then Some True else waitFor clock ok deadline (k + 1)) else Some False)"

definition waitForGRPC :: "(nat \<Rightarrow> Time) \<Rightarrow> (nat \<Rightarrow> error option) \<Rightarrow> Time \<Rightarrow> Duration \<Rightarrow> bool option" where
  "waitForGRPC clock dial now timeout = waitFor clock (\<lambda>k. dial k = None) (now + timeout) 0"

definition waitForHTTP :: "(nat \<Rightarrow> Time) \<Rightarrow> (nat \<Rightarrow> error + int) \<Rightarrow> Time \<Rightarrow> Duration \<Rightarrow> bool option" where
  \<comment> \<open>the status code of the answer\<close>
  "waitForHTTP clock get now timeout =
     waitFor clock (\<lambda>k. case get k of Inl err \<Rightarrow> False | Inr code \<Rightarrow> 200 \<le> code \<and> code < 300) (now + timeout) 0"

lemma waitFor_returns:
  assumes "\<And>k. clock k + 500 * Millisecond \<le> clock (Suc k)"
  shows "nat (deadline - clock k) \<le> n * nat (500 * Millisecond) \<Longrightarrow>
    \<exists>j \<le> k + n. waitFor clock ok deadline k = Some (clock j < deadline) \<and> (clock j < deadline \<longrightarrow> ok j)"
proof (induction n arbitrary: k)
  case 0
  then have "\<not> clock k < deadline" by simp
  then show ?case by (subst waitFor.simps) auto
next
  case (Suc n)
  show ?case
  proof (cases "clock k < deadline \<and> \<not> ok k")
    case True
    have "nat (deadline - clock (k + 1)) \<le> n * nat (500 * Millisecond)" using Suc.prems assms [of k] by simp
    from Suc.IH [OF this] True show ?thesis by (subst waitFor.simps) fastforce
  next
    case False
    then show ?thesis by (subst waitFor.simps) (intro exI [of _ k], auto)
  qed
qed

subsection \<open>Building and stopping: \<open>builders.go\<close>, \<open>process_manager.go\<close>\<close>

fun moduleRoot :: "(string list \<Rightarrow> bool) \<Rightarrow> string list \<Rightarrow> string list option" where
  "moduleRoot gomod [] = (if gomod [] then Some [] else None)"
| "moduleRoot gomod (d # parent) = (if gomod (d # parent) then Some (d # parent) else moduleRoot gomod parent)"

definition has_prefix :: "string \<Rightarrow> string \<Rightarrow> bool" where
  "has_prefix s p \<longleftrightarrow> take (length p) s = p"

definition cleanEnv :: "string list \<Rightarrow> string list" where
  "cleanEnv environ = filter (\<lambda>e. \<not> has_prefix e ''SPATIAL_'') environ"

datatype term_signal = SIGTERM | KILL

definition killProcess :: "bool \<Rightarrow> term_signal list" where
  \<comment> \<open>whether the process ends within ten seconds\<close>
  "killProcess ends = (if ends then [SIGTERM] else [SIGTERM, KILL])"

datatype 'a verdict = Goes 'a | Fails

definition buildService :: "'w host \<Rightarrow> string \<Rightarrow> 'w \<Rightarrow> string verdict \<times> 'w" where
  "buildService ho name w =
     (case moduleRoot (ho_gomod ho) (ho_getwd ho) of
        None \<Rightarrow> (Fails, w)
      | Some dir \<Rightarrow> (case ho_build ho name w of (Inl err, w) \<Rightarrow> (Fails, w) | (Inr bin, w) \<Rightarrow> (Goes bin, w)))"

definition start_service :: "'w host \<Rightarrow> string \<Rightarrow> string list \<Rightarrow> ResourceID \<Rightarrow> string option \<Rightarrow> string \<Rightarrow>
    processHarness \<Rightarrow> 'w \<Rightarrow> unit verdict \<times> processHarness \<times> 'w" where
  \<comment> \<open>what the three methods share: the service, its variables, its resource, the endpoint they record, the address they wait for\<close>
  "start_service ho name env res endpoint addr h w =
     (case buildService ho name w of
        (Fails, w) \<Rightarrow> (Fails, h, w)
      | (Goes bin, w) \<Rightarrow>
          (case ho_create ho name w of
             (Some err, w) \<Rightarrow> (Fails, h, w)
           | (None, w) \<Rightarrow>
               (case ho_start ho bin (cleanEnv (ho_environ ho) @ env) w of
                  (Inl err, w) \<Rightarrow> (Fails, h, w)
                | (Inr pid, w) \<Rightarrow>
                    let h = h\<lparr>ph_processes := fmupd res (fm_get [] (ph_processes h) res @ [pid]) (ph_processes h)\<rparr>;
                        h = (case endpoint of None \<Rightarrow> h | Some a \<Rightarrow> h\<lparr>ph_endpoints := fmupd res a (ph_endpoints h)\<rparr>);
                        h = h\<lparr>ph_cleanups := ph_cleanups h @ [StopService pid bin]\<rparr>
                    in (case ho_wait ho addr w of (ok, w) \<Rightarrow> (if ok then Goes () else Fails, h, w)))))"

definition StartRoomService :: "'w host \<Rightarrow> processHarness \<Rightarrow> 'w \<Rightarrow> unit verdict \<times> processHarness \<times> 'w" where
  "StartRoomService ho h w =
     start_service ho ''room-service''
       [''SPATIAL_POSTGRES__DSN='' @ ph_pgDSN h, ''SPATIAL_REDIS__ADDR='' @ ph_redisAddr h, ''SPATIAL_GRPC__HOST=127.0.0.1'', ''SPATIAL_GRPC__PORT=19000'']
       ResourceRoomService (Some ''127.0.0.1:19000'') ''127.0.0.1:19000'' h w"

definition StartGameServer :: "'w host \<Rightarrow> int \<Rightarrow> processHarness \<Rightarrow> 'w \<Rightarrow> unit verdict \<times> processHarness \<times> 'w" where
  "StartGameServer ho index h w =
     (let port = itoa (19001 + index)
      in start_service ho ''game-server''
           [''SPATIAL_GRPC__HOST=127.0.0.1'', ''SPATIAL_GRPC__PORT='' @ port, ''SPATIAL_ROOM_SERVICE__ADDR=127.0.0.1:19000'']
           ResourceRuntime None (''127.0.0.1:'' @ port) h w)"

definition StartGateway :: "'w host \<Rightarrow> processHarness \<Rightarrow> 'w \<Rightarrow> unit verdict \<times> processHarness \<times> 'w" where
  "StartGateway ho h w =
     start_service ho ''gateway'' [''SPATIAL_GATEWAY__WS_PORT=18080'', ''SPATIAL_ROOM_SERVICE__ADDR=127.0.0.1:19000'']
       ResourceGateway (Some ''127.0.0.1:18080'') ''http://127.0.0.1:18080/health'' h w"

subsection \<open>The stack: \<open>stack.go\<close>\<close>

definition empty_harness :: processHarness where
  "empty_harness = \<lparr>ph_pgDSN = '''', ph_redisAddr = '''', ph_endpoints = fmempty, ph_processes = fmempty, ph_cleanups = []\<rparr>"

definition StartStack :: "'w host \<Rightarrow> 'w \<Rightarrow> unit verdict \<times> processHarness \<times> 'w" where
  "StartStack ho w =
     (case ho_postgres ho w of
        (Inl err, w) \<Rightarrow> (Fails, empty_harness, w)
      | (Inr dsn, w) \<Rightarrow>
          (case ho_redis ho w of
             (Inl err, w) \<Rightarrow> (Fails, empty_harness\<lparr>ph_pgDSN := dsn\<rparr>, w)
           | (Inr addr, w) \<Rightarrow>
               let h = empty_harness\<lparr>ph_pgDSN := dsn, ph_redisAddr := addr,
                         ph_endpoints := fmupd ResourceRedis addr (fmupd ResourcePostgres dsn fmempty)\<rparr>
               in if moduleRoot (ho_gomod ho) (ho_getwd ho) = None then (Fails, h, w)
                  else (case ho_migrate ho dsn w of
                          (Some err, w) \<Rightarrow> (Fails, h, w)
                        | (None, w) \<Rightarrow> (Goes (), h\<lparr>ph_cleanups := [TerminateContainers]\<rparr>, w))))"

definition teardown :: "processHarness \<Rightarrow> cleanup list" where
  \<comment> \<open>the calls of the function \<open>StartStack\<close> returns, which runs when the harness is complete\<close>
  "teardown h = rev (ph_cleanups h)"

definition ph_Endpoint :: "processHarness \<Rightarrow> ResourceID \<Rightarrow> error + string" where
  "ph_Endpoint h i = (case fmlookup (ph_endpoints h) i of Some addr \<Rightarrow> Inr addr | None \<Rightarrow> Inl (ErrText (''no endpoint for '' @ i)))"

definition ph_Processes :: "processHarness \<Rightarrow> ResourceID \<Rightarrow> error + nat list" where
  "ph_Processes h i = Inr (fm_get [] (ph_processes h) i)"

definition ph_Database :: "processHarness \<Rightarrow> ResourceID \<Rightarrow> error + string" where
  "ph_Database h i = (if i = ResourcePostgres then Inr (ph_pgDSN h) else Inl (ErrText (''no database for '' @ i)))"

definition ph_RuntimeNodes :: "processHarness \<Rightarrow> int" where
  "ph_RuntimeNodes h = int (length (fm_get [] (ph_processes h) ResourceRuntime))"

fun ph_DialServices :: "processHarness \<Rightarrow> ResourceID list \<Rightarrow> error option" where
  "ph_DialServices h [] = None"
| "ph_DialServices h (i # ids) =
     (case ph_Endpoint h i of Inl err \<Rightarrow> Some (Errorf (''dial '' @ i @ '': '') err '''') | Inr _ \<Rightarrow> ph_DialServices h ids)"

definition harness_infra :: "processHarness \<Rightarrow> 'w Infrastructure" where
  \<comment> \<open>the harness as an \<open>Infrastructure\<close>; \<open>Close\<close> returns nil\<close>
  "harness_infra h =
     \<lparr>inf_Endpoint = (\<lambda>i _. ph_Endpoint h i), inf_Processes = (\<lambda>i _. ph_Processes h i), inf_Database = (\<lambda>i _. ph_Database h i),
      inf_RuntimeNodes = (\<lambda>_. ph_RuntimeNodes h), inf_DialServices = (\<lambda>ids w. (ph_DialServices h ids, w)), inf_Close = (\<lambda>w. (None, w))\<rparr>"

definition and_then :: "unit verdict \<times> processHarness \<times> 'w \<Rightarrow> (processHarness \<Rightarrow> 'w \<Rightarrow> unit verdict \<times> processHarness \<times> 'w) \<Rightarrow>
    unit verdict \<times> processHarness \<times> 'w" where
  "and_then r f = (case r of (Fails, h, w) \<Rightarrow> (Fails, h, w) | (Goes _, h, w) \<Rightarrow> f h w)"

fun start_servers :: "'w host \<Rightarrow> int \<Rightarrow> nat \<Rightarrow> processHarness \<Rightarrow> 'w \<Rightarrow> unit verdict \<times> processHarness \<times> 'w" where
  \<comment> \<open>the loop over the indices from \<open>i\<close>\<close>
  "start_servers ho i 0 h w = (Goes (), h, w)"
| "start_servers ho i (Suc n) h w = and_then (StartGameServer ho i h w) (start_servers ho (i + 1) n)"

definition StartStackForChaos :: "'w host \<Rightarrow> nat \<Rightarrow> 'w \<Rightarrow> unit verdict \<times> processHarness \<times> 'w" where
  "StartStackForChaos ho runtimes w =
     and_then (StartStack ho w) (\<lambda>h w.
       and_then (StartRoomService ho h w) (\<lambda>h w.
         and_then (start_servers ho 0 runtimes h w) (StartGateway ho)))"

definition ResetForChaos :: "'w host \<Rightarrow> nat \<Rightarrow> 'w \<Rightarrow> unit verdict \<times> processHarness \<times> 'w" where
  "ResetForChaos ho runtimes w = StartStackForChaos ho runtimes w"

definition NewStackForScenario :: "'w host \<Rightarrow> nat \<Rightarrow> 'w \<Rightarrow> unit verdict \<times> processHarness \<times> 'w" where
  "NewStackForScenario ho runtimes w = StartStackForChaos ho runtimes w"

subsection \<open>What a started stack offers\<close>

definition extends :: "processHarness \<Rightarrow> ResourceID \<Rightarrow> string option \<Rightarrow> processHarness \<Rightarrow> bool" where
  \<comment> \<open>\<open>h'\<close> is \<open>h\<close> with one more process of the resource, its cleanup, and the endpoint if there is one\<close>
  "extends h res endpoint h' \<longleftrightarrow> (\<exists>pid bin. h' = h\<lparr>
     ph_processes := fmupd res (fm_get [] (ph_processes h) res @ [pid]) (ph_processes h),
     ph_endpoints := (case endpoint of None \<Rightarrow> ph_endpoints h | Some a \<Rightarrow> fmupd res a (ph_endpoints h)),
     ph_cleanups := ph_cleanups h @ [StopService pid bin]\<rparr>)"

lemma start_service_extends:
  "start_service ho name env res endpoint addr h w = (Goes u, h', w') \<Longrightarrow> extends h res endpoint h'"
  by (auto simp: start_service_def extends_def Let_def split: prod.splits verdict.splits option.splits sum.splits if_splits)

lemma and_then_Goes: "and_then r f = (Goes u, h', w') \<longleftrightarrow> (\<exists>v h w. r = (Goes v, h, w) \<and> f h w = (Goes u, h', w'))"
  by (cases r) (auto simp: and_then_def split: verdict.splits)

lemma start_servers_extends:
  "start_servers ho i n h w = (Goes u, h', w') \<Longrightarrow>
     length (fm_get [] (ph_processes h') ResourceRuntime) = length (fm_get [] (ph_processes h) ResourceRuntime) + n
     \<and> ph_endpoints h' = ph_endpoints h \<and> ph_pgDSN h' = ph_pgDSN h
     \<and> (\<exists>cs. ph_cleanups h' = ph_cleanups h @ cs \<and> length cs = n \<and> TerminateContainers \<notin> set cs)"
proof (induction n arbitrary: i h w)
  case (Suc n)
  from Suc.prems obtain v h1 w1 where s: "StartGameServer ho i h w = (Goes v, h1, w1)" "start_servers ho (i + 1) n h1 w1 = (Goes u, h', w')"
    by (auto simp: and_then_Goes)
  have "extends h ResourceRuntime None h1" using s(1) start_service_extends by (auto simp: StartGameServer_def Let_def)
  with Suc.IH [OF s(2)] show ?case by (auto simp: extends_def fm_get_def)
qed simp

text \<open>
  A stack started with \<open>n\<close> game servers meets the requirements of exactly the scenarios that need no
  compose environment, no network faults and at most \<open>n\<close> nodes; the runtime has \<open>n\<close> processes; and
  the teardown undoes the \<open>n + 2\<close> services and ends the containers last.
\<close>

theorem chaos_stack:
  assumes "StartStackForChaos ho n w = (Goes u, h, w')"
  shows "(CheckRequirements (harness_infra h) req v = None \<longleftrightarrow>
      \<not> rq_ComposeRequired req \<and> \<not> rq_NetworkFaults req \<and> rq_MinRuntimeNodes req \<le> int n)
    \<and> (\<exists>ps. inf_Processes (harness_infra h) ResourceRuntime v = Inr ps \<and> length ps = n)
    \<and> ph_DialServices h [ResourcePostgres, ResourceRedis, ResourceRoomService, ResourceGateway] = None
    \<and> (\<exists>cs. teardown h = cs @ [TerminateContainers] \<and> TerminateContainers \<notin> set cs \<and> length cs = n + 2)"
proof -
  obtain u1 h1 w1 u2 h2 w2 u3 h3 w3 where s: "StartStack ho w = (Goes u1, h1, w1)" "StartRoomService ho h1 w1 = (Goes u2, h2, w2)"
    "start_servers ho 0 n h2 w2 = (Goes u3, h3, w3)" "StartGateway ho h3 w3 = (Goes u, h, w')"
    using assms by (auto simp: StartStackForChaos_def and_then_Goes)
  have h1: "ph_cleanups h1 = [TerminateContainers]" "ph_processes h1 = fmempty" "fm_has (ph_endpoints h1) ResourceRedis"
    "fm_has (ph_endpoints h1) ResourcePostgres"
    using s(1) by (auto simp: StartStack_def empty_harness_def Let_def fm_has_def split: prod.splits sum.splits option.splits if_splits)
  have h2: "extends h1 ResourceRoomService (Some ''127.0.0.1:19000'') h2"
    using s(2) start_service_extends by (auto simp: StartRoomService_def)
  have h4: "extends h3 ResourceGateway (Some ''127.0.0.1:18080'') h" using s(4) start_service_extends by (auto simp: StartGateway_def)
  note h3 = start_servers_extends [OF s(3)]
  have procs: "length (fm_get [] (ph_processes h) ResourceRuntime) = n" using h1 h2 h3 h4 by (auto simp: extends_def fm_get_def)
  have ends: "fm_has (ph_endpoints h) r" if "r \<in> {ResourcePostgres, ResourceRedis, ResourceRoomService, ResourceGateway}" for r
    using h1 h2 h3 h4 that by (auto simp: extends_def fm_has_def)
  have "\<exists>cs. ph_cleanups h = TerminateContainers # cs \<and> TerminateContainers \<notin> set cs \<and> length cs = n + 2"
    using h1 h2 h3 h4 by (auto simp: extends_def)
  then have "\<exists>cs. teardown h = cs @ [TerminateContainers] \<and> TerminateContainers \<notin> set cs \<and> length cs = n + 2"
    unfolding teardown_def by (metis length_rev rev.simps(2) set_rev)
  moreover have "ph_Endpoint h r \<noteq> Inl e" if "r \<in> {ResourcePostgres, ResourceRedis, ResourceRoomService, ResourceGateway}" for r e
    using ends [OF that] by (auto simp: ph_Endpoint_def fm_has_def split: option.split)
  ultimately show ?thesis
    using procs by (auto simp: CheckRequirements_def harness_infra_def ph_Database_def ph_RuntimeNodes_def ph_Processes_def split: sum.splits if_splits)
qed


end
