(* ===== verification/Scenarios.thy ===== *)
theory Scenarios
  imports Harness
begin

section \<open>Faults, recovery conditions and the chaos scenarios\<close>

text \<open>
  The injectors of \<open>internal/validation/injectors\<close> with their fields, names and both methods, the
  conditions and the waiter of \<open>internal/validation/recovery\<close>, and the scenarios of
  \<open>tests/validation/process_scenarios.go\<close>, which put them together. Printing a duration is the
  argument \<open>show\<close>; sending a signal and dialling are parameters as in \<open>Validation\<close>.
\<close>

subsection \<open>Injectors\<close>

datatype injector =
    InfraRestart ResourceID
  | NetLatency ResourceID int int
  | NetLoss ResourceID int
  | NetPartition
  | ProcessCrash ResourceID
  | ProcessFreeze ResourceID Duration "nat list"     \<comment> \<open>with the field \<open>frozen\<close>\<close>
  | ResourceCPU ResourceID int string
  | ResourceMemory ResourceID int string

definition NewProcessFreeze :: "ResourceID \<Rightarrow> Duration \<Rightarrow> injector" where
  "NewProcessFreeze target dur = ProcessFreeze target dur []"

fun injector_Name :: "(Duration \<Rightarrow> string) \<Rightarrow> injector \<Rightarrow> string" where
  "injector_Name show (InfraRestart target) = ''infra-restart('' @ target @ '')''"
| "injector_Name show (NetLatency target delay jitter) = ''net-latency('' @ target @ '', '' @ itoa delay @ ''ms)''"
| "injector_Name show (NetLoss target percent) = ''net-loss('' @ target @ '', '' @ itoa percent @ ''%)''"
| "injector_Name show NetPartition = ''net-partition''"
| "injector_Name show (ProcessCrash target) = ''process-crash('' @ target @ '')''"
| "injector_Name show (ProcessFreeze target dur frozen) = ''process-freeze('' @ target @ '', '' @ show dur @ '')''"
| "injector_Name show (ResourceCPU target cores dur) = ''resource-cpu('' @ target @ '', '' @ itoa cores @ '' cores)''"
| "injector_Name show (ResourceMemory target limit dur) = ''resource-memory('' @ target @ '', '' @ itoa limit @ ''MB)''"

fun injector_Inject :: "'w signaller \<Rightarrow> 'w Infrastructure \<Rightarrow> injector \<times> 'w \<Rightarrow> error option \<times> injector \<times> 'w" where
  "injector_Inject sig infra (ProcessCrash target, w) =
     (case ProcessCrash_Inject sig target infra w of (e, w) \<Rightarrow> (e, ProcessCrash target, w))"
| "injector_Inject sig infra (ProcessFreeze target dur frozen, w) =
     (case ProcessFreeze_Inject sig target infra (frozen, w) of (e, frozen, w) \<Rightarrow> (e, ProcessFreeze target dur frozen, w))"
| "injector_Inject sig infra (InfraRestart target, w) = (InfraRestart_Inject, InfraRestart target, w)"
| "injector_Inject sig infra (NetLatency target d j, w) = (NetLatency_Inject, NetLatency target d j, w)"
| "injector_Inject sig infra (NetLoss target p, w) = (NetLoss_Inject, NetLoss target p, w)"
| "injector_Inject sig infra (NetPartition, w) = (NetPartition_Inject, NetPartition, w)"
| "injector_Inject sig infra (ResourceCPU target c d, w) = (ResourceCPU_Inject, ResourceCPU target c d, w)"
| "injector_Inject sig infra (ResourceMemory target l d, w) = (ResourceMemory_Inject, ResourceMemory target l d, w)"

fun injector_Recover :: "'w signaller \<Rightarrow> injector \<times> 'w \<Rightarrow> error option \<times> injector \<times> 'w" where
  "injector_Recover sig (ProcessFreeze target dur frozen, w) =
     (case ProcessFreeze_Recover sig (frozen, w) of (e, frozen, w) \<Rightarrow> (e, ProcessFreeze target dur frozen, w))"
| "injector_Recover sig (i, w) = (None, i, w)"

definition log_signal :: "(nat \<times> signal) list signaller" where
  \<comment> \<open>a machine on which every signal is delivered\<close>
  "log_signal p s w = (None, w @ [(p, s)])"

lemma signal_all_log: "signal_all log_signal msg s ps w = (None, w @ map (\<lambda>p. (p, s)) ps)"
  by (induction ps arbitrary: w) (simp_all add: log_signal_def)

text \<open>
  What a freeze stops, its recovery continues: the same processes, in the same order. A crash is not
  undone by its recovery.
\<close>

lemma freeze_thaw:
  assumes "inf_Processes infra target w = Inr ps" "injector_Inject log_signal infra (NewProcessFreeze target d, w) = (e, i, w1)"
    "injector_Recover log_signal (i, w1) = (e', i', w2)"
  shows "e = None \<and> e' = None \<and> w2 = w @ map (\<lambda>p. (p, SIGSTOP)) ps @ map (\<lambda>p. (p, SIGCONT)) ps"
  using assms by (auto simp: NewProcessFreeze_def ProcessFreeze_Inject_def ProcessFreeze_Recover_def signal_all_log)

lemma crash_stays:
  assumes "inf_Processes infra target w = Inr ps" "injector_Inject log_signal infra (ProcessCrash target, w) = (e, i, w1)"
    "injector_Recover log_signal (i, w1) = (e', i', w2)"
  shows "e = None \<and> e' = None \<and> w2 = w @ map (\<lambda>p. (p, SIGKILL)) ps"
  using assms by (auto simp: ProcessCrash_Inject_def signal_all_log)

subsection \<open>Conditions and the waiter\<close>

datatype condition = FixedDelay string Duration Time | HealthyEndpoint ResourceID

definition new_FixedDelay :: "Time \<Rightarrow> string \<Rightarrow> Duration \<Rightarrow> condition" where
  \<comment> \<open>\<open>started\<close> is the time of the call\<close>
  "new_FixedDelay now name delay = FixedDelay name delay now"

fun condition_Name :: "condition \<Rightarrow> string" where
  "condition_Name (FixedDelay name delay started) = name"
| "condition_Name (HealthyEndpoint resource) = ''healthy('' @ resource @ '')''"

record 'w moment =
  \<comment> \<open>what a round of the waiting sees\<close>
  mo_now :: Time
  mo_dial :: "string \<Rightarrow> error option"
  mo_world :: 'w

fun condition_Met :: "'w Infrastructure \<Rightarrow> 'w moment \<Rightarrow> condition \<Rightarrow> bool" where
  "condition_Met infra mo (FixedDelay name delay started) = FixedDelay_Met started delay (mo_now mo)"
| "condition_Met infra mo (HealthyEndpoint resource) = HealthyEndpoint_Met resource (mo_dial mo) infra (mo_world mo)"

record CompositeWaiter =
  cw_mode :: string
  cw_conditions :: "condition list"
  cw_pollEvery :: Duration

definition NewComposite :: "string \<Rightarrow> condition list \<Rightarrow> CompositeWaiter" where
  "NewComposite mode conditions = \<lparr>cw_mode = mode, cw_conditions = conditions, cw_pollEvery = 500 * Millisecond\<rparr>"

definition NewCompositeWithPoll :: "string \<Rightarrow> Duration \<Rightarrow> condition list \<Rightarrow> CompositeWaiter" where
  "NewCompositeWithPoll mode pollEvery conditions = \<lparr>cw_mode = mode, cw_conditions = conditions, cw_pollEvery = pollEvery\<rparr>"

definition waiter_check :: "CompositeWaiter \<Rightarrow> 'w Infrastructure \<Rightarrow> 'w moment \<Rightarrow> string list \<times> string list" where
  \<comment> \<open>the names of the conditions that are met, and of those that are not\<close>
  "waiter_check w infra mo =
     (map condition_Name (filter (condition_Met infra mo) (cw_conditions w)),
      map condition_Name (filter (\<lambda>c. \<not> condition_Met infra mo c) (cw_conditions w)))"

definition waiter_Wait :: "CompositeWaiter \<Rightarrow> 'w Infrastructure \<Rightarrow> (nat \<Rightarrow> 'w moment) \<Rightarrow> (nat \<Rightarrow> error option) \<Rightarrow> error option option" where
  "waiter_Wait w infra mo ctx =
     CompositeWaiter_Wait (cw_mode w) (length (cw_conditions w)) (\<lambda>k. map (condition_Met infra (mo k)) (cw_conditions w)) ctx"

lemma wait_over_check:
  "waiter_check w infra mo = (met, unmet) \<Longrightarrow> wait_over (cw_mode w) (map (condition_Met infra mo) (cw_conditions w)) \<longleftrightarrow>
     (if cw_mode w = WaitAll then unmet = [] \<and> met \<noteq> [] else cw_mode w = WaitAny \<and> met \<noteq> [])"
  by (cases "cw_conditions w") (auto simp: waiter_check_def wait_over_def list_all_iff list_ex_iff filter_empty_conv split: if_splits)

lemma wait_loop_unmet:
  assumes "\<And>k. \<not> wait_over mode (met k)" "ctx (k + n) \<noteq> None"
  shows "\<exists>j err. k \<le> j \<and> ctx j = Some err \<and> wait_loop mode met ctx k = Some (Some (Errorf ''recovery timed out: '' err ''''))"
  using assms(2)
proof (induction n arbitrary: k)
  case 0
  then show ?case by (subst wait_loop.simps) auto
next
  case (Suc n)
  then have "ctx (Suc k + n) \<noteq> None" by simp
  from Suc.IH [OF this] assms(1) [of k] show ?case by (subst wait_loop.simps) (auto split: option.split dest: Suc_leD)
qed

subsection \<open>The scenarios on processes\<close>

abbreviation (input) SeverityMedium :: string where "SeverityMedium \<equiv> ''medium''"
abbreviation (input) SeverityHigh :: string where "SeverityHigh \<equiv> ''high''"
abbreviation (input) SeverityCritical :: string where "SeverityCritical \<equiv> ''critical''"
abbreviation (input) ModeProcess :: string where "ModeProcess \<equiv> ''process''"
abbreviation (input) AcceptWarn :: string where "AcceptWarn \<equiv> ''warn''"

record chaos_scenario =
  \<comment> \<open>a scenario as data: its stack has \<open>cs_runtimes\<close> game servers, and all have the same observers and validators\<close>
  cs_Metadata :: ScenarioMetadata
  cs_runtimes :: nat
  cs_Injector :: injector
  cs_Recovery :: CompositeWaiter
  cs_Acceptance :: AcceptanceCriteria

definition process_requirements :: Requirements where
  "process_requirements = \<lparr>rq_MinRuntimeNodes = 1, rq_ComposeRequired = False, rq_PostgreSQL = True, rq_Redis = True, rq_NetworkFaults = False\<rparr>"

definition no_criterion :: AcceptanceCriterion where
  "no_criterion = \<lparr>ac_Threshold = 0, ac_Policy = ''''\<rparr>"

definition process_metadata :: "string \<Rightarrow> string \<Rightarrow> string \<Rightarrow> string list \<Rightarrow> string \<Rightarrow> string \<Rightarrow> ScenarioMetadata" where
  \<comment> \<open>what the scenarios have in common\<close>
  "process_metadata i name description tags severity expected =
     \<lparr>md_ID = i, md_Name = name, md_Description = description, md_Version = 1, md_Tags = tags, md_Severity = severity, md_Mode = ModeProcess,
      md_Requirements = process_requirements, md_Timeout = 120 * Second, md_ExpectedBehavior = expected\<rparr>"

definition chaos :: "ScenarioMetadata \<Rightarrow> injector \<Rightarrow> CompositeWaiter \<Rightarrow> Duration \<Rightarrow> chaos_scenario" where
  "chaos md fault rec threshold =
     \<lparr>cs_Metadata = md, cs_runtimes = 1, cs_Injector = fault, cs_Recovery = rec,
      cs_Acceptance = \<lparr>acs_RecoveryDuration = \<lparr>ac_Threshold = threshold, ac_Policy = AcceptWarn\<rparr>, acs_OwnershipConvergence = no_criterion,
        acs_TickP95 = no_criterion, acs_ReconnectTime = no_criterion, acs_QueueDrainTime = no_criterion\<rparr>\<rparr>"

definition ProcessScenarios :: "Time \<Rightarrow> chaos_scenario list" where
  \<comment> \<open>all built at \<open>now\<close>\<close>
  "ProcessScenarios now =
     (let healthy = (\<lambda>r d. NewComposite WaitAll [HealthyEndpoint r, new_FixedDelay now ''stabilize'' d]);
          crashRecovery = healthy ResourceRoomService (5 * Second) in
      [chaos (process_metadata ''runtime-crash'' ''Runtime Node Crash'' ''Runtime Node crash and recovery'' [''chaos'', ''crash''] SeverityHigh
           ''Room Service reassigns zones, entities preserved, ghosts cleaned up'')
         (ProcessCrash ResourceRuntime) crashRecovery (30 * Second),
       chaos (process_metadata ''runtime-restart'' ''Runtime Node Restart'' ''Runtime Node SIGKILL + restart'' [''chaos'', ''restart''] SeverityHigh
           ''Runtime re-registers, zones reassigned, entities intact'')
         (ProcessCrash ResourceRuntime) crashRecovery (30 * Second),
       chaos (process_metadata ''gateway-crash'' ''Gateway Crash'' ''Gateway crash and recovery'' [''chaos'', ''crash'', ''gateway''] SeverityHigh
           ''Gateway reconnects to Room Service, routing cache repopulated'')
         (ProcessCrash ResourceGateway) (healthy ResourceGateway (3 * Second)) (15 * Second),
       chaos (process_metadata ''gateway-restart'' ''Gateway Restart'' ''Gateway restart'' [''chaos'', ''restart'', ''gateway''] SeverityHigh
           ''Gateway restarts, reconnects, routing valid'')
         (ProcessCrash ResourceGateway) (healthy ResourceGateway (3 * Second)) (15 * Second),
       chaos (process_metadata ''room-service-crash'' ''Room Service Crash'' ''Room Service crash and recovery'' [''chaos'', ''crash''] SeverityCritical
           ''Room Service recovers, ownership table preserved, Game Servers reconnect'')
         (ProcessCrash ResourceRoomService) (healthy ResourceRoomService (5 * Second)) (30 * Second),
       chaos (process_metadata ''room-service-restart'' ''Room Service Restart'' ''Room Service restart'' [''chaos'', ''restart''] SeverityCritical
           ''Room Service restarts, ownership preserved, routing restored'')
         (ProcessCrash ResourceRoomService) (healthy ResourceRoomService (5 * Second)) (30 * Second),
       chaos (process_metadata ''delayed-heartbeats'' ''Delayed Heartbeats'' ''Runtime Node frozen and thawed'' [''chaos'', ''heartbeat''] SeverityMedium
           ''Room Service detects missing heartbeats, marks zones orphan, recovers on thaw'')
         (NewProcessFreeze ResourceRuntime (15 * Second)) (NewComposite WaitAll [new_FixedDelay now ''thaw-window'' (20 * Second)]) (25 * Second)])"

lemma scenario_ids:
  "distinct (map (\<lambda>sc. md_ID (cs_Metadata sc)) (ProcessScenarios now)) \<and> (\<forall>sc \<in> set (ProcessScenarios now). md_ID (cs_Metadata sc) \<noteq> '''')"
  by (simp add: ProcessScenarios_def process_metadata_def chaos_def Let_def)

text \<open>
  The scenarios that crash the gateway or the room service wait for an endpoint of the process they
  killed, and nothing starts it again: the recovery ends with the context, never by its conditions.
\<close>

theorem crash_scenarios_time_out:
  assumes "sc \<in> set (ProcessScenarios now)" "cs_Injector sc = ProcessCrash r" "r \<noteq> ResourceRuntime"
    and "inf_Endpoint infra r = (\<lambda>_. Inr addr)" and "\<And>k. mo_dial (mo k) addr \<noteq> None" and "ctx n \<noteq> None"
  shows "\<exists>j err. ctx j = Some err \<and> waiter_Wait (cs_Recovery sc) infra mo ctx = Some (Some (Errorf ''recovery timed out: '' err ''''))"
proof -
  obtain c where w: "cs_Recovery sc = NewComposite WaitAll [HealthyEndpoint r, c]"
    using assms(1-3) by (auto simp: ProcessScenarios_def chaos_def Let_def NewProcessFreeze_def)
  have "\<not> condition_Met infra (mo k) (HealthyEndpoint r)" for k using assms(4,5) by (simp add: HealthyEndpoint_Met_def)
  then have "\<not> wait_over WaitAll (map (condition_Met infra (mo k)) [HealthyEndpoint r, c])" for k
    by (simp add: wait_over_def)
  from wait_loop_unmet [of WaitAll, OF this, of ctx 0 n] assms(6) show ?thesis
    by (auto simp: waiter_Wait_def w NewComposite_def CompositeWaiter_Wait_def)
qed

text \<open>A started stack with one game server meets the requirements of all of them.\<close>

lemma process_scenarios_run:
  assumes "StartStackForChaos ho 1 w = (Goes u, h, w')" "sc \<in> set (ProcessScenarios now)"
  shows "CheckRequirements (harness_infra h) (md_Requirements (cs_Metadata sc)) v = None"
proof -
  have "md_Requirements (cs_Metadata sc) = process_requirements"
    using assms(2) by (auto simp: ProcessScenarios_def process_metadata_def chaos_def Let_def)
  with conjunct1 [OF chaos_stack [OF assms(1)], of process_requirements v] show ?thesis by (simp add: process_requirements_def)
qed

end
