(* ===== verification/Bench.thy ===== *)
theory Bench
  imports Game_Core Validation
begin

section \<open>Measurements and workloads of the benchmarks: \<open>benchmarks\<close>\<close>

text \<open>
  The histogram and the verdicts of \<open>benchmarks/framework\<close> and \<open>benchmarks/main.go\<close>, and the
  movement patterns and the metrics of \<open>benchmarks/runtime\<close>. The random numbers of a pattern are
  inputs. Numbers are real numbers.
\<close>

subsection \<open>Histograms: \<open>latency.go\<close>\<close>

type_synonym histogram = "float64 list"

definition NewHistogram :: histogram where
  "NewHistogram = []"

definition hist_Observe :: "float64 \<Rightarrow> histogram \<Rightarrow> histogram" where
  "hist_Observe v h = h @ [v]"

definition Percentile :: "float64 \<Rightarrow> histogram \<Rightarrow> float64 outcome" where
  "Percentile p h =
     (if h = [] then Returns 0
      else
        (let d = sort h;
             idx = \<lceil>(p / 100) * real (length d)\<rceil> - 1;
             idx = (if idx < 0 then 0 else idx)
         in if nat idx < length d then Returns (d ! nat idx) else Panics ''index out of range''))"

definition hist_Count :: "histogram \<Rightarrow> int" where
  "hist_Count h = int (length h)"

definition Mean :: "histogram \<Rightarrow> float64" where
  "Mean h = (if h = [] then 0 else foldl (+) 0 h / real (length h))"

definition hist_Max :: "histogram \<Rightarrow> float64" where
  "hist_Max h = (if h = [] then 0 else foldl (\<lambda>m v. if v > m then v else m) (hd h) h)"

definition Stdev :: "histogram \<Rightarrow> float64" where
  "Stdev h =
     (if h = [] then 0
      else
        (let mean = foldl (+) 0 h / real (length h)
         in sqrt (foldl (\<lambda>sq v. sq + (v - mean) * (v - mean)) 0 h / real (length h))))"

lemma filter_sort_length: "length (filter P (sort xs)) = length (filter P xs)"
  by (metis mset_filter mset_sort size_mset)

lemma sorted_prefix_count:
  assumes "sorted ys" "i < length ys"
  shows "Suc i \<le> length (filter (\<lambda>x. x \<le> ys ! i) ys)"
    and "w < ys ! i \<Longrightarrow> length (filter (\<lambda>x. x \<le> w) ys) \<le> i"
proof -
  have split: "filter P ys = filter P (take k ys) @ filter P (drop k ys)" for P k
    by (metis append_take_drop_id filter_append)
  have "x \<le> ys ! i" if "x \<in> set (take (Suc i) ys)" for x
    using that assms by (auto simp: in_set_conv_nth less_Suc_eq_le intro: sorted_nth_mono)
  then have "filter (\<lambda>x. x \<le> ys ! i) (take (Suc i) ys) = take (Suc i) ys" by (simp add: filter_id_conv)
  then show "Suc i \<le> length (filter (\<lambda>x. x \<le> ys ! i) ys)" using assms(2) split [of "\<lambda>x. x \<le> ys ! i" "Suc i"] by simp
  assume "w < ys ! i"
  moreover have "ys ! i \<le> x" if "x \<in> set (drop i ys)" for x
    using that assms by (auto simp: in_set_conv_nth intro!: sorted_nth_mono)
  ultimately have "filter (\<lambda>x. x \<le> w) (drop i ys) = []" by (force simp: filter_empty_conv)
  then show "length (filter (\<lambda>x. x \<le> w) ys) \<le> i"
    using split [of "\<lambda>x. x \<le> w" i] length_filter_le [of "\<lambda>x. x \<le> w" "take i ys"] by simp
qed

text \<open>
  \<open>Percentile\<close> is the nearest rank: the least sample that at least the share \<open>p\<close> of the samples
  does not exceed. It panics above 100.
\<close>

theorem Percentile_nearest_rank:
  assumes "h \<noteq> []" "0 < p" "p \<le> 100"
  shows "\<exists>v \<in> set h. Percentile p h = Returns v \<and> p / 100 * real (length h) \<le> real (length (filter (\<lambda>x. x \<le> v) h))
    \<and> (\<forall>w < v. real (length (filter (\<lambda>x. x \<le> w) h)) < p / 100 * real (length h))"
proof -
  let ?q = "p / 100 * real (length h)"
  define k where "k = \<lceil>?q\<rceil>"
  have n: "0 < real (length h)" using assms(1) by simp
  have q: "0 < ?q" "?q \<le> real (length h)" using assms(2,3) n by (simp_all add: mult_left_le_one_le)
  have k: "1 \<le> k" "k \<le> int (length h)" using q by (simp_all add: k_def ceiling_le_iff)
  define i where "i = nat (k - 1)"
  have i: "i < length h" using k by (simp add: i_def nat_less_iff)
  let ?v = "sort h ! i"
  have c: "\<lceil>p / 100 * real (length (sort h))\<rceil> = k" unfolding length_sort k_def by (rule refl)
  have "Percentile p h = Returns ?v" unfolding Percentile_def Let_def c using assms(1) k i by (simp add: i_def)
  moreover have "?v \<in> set h" using i by (metis length_sort nth_mem set_sort)
  moreover have "?q \<le> real (Suc i)" using k(1) by (simp add: i_def k_def le_of_int_ceiling)
  moreover have "real i < ?q" using k(1) by (simp add: i_def k_def) linarith
  ultimately show ?thesis
    using sorted_prefix_count [of "sort h" i] i by (intro bexI [of _ ?v]) (auto simp: filter_sort_length, fastforce+)
qed

lemma hist_Max_max: "h \<noteq> [] \<Longrightarrow> hist_Max h = Max (set h)"
proof -
  have "foldl (\<lambda>m v. if v > m then v else m) a xs = Max (insert a (set xs))" for a :: real and xs
  proof (induction xs arbitrary: a)
    case (Cons x xs)
    show ?case using Cons.IH [of "if x > a then x else a"] by (cases "set xs = {}") (auto simp: max_def)
  qed simp
  then show "h \<noteq> [] \<Longrightarrow> hist_Max h = Max (set h)" by (simp add: hist_Max_def insert_absorb)
qed

subsection \<open>Verdicts: \<open>report.go\<close> and \<open>benchmarks/main.go\<close>\<close>

record bench_report =
  br_Scenario :: string
  br_Start :: string
  br_End :: string
  br_P50 :: float64
  br_P95 :: float64
  br_P99 :: float64
  br_P999 :: float64
  br_Packets :: int
  br_Pass :: bool

definition NewReport :: "string \<Rightarrow> string \<Rightarrow> bench_report" where
  \<comment> \<open>\<open>now\<close> is the time in RFC 3339\<close>
  "NewReport now scenario = \<lparr>br_Scenario = scenario, br_Start = now, br_End = '''', br_P50 = 0, br_P95 = 0, br_P99 = 0, br_P999 = 0,
     br_Packets = 0, br_Pass = False\<rparr>"

definition AssertP95 :: "(float64 \<Rightarrow> string) \<Rightarrow> float64 \<Rightarrow> histogram \<Rightarrow> bench_report \<Rightarrow> (error option \<times> bench_report) outcome" where
  \<comment> \<open>\<open>show\<close> prints two decimals\<close>
  "AssertP95 show budgetUs h r =
     (case Percentile 95 h of
        Panics m \<Rightarrow> Panics m
      | Returns p95 \<Rightarrow>
          if p95 > budgetUs then Returns (Some (ErrText (''p95 '' @ show p95 @ ''us exceeds budget '' @ show budgetUs @ ''us'')), r)
          else Returns (None, r\<lparr>br_P95 := p95\<rparr>))"

definition runBenchmark :: "string \<Rightarrow> bench_report \<Rightarrow> int \<Rightarrow> Duration \<Rightarrow> error option" where
  "runBenchmark addr r clients duration = None"

definition bench_main :: "string \<Rightarrow> string \<Rightarrow> string \<Rightarrow> bench_report" where
  \<comment> \<open>the report that is written\<close>
  "bench_main now scenario addr =
     (let r = NewReport now scenario;
          err = (if scenario = ''light'' then runBenchmark addr r 100 (60 * Second)
                 else if scenario = ''medium'' then runBenchmark addr r 1000 (300 * Second)
                 else if scenario = ''heavy'' then runBenchmark addr r 5000 (600 * Second)
                 else None)
      in r\<lparr>br_Pass := (err = None)\<rparr>)"

lemma AssertP95_total: "\<exists>x. AssertP95 show budget h r = Returns x"
proof (cases "h = []")
  case False
  then show ?thesis using Percentile_nearest_rank [OF False, of 95] by (auto simp: AssertP95_def)
qed (simp add: AssertP95_def Percentile_def)

lemma bench_main_passes: "br_Pass (bench_main now scenario addr)"
  by (simp add: bench_main_def runBenchmark_def Let_def)

subsection \<open>Movement: \<open>patterns.go\<close>\<close>

datatype pattern =
    IdlePattern
  | WalkPattern float64 float64                     \<comment> \<open>speed and direction\<close>
  | RandomPattern float64 float64
  | ClusterPattern Vector3 float64
  | HotspotPattern Vector3 float64
  | BoundaryPattern float64 float64 float64 int     \<comment> \<open>edge, span, speed and phase\<close>

definition walk :: "float64 \<Rightarrow> float64 \<Rightarrow> float64 \<Rightarrow> Vector3 \<Rightarrow> Vector3" where
  "walk speed dir dt p = p\<lparr>vX := vX p + cos dir * speed * dt, vZ := vZ p + sin dir * speed * dt\<rparr>"

fun pattern_Update :: "float64 \<Rightarrow> float64 \<Rightarrow> pattern \<times> Vector3 \<Rightarrow> pattern \<times> Vector3" where
  \<comment> \<open>\<open>rnd\<close> is the number a random pattern draws\<close>
  "pattern_Update rnd dt (IdlePattern, p) = (IdlePattern, p)"
| "pattern_Update rnd dt (WalkPattern speed dir, p) = (WalkPattern speed dir, walk speed dir dt p)"
| "pattern_Update rnd dt (RandomPattern speed dir, p) =
     (let dir = dir + (rnd - 1 / 2) * (4 / 10) in (RandomPattern speed dir, walk speed dir dt p))"
| "pattern_Update rnd dt (ClusterPattern center speed, p) =
     (let dx = vX center - vX p; dz = vZ center - vZ p; dist = sqrt (dx * dx + dz * dz)
      in (ClusterPattern center speed,
          if dist < 1 then p else p\<lparr>vX := vX p + (dx / dist) * speed * dt, vZ := vZ p + (dz / dist) * speed * dt\<rparr>))"
| "pattern_Update rnd dt (HotspotPattern hot speed, p) =
     (let dx = vX hot - vX p; dz = vZ hot - vZ p; dist = sqrt (dx * dx + dz * dz) + 1 / 1000000
      in (HotspotPattern hot speed, p\<lparr>vX := vX p + (dx / dist) * speed * dt, vZ := vZ p + (dz / dist) * speed * dt\<rparr>))"
| "pattern_Update rnd dt (BoundaryPattern edge width speed phase, p) =
     (let p = p\<lparr>vX := vX p + real_of_int phase * speed * dt\<rparr>
      in (BoundaryPattern edge width speed (if vX p > edge + width then - 1 else if vX p < edge - width then 1 else phase), p))"

definition assignPattern :: "string \<Rightarrow> float64 \<Rightarrow> float64 \<Rightarrow> float64 \<Rightarrow> float64 \<Rightarrow> float64 \<Rightarrow> float64 \<Rightarrow> nat \<Rightarrow> pattern" where
  \<comment> \<open>\<open>r1\<close>, \<open>r2\<close> and \<open>k\<close> are the numbers drawn, as far as they are\<close>
  "assignPattern kind MovingFrac WorldSize CellSize edgeX r1 r2 k =
     (let center = \<lparr>vX = WorldSize / 2, vY = 0, vZ = WorldSize / 2\<rparr>; dir = r2 * 2 * (314159265 / 100000000)
      in if \<not> r1 < MovingFrac then IdlePattern
         else if kind = ''walk'' then WalkPattern 10 dir
         else if kind = ''random'' then RandomPattern 8 dir
         else if kind = ''cluster'' then ClusterPattern center 6
         else if kind = ''hotspot'' then HotspotPattern center 12
         else if kind = ''boundary'' then BoundaryPattern edgeX CellSize 12 0
         else if k = 0 then IdlePattern
         else if k = 1 then WalkPattern 10 dir
         else if k = 2 then RandomPattern 8 0
         else ClusterPattern center 6)"

fun walks :: "(float64 \<times> float64) list \<Rightarrow> pattern \<times> Vector3 \<Rightarrow> pattern \<times> Vector3" where
  "walks [] x = x"
| "walks ((rnd, dt) # us) x = walks us (pattern_Update rnd dt x)"

text \<open>
  The workload that is to cross a zone boundary does not: an entity that starts within a cell of the
  edge has phase 0 and never moves.
\<close>

lemma boundary_pattern_rests:
  assumes "edgeX - CellSize \<le> vX p" "vX p \<le> edgeX + CellSize" "r1 < MovingFrac"
  shows "snd (walks us (assignPattern ''boundary'' MovingFrac WorldSize CellSize edgeX r1 r2 k, p)) = p"
proof -
  have "walks us (BoundaryPattern edgeX CellSize 12 0, p) = (BoundaryPattern edgeX CellSize 12 0, p)"
  proof (induction us)
    case (Cons u us)
    then show ?case using assms(1,2) by (cases u) (simp add: Let_def)
  qed simp
  then show ?thesis using assms(3) by (simp add: assignPattern_def Let_def)
qed

text \<open>The other patterns walk at their speed: a step of a walk has the length \<open>speed * dt\<close>.\<close>

lemma walk_length:
  "(vX (walk speed dir dt p) - vX p)\<^sup>2 + (vZ (walk speed dir dt p) - vZ p)\<^sup>2 = (speed * dt)\<^sup>2"
proof -
  have "(cos dir * speed * dt)\<^sup>2 + (sin dir * speed * dt)\<^sup>2 = ((cos dir)\<^sup>2 + (sin dir)\<^sup>2) * (speed * dt)\<^sup>2"
    by (simp only: power_mult_distrib distrib_right mult.assoc)
  then show ?thesis by (simp add: walk_def)
qed

subsection \<open>Metrics of a run: \<open>harness.go\<close>\<close>

record benchMetrics =
  bm_overruns :: int
  bm_drops :: "(string, int) fmap"
  bm_runtimeEvents :: "(string, int) fmap"

definition newBenchMetrics :: benchMetrics where
  "newBenchMetrics = \<lparr>bm_overruns = 0, bm_drops = fmempty, bm_runtimeEvents = fmempty\<rparr>"

fun bench_metric :: "metric_call \<Rightarrow> benchMetrics \<Rightarrow> benchMetrics" where
  "bench_metric TickOverrun m = m\<lparr>bm_overruns := bm_overruns m + 1\<rparr>"
| "bench_metric (Dropped q n) m = m\<lparr>bm_drops := fmupd q (fm_get 0 (bm_drops m) q + n) (bm_drops m)\<rparr>"
| "bench_metric (RuntimeEvent k) m = m\<lparr>bm_runtimeEvents := fmupd k (fm_get 0 (bm_runtimeEvents m) k + 1) (bm_runtimeEvents m)\<rparr>"
| "bench_metric _ m = m"

text \<open>The counters of a run are the sums over the calls of the simulation.\<close>

lemma bench_metrics_count:
  "fm_get 0 (bm_drops (fold bench_metric calls newBenchMetrics)) q
     = sum_list (map (\<lambda>c. case c of Dropped q' n \<Rightarrow> if q' = q then n else 0 | _ \<Rightarrow> 0) calls)"
proof -
  have "fm_get 0 (bm_drops (fold bench_metric calls m)) q
     = fm_get 0 (bm_drops m) q + sum_list (map (\<lambda>c. case c of Dropped q' n \<Rightarrow> if q' = q then n else 0 | _ \<Rightarrow> 0) calls)" for m
  proof (induction calls arbitrary: m)
    case (Cons c calls)
    then show ?case by (cases c) (simp_all add: fm_get_upd)
  qed simp
  from this [of newBenchMetrics] show ?thesis by (simp add: newBenchMetrics_def)
qed

end
