(* ===== verification/Spec2Isabelle.thy ===== *)
theory Spec2Isabelle
  imports Journey Room_Migration Room_API Gateway_Sessions Validation_Props Validation_Reports Recovery Apps Scenarios Bench
begin

section \<open>A verification development of the spatial server\<close>

text \<open>
  The program is a real-time backend for shared 3D Spaces (Go, \<open>src/\<close>). Three processes form it.
  The room service registers game servers, gives each zone of a Space an owner and takes the zones
  of silent servers away. A game server simulates the entities of its zones at a fixed tick,
  finds who is near whom with a grid and tells each player what changed. The gateway accepts
  WebSocket connections with a signed token, asks the room service which server owns the player's
  zone, and relays packets both ways. Around them are the wire protocol, Postgres and Redis storage,
  a client tool, and a framework that injects faults into a running stack and judges the recovery.

  \<^bold>\<open>How Go is read.\<close> Structs are records, with an explicit store where the code shares pointers
  (entities and grids in \<open>Game\<close>, send queues in \<open>clientRegistry\<close>). Maps are finite maps; the order of
  \<open>range\<close> is an argument of every definition that depends on it, under the law \<open>is_order\<close>. A channel is
  a list with its capacity. Errors are values of the type \<open>error\<close>, with the prefixes the code wraps
  around them; a panic is \<open>Panics\<close> or a flag of the state. Lengths, sequence numbers and flags on
  the wire are machine words; \<open>int\<close> is unbounded but for the conversions to \<open>int32\<close>, which wrap;
  \<open>float64\<close> is \<open>real\<close>, so rounding, NaN and infinities are not covered; times and durations are
  integers of nanoseconds, and the clock is an input. A goroutine is a step function, and the theorems
  that need it quantify over every interleaving as a list of events.
  Code outside \<open>src/\<close> (gzip, gob, protobuf, JSON, the JWT library, Redis, pgx, koanf, gRPC, the
  operating system) is an argument of the definitions that use it. What a theorem needs of it is a
  named hypothesis, for example \<open>gzip_ok\<close>, \<open>proto_law\<close>, \<open>jwt_law\<close>, and the witness of the theorem
  instantiates it.

  \<^bold>\<open>Shared ground.\<close>
  \<^item> \<open>Prelude\<close>: finite maps, channels, orders of iteration, time, decimal numbers, errors.
  \<^item> \<open>Types\<close>: \<open>internal/types\<close>, the identifiers, vectors and status tables.
  \<^item> \<open>Ownership\<close>: the abstract machine of zone ownership as a locale; the in-memory table
    (\<open>Room_Registry\<close>) and the table in Postgres (\<open>Storage\<close>) interpret it.

  \<^bold>\<open>The game server.\<close>
  \<^item> \<open>Zone\<close>: \<open>internal/game/zone\<close>, the life cycle of a zone and what its transitions allow.
  \<^item> \<open>AOI_Grid\<close>: \<open>internal/game/aoi\<close>. Every operation keeps cells and positions consistent; a range
    query returns exactly the ids in range; serialisation loses nothing.
  \<^item> \<open>NPC\<close>: entities and behaviours (\<open>entity.go\<close>, \<open>npc.go\<close>); a patrol reaches its next waypoint.
  \<^item> \<open>Game_Core\<close>, \<open>Game_Tick\<close>, \<open>Game_Boundary\<close>: \<open>simulation.go\<close>, \<open>lifecycle.go\<close>, \<open>probes.go\<close>,
    \<open>event.go\<close>, \<open>boundary.go\<close>, \<open>peer.go\<close>: the state and every operation on it, the tick, sessions,
    ghosts and migration between zones.
  \<^item> \<open>Game_Invariant\<close>, \<open>Game_Reach\<close>: the invariant \<open>game_inv\<close>, kept by every operation, and the reachable
    states as an inductive relation. \<open>Game_Queues\<close> and \<open>Game_Events\<close>: bounds of the queues and which
    events each step adds. \<open>Game_Props\<close>: a live entity is in one zone, Spaces are isolated,
    visibility and its events are exact, packets change only what their sender owns, a tick does
    bounded work.
  \<^item> \<open>Game_Server\<close>: \<open>apps/game-server\<close> (send queues, registry of clients, Relay, events as packets,
    snapshots) and the loops of \<open>tools/client\<close>. \<open>Game_Server_Props\<close>: over every interleaving a client is
    sent only its own events, the send queue drops only the oldest, a client reads what an event said.
    \<open>Journey\<close>: a move of one player is read by exactly the players near it.
  \<^item> \<open>Recovery\<close>: the snapshot of one server and the start of the next give the same entities.

  \<^bold>\<open>The room service.\<close>
  \<^item> \<open>Room_Registry\<close>, \<open>Room_Sweeper\<close>, \<open>Room_Migration\<close>, \<open>Room_API\<close>: \<open>internal/room\<close>, the allocator, the
    registry, watchers of ownership, the sweeper, zone transfer, leader election, and the API of
    runtimes with its store.
  \<^item> \<open>Room_Service\<close>: the handlers of \<open>apps/room-service\<close> and the production sweeper over the store
    interfaces. \<open>Storage\<close>: these interfaces on Postgres, each SQL statement as its effect on the tables
    with the constraints of the schema. \<open>Deployment\<close>: the handlers and the sweeper of the process
    together, as runs of timed events. In every run an owner is an active server, a server that
    sends heartbeats keeps its zones and a silent one loses them.

  \<^bold>\<open>The gateway and the wire.\<close>
  \<^item> \<open>Protocol\<close>: \<open>pkg/protocol\<close>; round trip and exactly which packets are accepted.
  \<^item> \<open>Base64\<close>, \<open>Auth\<close>: \<open>internal/auth\<close>, tokens and key sets.
  \<^item> \<open>Gateway_Limits\<close>, \<open>Gateway\<close>, \<open>Gateway_Sessions\<close>: \<open>internal/gateway\<close> and \<open>internal/session\<close>: routing
    cache, limiters, the WebSocket handler, the relay, the session store. \<open>Gateway_Props\<close>: exactly when
    a relay starts, what a session is, what a relay forwards.
  \<^item> \<open>Routing\<close> and this theory: gateway and room service together; the players of a zone are relayed
    to one server.

  \<^bold>\<open>Processes and tools.\<close>
  \<^item> \<open>Platform\<close>: \<open>internal/config\<close>, \<open>grpc\<close>, \<open>transport\<close>, \<open>metrics\<close>, \<open>logging\<close>, \<open>observability\<close>, \<open>mtls\<close>,
    \<open>migration\<close> and the pools of \<open>storage\<close>.
  \<^item> \<open>Provision\<close>: provisioning, token and address of \<open>tools/client\<close> and the provisioning of the
    benchmarks; two players of a runtime meet on one server. \<open>Apps\<close>: the three \<open>main\<close> functions; no
    zone before the first heartbeat, and a running server keeps its zones.
  \<^item> \<open>Validation\<close>, \<open>Validation_Props\<close>, \<open>Validation_Reports\<close>, \<open>Harness\<close>, \<open>Scenarios\<close>: \<open>internal/validation\<close> and
    the process scenarios of \<open>tests/validation\<close>. A run undoes what it did even when a stage panics,
    waiting ends when it should, and what the shipped validators judge.
  \<^item> \<open>Bench\<close>: histogram, report, movement patterns and metrics of \<open>benchmarks\<close>.

  \<^bold>\<open>Bounds and loops.\<close> No definition has fuel. Loops over data are structural recursion or \<open>fold\<close>;
  loops that run until something outside happens are step functions over a list of inputs. The
  waits that may never return (\<open>CompositeWaiter_Wait\<close>, \<open>waitForAssignment\<close>, and the wait for a service
  in \<open>Harness\<close>) are partial functions with the value \<open>None\<close> for not returning, and when they return is
  a theorem. Capacities (4096 events, 1024 packets a tick, 64 packets in a send queue) are those of
  the code.

  \<^bold>\<open>Not modelled.\<close> Generated protobuf code, and the HTTP servers for metrics and health, which only
  serve objects of their libraries. The new ids of \<open>uuid\<close> and random numbers are inputs. The
  Kubernetes lease of leader election is a client of an external package. Of the benchmarks, what
  measures wall-clock time, memory and running processes or writes files; the compose scenarios and the
  integration harness, which only start containers; the database of the tests; and the
  health check tool, one HTTP request and an exit code. Cancellation of a context shows as the error of
  the call it ends. Data races are outside the model: a method that holds its lock is one step.
\<close>

text \<open>
  C3. The players of a zone meet on one server. When a handshake starts a relay, the zone of the
  player's token has an owner in the tables of the room service, an old owner if there was one, and
  the relay goes to that server's address; no other zone gets or changes its owner. A later handshake
  for the same zone is relayed to the same address and changes nothing. A handshake that starts no
  relay takes no zone from its owner either.
\<close>

theorem handshake_routes:
  assumes "is_order ord" and "db_ok db" and "h_lookuper h = roomLookuper_LookupZone (room_client ord)"
    and "handleWS Parse accept r h db = ((a, rel), h', db')"
  shows "(\<forall>z s. db_owner db z = Some s \<longrightarrow> db_owner db' z = Some s)
    \<and> (\<forall>st. rel = Some st \<longrightarrow>
        (\<exists>s. db_owner db' = (db_owner db)(cm_ZoneID (rt_claims st) := Some s) \<and> server_addr db' s = Some (rt_addr st))
        \<and> (\<forall>accept2 r2 a2 st2 h2 db2. handleWS Parse accept2 r2 h' db' = ((a2, Some st2), h2, db2) \<longrightarrow>
             cm_ZoneID (rt_claims st2) = cm_ZoneID (rt_claims st) \<longrightarrow> rt_addr st2 = rt_addr st \<and> db_owner db2 = db_owner db'))"
proof -
  note first = handshake_step [OF assms]
  have ok: "db_ok db'" and h: "h_lookuper h' = roomLookuper_LookupZone (room_client ord)" using first assms(3) by (simp_all add: routed_def)
  have same: "rt_addr st2 = rt_addr st \<and> db_owner db2 = db_owner db'"
    if st: "rel = Some st" and again: "handleWS Parse accept2 r2 h' db' = ((a2, Some st2), h2, db2)"
      and z: "cm_ZoneID (rt_claims st2) = cm_ZoneID (rt_claims st)" for st accept2 r2 a2 st2 h2 db2
  proof -
    let ?z = "cm_ZoneID (rt_claims st)"
    obtain s where s: "db_owner db' ?z = Some s" "server_addr db' s = Some (rt_addr st)" using first st by (auto simp: routed_def)
    note second = handshake_step [OF assms(1) ok h again]
    then obtain s2 where s2: "db_owner db2 = (db_owner db')(?z := Some s2)" "server_addr db2 s2 = Some (rt_addr st2)"
      using z by (auto simp: routed_def)
    moreover have "db_owner db2 ?z = Some s" "server_addr db2 = server_addr db'" using second s by (auto simp: routed_def server_addr_def)
    ultimately show ?thesis using s by auto
  qed
  show ?thesis
  proof (intro conjI allI impI)
    show "db_owner db' z = Some s" if "db_owner db z = Some s" for z s using first that by (simp add: routed_def)
    show "\<exists>s. db_owner db' = (db_owner db)(cm_ZoneID (rt_claims st) := Some s) \<and> server_addr db' s = Some (rt_addr st)"
      if "rel = Some st" for st using first that by (simp add: routed_def)
  qed (use same in blast)+
qed

definition demo_tables :: DB where
  "demo_tables = demo_db\<lparr>db_zones := fmupd ''z1''
     \<lparr>zn_runtime_id = ''r'', zn_grid_x = 2, zn_grid_y = 0, zn_status = ''active'', zn_server_id = Some ''a''\<rparr> (db_zones demo_db)\<rparr>"

lemma demo_tables_ok: "db_ok demo_tables"
proof -
  have "db_owner demo_tables x = (if x = ''z1'' then Some ''a'' else db_owner demo_db x)" for x
    by (simp add: db_owner_def demo_tables_def)
  moreover have "db_fault demo_tables = db_fault demo_db" "db_game_servers demo_tables = db_game_servers demo_db" by (simp_all add: demo_tables_def)
  moreover have "fm_has (db_game_servers demo_db) ''a''" by (simp add: demo_db_def fm_has_def)
  ultimately show ?thesis using demo_db_ok unfolding db_ok_def by (auto split: if_splits)
qed

theorem handshake_routes_witness:
  "\<exists>h' db'. handleWS hmac_parse (Inr 7) demo_request
        (NewHandler (NewRouterCache 5) (roomLookuper_LookupZone (room_client sorted_list_of_set)) [1]) demo_tables
      = ((Upgraded 7, Some (start_for demo_claims ''ha:1'' 7)), h', db') \<and> db_owner db' ''z1'' = Some ''a'' \<and> server_addr db' ''a'' = Some ''ha:1''"
proof -
  let ?h = "NewHandler (NewRouterCache 5) (roomLookuper_LookupZone (room_client sorted_list_of_set)) [1] :: DB Handler"
  have owner: "db_owner demo_tables ''z1'' = Some ''a''" by (simp add: db_owner_def demo_tables_def)
  have one: "itoa 1 = ''1''" by (simp add: itoa_def nat_to_string.simps digit_char_def char_of_def bit_0)
  have look: "roomLookuper_LookupZone (room_client sorted_list_of_set) ''z1'' demo_tables = (Inr ''ha:1'', demo_tables)"
    by (simp add: roomLookuper_LookupZone_def room_client_def rs_LookupZone_def lookup_owner_def server_repo_def zone_repo_def zr_Lookup_def
        select_owner_def demo_tables_def demo_db_def srv_Get_def scanServer_def row_node_def lookup_response_def node_Address_def zero_node_def Let_def one)
  obtain h' where r: "handleWS hmac_parse (Inr 7) demo_request ?h demo_tables = ((Upgraded 7, Some (start_for demo_claims ''ha:1'' 7)), h', demo_tables)"
    using look by (simp add: handleWS_eq ws_serve_eq NewHandler_def demo_request_def demo_valid) (simp add: demo_claims_def)
  have "h_lookuper ?h = roomLookuper_LookupZone (room_client sorted_list_of_set)" by (simp add: NewHandler_def)
  from handshake_routes [OF is_order_sorted demo_tables_ok this r] r owner show ?thesis
    by (auto simp: start_for_def demo_claims_def dest: fun_cong [where x = "''z1''"])
qed

end
